(* ===== verification/Prelude.thy ===== *)
theory Prelude
  imports
    Main
    "HOL-Library.Word"
    "HOL-Library.AList"
    "HOL-Library.Char_ord"
    "HOL-Library.List_Lexorder"
    "HOL-Library.Multiset"
begin

text \<open>
  Shared vocabulary of the development: the machine types of the Go program, Go
  maps as association lists with distinct keys, byte slices that may be
  \<open>nil\<close>, and the generic lemmas the component theories use. Interfaces that
  several components share are stated here as locales: \<open>one_shot\<close> (a flag that
  is set once, as \<open>sync.Once\<close> or the client warning flags are) and
  \<open>invariant_system\<close> (an invariant of a step relation holds in every
  reachable state).
\<close>

section \<open>Machine types\<close>

type_synonym byte = "8 word"
type_synonym bytes = "byte list"
type_synonym u16 = "16 word"
type_synonym u32 = "32 word"
text \<open>An \<open>int32\<close> is a 32-bit word read with \<^const>\<open>sint\<close>.\<close>
type_synonym i32 = "32 word"

named_theorems go_simps "rewrite rules for the Go library operations the code uses"

section \<open>Byte slices that may be nil\<close>

text \<open>
  A Go \<open>[]byte\<close> is either \<open>nil\<close> or a (possibly empty) byte sequence. The code
  clones a slice with \<open>append([]byte(nil), p...)\<close>, which is \<open>nil\<close> when \<open>p\<close> is
  empty: nothing is appended to the nil slice.
\<close>

type_synonym slice = "bytes option"

definition slice_clone :: "bytes \<Rightarrow> slice" where
  "slice_clone p = (if p = [] then None else Some p)"

definition slice_bytes :: "slice \<Rightarrow> bytes" where
  "slice_bytes s = (case s of None \<Rightarrow> [] | Some p \<Rightarrow> p)"

lemma slice_bytes_simps [simp]:
  "slice_bytes None = []" "slice_bytes (Some p) = p"
  by (simp_all add: slice_bytes_def)

lemma slice_bytes_clone [simp]: "slice_bytes (slice_clone p) = p"
  by (simp add: slice_clone_def)

lemma slice_clone_eq_None [simp]: "slice_clone p = None \<longleftrightarrow> p = []"
  by (simp add: slice_clone_def)

lemma slice_clone_nonempty [simp]: "p \<noteq> [] \<Longrightarrow> slice_clone p = Some p"
  by (simp add: slice_clone_def)

section \<open>Go maps\<close>

text \<open>
  A Go map is an association list with distinct keys. The order of the list is
  the order a \<open>range\<close> loop would see before the run time shuffles it; code
  whose result depends on the order takes the shuffle as an argument.
\<close>

type_synonym ('k, 'v) gomap = "('k \<times> 'v) list"

definition gomap_ok :: "('k, 'v) gomap \<Rightarrow> bool" where
  "gomap_ok m \<longleftrightarrow> distinct (map fst m)"

lemma gomap_ok_Nil [simp]: "gomap_ok []"
  by (simp add: gomap_ok_def)

lemma gomap_ok_update [simp]: "gomap_ok m \<Longrightarrow> gomap_ok (AList.update k v m)"
  by (simp add: gomap_ok_def distinct_update)

lemma gomap_ok_delete [simp]: "gomap_ok m \<Longrightarrow> gomap_ok (AList.delete k m)"
  by (simp add: gomap_ok_def distinct_delete)

lemma gomap_ok_filter [simp]: "gomap_ok m \<Longrightarrow> gomap_ok (filter P m)"
  by (simp add: gomap_ok_def distinct_map_filter)

lemma gomap_ok_map_of:
  "gomap_ok m \<Longrightarrow> (k, v) \<in> set m \<longleftrightarrow> map_of m k = Some v"
  by (simp add: gomap_ok_def)

lemma map_of_update [simp]:
  "map_of (AList.update k v m) = (map_of m)(k \<mapsto> v)"
  by (rule update_conv')

lemma map_of_delete [simp]:
  "map_of (AList.delete k m) = (map_of m)(k := None)"
  by (rule delete_conv')

lemma set_update_fresh:
  "k \<notin> fst ` set m \<Longrightarrow> set (AList.update k v m) = insert (k, v) (set m)"
  by (induction m) auto

lemma fst_set_update [simp]:
  "fst ` set (AList.update k v m) = insert k (fst ` set m)"
  by (induction m) auto

lemma set_delete_conv:
  "set (AList.delete k m) = {p \<in> set m. fst p \<noteq> k}"
  by (auto simp: AList.delete_eq)

lemma map_of_None_iff: "map_of m k = None \<longleftrightarrow> k \<notin> fst ` set m"
  by (simp add: map_of_eq_None_iff)

section \<open>Sorted key lists\<close>

text \<open>
  \<open>sort.Strings\<close> and \<open>sort.Slice\<close> over the keys of a map: the keys are
  distinct, so the unstable sort of the library has one possible result.
\<close>

definition sorted_keys :: "('k \<Rightarrow> 'o::linorder) \<Rightarrow> ('k, 'v) gomap \<Rightarrow> 'k list" where
  "sorted_keys f m = sort_key f (map fst m)"

lemma set_sorted_keys [simp]: "set (sorted_keys f m) = fst ` set m"
  by (simp add: sorted_keys_def)

lemma length_sorted_keys [simp]: "length (sorted_keys f m) = length m"
  by (simp add: sorted_keys_def)

lemma sorted_sorted_keys: "sorted (map f (sorted_keys f m))"
  by (simp add: sorted_keys_def)

lemma distinct_sorted_keys: "gomap_ok m \<Longrightarrow> distinct (sorted_keys f m)"
  by (simp add: sorted_keys_def gomap_ok_def)

section \<open>One-shot flags\<close>

text \<open>
  The client's warning flags and the broker's error are set at most once; the
  first caller sees \<open>True\<close>, every later one \<open>False\<close> and an unchanged state.
\<close>

locale one_shot =
  fixes fire :: "'s \<Rightarrow> bool \<times> 's"
    and fired :: "'s \<Rightarrow> bool"
  assumes fire_first: "\<not> fired s \<Longrightarrow> fst (fire s)"
    and fire_again: "fired s \<Longrightarrow> fire s = (False, s)"
    and fire_fired: "fired (snd (fire s))"
begin

primrec fire_times :: "nat \<Rightarrow> 's \<Rightarrow> bool list \<times> 's" where
  "fire_times 0 s = ([], s)"
| "fire_times (Suc n) s =
     (let (b, s1) = fire s; (bs, s2) = fire_times n s1 in (b # bs, s2))"

lemma fire_times_fired: "fired s \<Longrightarrow> fire_times n s = (replicate n False, s)"
  by (induction n) (simp_all add: fire_again)

lemma fire_times_fresh:
  assumes "\<not> fired s"
  shows "fire_times (Suc n) s = (True # replicate n False, snd (fire s))"
proof -
  obtain b s1 where f: "fire s = (b, s1)" by (cases "fire s")
  with fire_first [OF assms] fire_fired [of s] have "b" "fired s1" by simp_all
  with f show ?thesis by (simp add: fire_times_fired)
qed

end

section \<open>Invariants of step relations\<close>

locale invariant_system =
  fixes init :: "'s \<Rightarrow> bool"
    and step :: "'s \<Rightarrow> 's \<Rightarrow> bool"
    and inv :: "'s \<Rightarrow> bool"
  assumes inv_init: "init s \<Longrightarrow> inv s"
    and inv_step: "inv s \<Longrightarrow> step s t \<Longrightarrow> inv t"
begin

lemma inv_steps: "step\<^sup>*\<^sup>* s t \<Longrightarrow> inv s \<Longrightarrow> inv t"
  by (induction rule: rtranclp_induct) (auto intro: inv_step)

lemma inv_reachable: "init s \<Longrightarrow> step\<^sup>*\<^sup>* s t \<Longrightarrow> inv t"
  using inv_steps inv_init by blast

end

end
