(* ===== verification/Frame.thy ===== *)
theory Frame
  imports Prelude
begin

text \<open>
  The serial/TCP framing of \<open>internal/frame/frame.go\<close>: two magic bytes, a
  big-endian 16-bit length, the payload. The reader is the pending byte
  sequence together with the error the underlying \<open>io.Reader\<close> reports once the
  bytes are used up; the writer is an arbitrary \<open>io.Writer\<close>, given by its
  answer (count, error) to each \<open>Write\<close> as a function of what it has accepted.
\<close>

section \<open>Readers and writers of the Go library\<close>

datatype io_error = EOF | ErrUnexpectedEOF | OtherErr string

type_synonym reader = "bytes \<times> io_error"

fun ReadByte :: "reader \<Rightarrow> io_error + byte \<times> reader" where
  "ReadByte ([], e) = Inl e"
| "ReadByte (b # bs, e) = Inr (b, (bs, e))"

text \<open>
  \<open>io.ReadFull\<close>: all the bytes asked for, or the error; \<open>EOF\<close> becomes
  \<open>ErrUnexpectedEOF\<close> when some of the bytes were there.
\<close>

definition ReadFull :: "nat \<Rightarrow> reader \<Rightarrow> io_error + bytes \<times> reader" where
  "ReadFull n r =
     (case r of (bs, e) \<Rightarrow>
       if n \<le> length bs then Inr (take n bs, (drop n bs, e))
       else if e = EOF \<and> bs \<noteq> [] then Inl ErrUnexpectedEOF
       else Inl e)"

type_synonym writer = "bytes \<Rightarrow> bytes \<Rightarrow> int \<times> io_error option"

text \<open>The documented contract of \<open>io.Writer\<close>: the count is within the buffer.\<close>

definition writer_ok :: "writer \<Rightarrow> bool" where
  "writer_ok w \<longleftrightarrow> (\<forall>out buf. 0 \<le> fst (w out buf) \<and> fst (w out buf) \<le> int (length buf))"

section \<open>Constants and the length field\<close>

definition Magic0 :: byte where "Magic0 = 0x94"
definition Magic1 :: byte where "Magic1 = 0xC3"
definition MaxSize :: nat where "MaxSize = 64 * 1024 - 1"

lemma magic_distinct [simp]: "Magic0 \<noteq> Magic1" "Magic1 \<noteq> Magic0"
  by (simp_all add: Magic0_def Magic1_def)

text \<open>\<open>binary.BigEndian.Uint16\<close> and \<open>PutUint16\<close>.\<close>

definition be_uint16 :: "byte \<Rightarrow> byte \<Rightarrow> u16" where
  "be_uint16 hi lo = or (push_bit 8 (ucast hi)) (ucast lo)"

definition be_put_uint16 :: "u16 \<Rightarrow> bytes" where
  "be_put_uint16 v = [ucast (drop_bit 8 v), ucast v]"

lemma be_uint16_put: "be_uint16 (ucast (drop_bit 8 v)) (ucast v) = v"
  unfolding be_uint16_def
  by (rule bit_word_eqI) (auto simp: bit_simps)

lemma be_put_uint16_get: "be_put_uint16 (be_uint16 hi lo) = [hi, lo]"
proof -
  have "ucast (drop_bit 8 (be_uint16 hi lo)) = hi"
    unfolding be_uint16_def
    by (rule bit_word_eqI) (auto simp: bit_simps dest: bit_imp_le_length)
  moreover have "ucast (be_uint16 hi lo) = lo"
    unfolding be_uint16_def by (rule bit_word_eqI) (auto simp: bit_simps)
  ultimately show ?thesis by (simp add: be_put_uint16_def)
qed

lemma ReadByte_Inr: "ReadByte r = Inr (b, r') \<longleftrightarrow> fst r = b # fst r' \<and> snd r' = snd r"
  by (cases r; cases "fst r") auto

lemma ReadByte_Inl: "ReadByte r = Inl e \<longleftrightarrow> r = ([], e)"
  by (cases r; cases "fst r") auto

section \<open>ReadFrame\<close>

datatype frame_error = IOErr io_error | ErrInvalidFrame u16

function ReadFrame :: "reader \<Rightarrow> (frame_error + bytes) \<times> reader" where
  "ReadFrame r =
     (case ReadByte r of
        Inl e \<Rightarrow> (Inl (IOErr e), ([], e))
      | Inr (b0, r1) \<Rightarrow>
          if b0 \<noteq> Magic0 then ReadFrame r1
          else (case ReadByte r1 of
              Inl e \<Rightarrow> (Inl (IOErr e), ([], e))
            | Inr (b1, r2) \<Rightarrow>
                if b1 \<noteq> Magic1 then ReadFrame r2
                else (case ReadFull 2 r2 of
                    Inl e \<Rightarrow> (Inl (IOErr e), ([], snd r2))
                  | Inr (lenBuf, r3) \<Rightarrow>
                      let len = be_uint16 (lenBuf ! 0) (lenBuf ! 1) in
                      if len = 0 \<or> MaxSize < unat len then (Inl (ErrInvalidFrame len), r3)
                      else (case ReadFull (unat len) r3 of
                          Inl e \<Rightarrow> (Inl (IOErr e), ([], snd r3))
                        | Inr (payload, r4) \<Rightarrow> (Inr payload, r4)))))"
  by pat_completeness auto
termination
proof (relation "measure (\<lambda>r. length (fst r))")
  show "wf (measure (\<lambda>r. length (fst r)))" by simp
qed (auto simp: ReadByte_Inr)

declare ReadFrame.simps [simp del]

section \<open>WriteFrame\<close>

datatype write_error = WriteErr io_error | FrameTooLarge nat | PanicSliceBounds

function writeAll :: "writer \<Rightarrow> bytes \<Rightarrow> bytes \<Rightarrow> write_error option \<times> bytes" where
  "writeAll w out buf =
     (if buf = [] then (None, out)
      else
        let (n, err) = w out buf; out' = out @ take (nat n) buf in
        (case err of
           Some e \<Rightarrow> (Some (WriteErr e), out')
         | None \<Rightarrow>
             if n = 0 then (Some (WriteErr ErrUnexpectedEOF), out')
             else if n < 0 \<or> int (length buf) < n then (Some PanicSliceBounds, out')
             else writeAll w out' (drop (nat n) buf)))"
  by pat_completeness auto
termination
  by (relation "measure (\<lambda>(w, out, buf). length buf)") auto

declare writeAll.simps [simp del]

definition frame_header :: "bytes \<Rightarrow> bytes" where
  "frame_header payload =
     [Magic0, Magic1] @ be_put_uint16 (word_of_nat (length payload))"

definition WriteFrame :: "writer \<Rightarrow> bytes \<Rightarrow> bytes \<Rightarrow> write_error option \<times> bytes" where
  "WriteFrame w out payload =
     (if MaxSize < length payload then (Some (FrameTooLarge (length payload)), out)
      else case writeAll w out (frame_header payload) of
          (Some e, out') \<Rightarrow> (Some e, out')
        | (None, out') \<Rightarrow> writeAll w out' payload)"

text \<open>The bytes of a frame on the wire.\<close>

definition encode_frame :: "bytes \<Rightarrow> bytes" where
  "encode_frame payload = frame_header payload @ payload"

definition frame_ok :: "bytes \<Rightarrow> bool" where
  "frame_ok payload \<longleftrightarrow> payload \<noteq> [] \<and> length payload \<le> MaxSize"

section \<open>Characteristic equations of the scanner\<close>

lemma ReadFrame_empty: "ReadFrame ([], e) = (Inl (IOErr e), ([], e))"
  by (simp add: ReadFrame.simps)

lemma ReadFrame_skip: "b \<noteq> Magic0 \<Longrightarrow> ReadFrame (b # bs, e) = ReadFrame (bs, e)"
  by (subst ReadFrame.simps) simp

lemma ReadFrame_lone_magic: "ReadFrame ([Magic0], e) = (Inl (IOErr e), ([], e))"
  by (simp add: ReadFrame.simps)

lemma ReadFrame_half_magic:
  "b \<noteq> Magic1 \<Longrightarrow> ReadFrame (Magic0 # b # bs, e) = ReadFrame (bs, e)"
  by (subst ReadFrame.simps) simp

definition read_body :: "reader \<Rightarrow> (frame_error + bytes) \<times> reader" where
  "read_body r =
     (case ReadFull 2 r of
        Inl e \<Rightarrow> (Inl (IOErr e), ([], snd r))
      | Inr (lenBuf, r3) \<Rightarrow>
          let len = be_uint16 (lenBuf ! 0) (lenBuf ! 1) in
          if len = 0 \<or> MaxSize < unat len then (Inl (ErrInvalidFrame len), r3)
          else (case ReadFull (unat len) r3 of
              Inl e \<Rightarrow> (Inl (IOErr e), ([], snd r3))
            | Inr (payload, r4) \<Rightarrow> (Inr payload, r4)))"

lemma ReadFrame_magic: "ReadFrame (Magic0 # Magic1 # bs, e) = read_body (bs, e)"
  by (subst ReadFrame.simps) (simp add: read_body_def)

lemmas ReadFrame_eqs =
  ReadFrame_empty ReadFrame_skip ReadFrame_lone_magic ReadFrame_half_magic ReadFrame_magic

text \<open>The five shapes of the pending bytes the scanner tells apart.\<close>

lemma scan_cases [case_names empty skip lone half magic]:
  obtains "bs = []" | b bs' where "bs = b # bs'" "b \<noteq> Magic0" | "bs = [Magic0]"
    | b bs' where "bs = Magic0 # b # bs'" "b \<noteq> Magic1"
    | bs' where "bs = Magic0 # Magic1 # bs'"
proof (cases bs)
  case (Cons b cs)
  then show ?thesis using that by (cases cs) auto
qed (use that in blast)

lemma unat_len16: "n \<le> MaxSize \<Longrightarrow> unat (word_of_nat n :: u16) = n"
  by (simp add: MaxSize_def unat_of_nat take_bit_nat_eq_self)

lemma unat_u16_le_MaxSize: "unat (v :: u16) \<le> MaxSize"
  using unsigned_less [where ?'a = nat, of v] by (simp add: MaxSize_def)

lemma length_frame_header [simp]: "length (frame_header p) = 4"
  by (simp add: frame_header_def be_put_uint16_def)

lemma frame_header_nonempty [simp]: "frame_header p \<noteq> []"
  by (simp add: frame_header_def)

lemma length_encode_frame: "length (encode_frame p) = 4 + length p"
  by (simp add: encode_frame_def)

lemma read_body_cases:
  "read_body (bs, e) =
     (case bs of
        hi # lo # cs \<Rightarrow>
          let len = be_uint16 hi lo in
          if len = 0 then (Inl (ErrInvalidFrame len), (cs, e))
          else if unat len \<le> length cs then (Inr (take (unat len) cs), (drop (unat len) cs, e))
          else (Inl (IOErr (if e = EOF \<and> cs \<noteq> [] then ErrUnexpectedEOF else e)), ([], e))
      | _ \<Rightarrow> (Inl (IOErr (if e = EOF \<and> bs \<noteq> [] then ErrUnexpectedEOF else e)), ([], e)))"
  using unat_u16_le_MaxSize
  by (auto simp: read_body_def ReadFull_def Let_def not_less split: list.splits)

section \<open>Round trip\<close>

lemma ReadFrame_encode:
  assumes "frame_ok p"
  shows "ReadFrame (encode_frame p @ rest, e) = (Inr p, (rest, e))"
proof -
  let ?len = "word_of_nat (length p) :: u16"
  have u: "unat ?len = length p"
    using assms by (simp add: frame_ok_def unat_len16)
  have nz: "?len \<noteq> 0"
    using assms u by (auto simp: frame_ok_def)
  have "encode_frame p @ rest = Magic0 # Magic1 # ucast (drop_bit 8 ?len) # ucast ?len # p @ rest"
    by (simp add: encode_frame_def frame_header_def be_put_uint16_def)
  then show ?thesis
    using u nz by (simp add: ReadFrame_magic read_body_cases be_uint16_put)
qed

lemma ReadFrame_junk:
  "Magic0 \<notin> set junk \<Longrightarrow> ReadFrame (junk @ bs, e) = ReadFrame (bs, e)"
  by (induction junk) (auto simp: ReadFrame_skip)

text \<open>Whatever the scanner returns as a payload was framed in the stream.\<close>

lemma read_body_sound:
  assumes "read_body (bs, e) = (Inr p, r)"
  shows "Magic0 # Magic1 # bs = encode_frame p @ fst r \<and> snd r = e \<and> frame_ok p"
proof -
  from assms obtain hi lo cs where bs: "bs = hi # lo # cs"
    and nz: "be_uint16 hi lo \<noteq> 0" and le: "unat (be_uint16 hi lo) \<le> length cs"
    and p: "p = take (unat (be_uint16 hi lo)) cs"
    and r: "r = (drop (unat (be_uint16 hi lo)) cs, e)"
    by (auto simp: read_body_cases Let_def split: list.splits if_splits)
  have len: "length p = unat (be_uint16 hi lo)" using p le by simp
  have "be_put_uint16 (word_of_nat (length p)) = [hi, lo]"
    by (simp add: len be_put_uint16_get)
  moreover have "frame_ok p"
    using nz len unat_u16_le_MaxSize [of "be_uint16 hi lo"]
    by (auto simp: frame_ok_def unat_eq_zero)
  ultimately show ?thesis
    using p r bs by (simp add: encode_frame_def frame_header_def)
qed

lemma ReadFrame_sound:
  "ReadFrame (bs, e) = (Inr p, r) \<Longrightarrow>
     \<exists>junk. bs = junk @ encode_frame p @ fst r \<and> snd r = e \<and> frame_ok p"
proof (induction "length bs" arbitrary: bs rule: less_induct)
  case less
  have step: "\<exists>junk. bs = junk @ encode_frame p @ fst r \<and> snd r = e \<and> frame_ok p"
    if "bs = pre @ bs'" "pre \<noteq> []" "ReadFrame (bs', e) = (Inr p, r)" for pre bs'
  proof -
    from less.hyps [of bs'] that obtain junk
      where "bs' = junk @ encode_frame p @ fst r" "snd r = e" "frame_ok p"
      by (auto simp: less.prems)
    with that(1) show ?thesis by (intro exI [of _ "pre @ junk"]) simp
  qed
  show ?case
  proof (cases bs rule: scan_cases)
    case empty
    with less.prems show ?thesis by (simp add: ReadFrame_eqs)
  next
    case (skip b bs')
    with less.prems show ?thesis by (intro step [of "[b]" bs']) (simp_all add: ReadFrame_eqs)
  next
    case lone
    with less.prems show ?thesis by (simp add: ReadFrame_eqs)
  next
    case (half b bs')
    with less.prems show ?thesis
      by (intro step [of "[Magic0, b]" bs']) (simp_all add: ReadFrame_eqs)
  next
    case (magic bs')
    with less.prems have "read_body (bs', e) = (Inr p, r)" by (simp add: ReadFrame_eqs)
    from read_body_sound [OF this] magic show ?thesis
      by (intro exI [of _ "[]"]) simp
  qed
qed

text \<open>Every result but an I/O error leaves a strictly shorter stream.\<close>

lemma read_body_shrinks:
  assumes "read_body (bs, e) = (x, r)"
  shows "length (fst r) \<le> length bs \<and> snd r = e"
  using assms by (auto simp: read_body_cases Let_def split: list.splits if_splits)

lemma ReadFrame_shrinks:
  "ReadFrame (bs, e) = (x, r) \<Longrightarrow> bs \<noteq> [] \<Longrightarrow> length (fst r) < length bs \<and> snd r = e"
proof (induction "length bs" arbitrary: bs rule: less_induct)
  case less
  have step: "length (fst r) < length bs \<and> snd r = e"
    if "length bs' < length bs" "ReadFrame (bs', e) = (x, r)" for bs'
  proof (cases "bs' = []")
    case True
    with that show ?thesis by (auto simp: ReadFrame_eqs)
  next
    case False
    with less.hyps [OF that] that(1) show ?thesis by linarith
  qed
  show ?case
  proof (cases bs rule: scan_cases)
    case empty
    with less.prems show ?thesis by simp
  next
    case (skip b bs')
    with less.prems show ?thesis by (intro step [of bs']) (simp_all add: ReadFrame_eqs)
  next
    case lone
    with less.prems show ?thesis by (auto simp: ReadFrame_eqs)
  next
    case (half b bs')
    with less.prems show ?thesis by (intro step [of bs']) (simp_all add: ReadFrame_eqs)
  next
    case (magic bs')
    with less.prems have "read_body (bs', e) = (x, r)" by (simp add: ReadFrame_eqs)
    from read_body_shrinks [OF this] magic show ?thesis by simp
  qed
qed

lemma ReadFrame_consumes:
  "ReadFrame (bs, e) = (x, r) \<Longrightarrow> \<forall>err. x \<noteq> Inl (IOErr err) \<Longrightarrow>
     length (fst r) < length bs \<and> snd r = e"
  using ReadFrame_shrinks [of bs e x r] by (cases "bs = []") (auto simp: ReadFrame_eqs)

section \<open>writeAll and WriteFrame\<close>

lemma writeAll_None:
  "writer_ok w \<Longrightarrow> writeAll w out buf = (None, out') \<Longrightarrow> out' = out @ buf"
proof (induction w out buf rule: writeAll.induct)
  case (1 w out buf)
  show ?case
  proof (cases "buf = []")
    case True
    with "1.prems" show ?thesis by (simp add: writeAll.simps)
  next
    case False
    obtain n err where w: "w out buf = (n, err)" by (cases "w out buf")
    with False "1.prems"(2) have
      c: "err = None" "\<not> n = 0" "\<not> (n < 0 \<or> int (length buf) < n)"
         "writeAll w (out @ take (nat n) buf) (drop (nat n) buf) = (None, out')"
      by (auto simp: writeAll.simps [of w out buf] Let_def split: option.splits if_splits)
    with "1.IH" [OF False refl w [symmetric] refl c(1-3) "1.prems"(1) c(4)] show ?thesis by simp
  qed
qed

lemma writeAll_prefix:
  "\<exists>k. snd (writeAll w out buf) = out @ take k buf"
proof (induction w out buf rule: writeAll.induct)
  case (1 w out buf)
  obtain n err where w: "w out buf = (n, err)" by (cases "w out buf")
  consider (stop) "buf = [] \<or> err \<noteq> None \<or> n = 0 \<or> n < 0 \<or> int (length buf) < n"
    | (more) "buf \<noteq> []" "err = None" "\<not> n = 0" "\<not> (n < 0 \<or> int (length buf) < n)"
    by blast
  then show ?case
  proof cases
    case stop
    then show ?thesis
      by (auto simp: writeAll.simps [of w out buf] w Let_def split: option.splits
          intro: exI [of _ 0] exI [of _ "nat n"])
  next
    case more
    from "1.IH" [OF more(1) refl w [symmetric] refl more(2-4)] obtain k
      where "snd (writeAll w (out @ take (nat n) buf) (drop (nat n) buf)) =
        (out @ take (nat n) buf) @ take k (drop (nat n) buf)" by blast
    with more show ?thesis
      by (intro exI [of _ "nat n + k"]) (simp add: writeAll.simps [of w out buf] w take_add)
  qed
qed

lemma writeAll_no_panic:
  "writer_ok w \<Longrightarrow> fst (writeAll w out buf) \<noteq> Some PanicSliceBounds"
proof (induction w out buf rule: writeAll.induct)
  case (1 w out buf)
  obtain n err where w: "w out buf = (n, err)" by (cases "w out buf")
  with "1.prems" have n: "\<not> (n < 0 \<or> int (length buf) < n)"
    unfolding writer_ok_def by (metis fst_conv not_le)
  show ?case
  proof (cases "buf = [] \<or> err \<noteq> None \<or> n = 0")
    case True
    then show ?thesis
      using n by (auto simp: writeAll.simps [of w out buf] w Let_def split: option.splits)
  next
    case False
    then have c: "buf \<noteq> []" "err = None" "n \<noteq> 0" by auto
    from "1.IH" [OF c(1) refl w [symmetric] refl c(2,3) n "1.prems"] c n show ?thesis
      by (simp add: writeAll.simps [of w out buf] w)
  qed
qed

lemma WriteFrame_None:
  assumes "writer_ok w" and "WriteFrame w out p = (None, out')"
  shows "out' = out @ encode_frame p \<and> length p \<le> MaxSize"
proof -
  from assms(2) obtain out1 where
    h: "writeAll w out (frame_header p) = (None, out1)" "writeAll w out1 p = (None, out')"
    and le: "length p \<le> MaxSize"
    by (auto simp: WriteFrame_def split: if_splits prod.splits option.splits)
  from writeAll_None [OF assms(1) h(1)] writeAll_None [OF assms(1) h(2)] le
  show ?thesis by (simp add: encode_frame_def)
qed

text \<open>A writer that takes every buffer whole, as an in-memory buffer does.\<close>

definition buffer_writer :: writer where
  "buffer_writer out buf = (int (length buf), None)"

lemma writer_ok_buffer [simp]: "writer_ok buffer_writer"
  by (simp add: writer_ok_def buffer_writer_def)

lemma writeAll_buffer [simp]: "writeAll buffer_writer out buf = (None, out @ buf)"
  by (simp add: writeAll.simps buffer_writer_def)

lemma WriteFrame_buffer [simp]:
  "length p \<le> MaxSize \<Longrightarrow> WriteFrame buffer_writer out p = (None, out @ encode_frame p)"
  by (simp add: WriteFrame_def encode_frame_def)

section \<open>Streams of frames\<close>

text \<open>
  The contract between the two ends of a framed link: one decoding step undoes one
  encoding, whatever follows. Sequences of messages then survive the link.
\<close>

locale framing =
  fixes enc :: "'a \<Rightarrow> 'b list"
    and dec :: "'b list \<Rightarrow> ('e + 'a) \<times> 'b list"
    and ok :: "'a \<Rightarrow> bool"
  assumes dec_enc: "ok x \<Longrightarrow> dec (enc x @ rest) = (Inr x, rest)"
    and enc_nonempty: "enc x \<noteq> []"
begin

primrec dec_times :: "nat \<Rightarrow> 'b list \<Rightarrow> ('e + 'a) list \<times> 'b list" where
  "dec_times 0 bs = ([], bs)"
| "dec_times (Suc n) bs =
     (let (x, bs1) = dec bs; (xs, bs2) = dec_times n bs1 in (x # xs, bs2))"

lemma dec_times_enc:
  "list_all ok xs \<Longrightarrow> dec_times (length xs) (concat (map enc xs) @ rest) = (map Inr xs, rest)"
  by (induction xs) (simp_all add: dec_enc)

lemma concat_enc_inject:
  "list_all ok xs \<Longrightarrow> list_all ok ys \<Longrightarrow> concat (map enc xs) = concat (map enc ys) \<Longrightarrow> xs = ys"
proof (induction xs arbitrary: ys)
  case Nil
  then show ?case using enc_nonempty by (cases ys) auto
next
  case (Cons x xs)
  show ?case
  proof (cases ys)
    case Nil
    with Cons.prems enc_nonempty show ?thesis by simp
  next
    case (Cons y zs)
    have eq: "enc x @ concat (map enc xs) = enc y @ concat (map enc zs)"
      using Cons.prems(3) Cons by simp
    have "dec (enc x @ concat (map enc xs)) = (Inr x, concat (map enc xs))"
      by (rule dec_enc) (use Cons.prems in simp)
    moreover have "dec (enc y @ concat (map enc zs)) = (Inr y, concat (map enc zs))"
      by (rule dec_enc) (use Cons.prems Cons in simp)
    ultimately have "x = y" "concat (map enc xs) = concat (map enc zs)"
      unfolding eq by simp_all
    with Cons.IH [of zs] Cons.prems Cons show ?thesis by simp
  qed
qed

end

definition read_one :: "io_error \<Rightarrow> bytes \<Rightarrow> (frame_error + bytes) \<times> bytes" where
  "read_one e bs = (case ReadFrame (bs, e) of (x, r) \<Rightarrow> (x, fst r))"

interpretation frames: framing encode_frame "read_one e" frame_ok for e
  by unfold_locales (simp add: read_one_def ReadFrame_encode, simp add: encode_frame_def)

primrec read_times :: "nat \<Rightarrow> io_error \<Rightarrow> bytes \<Rightarrow> (frame_error + bytes) list \<times> bytes" where
  "read_times 0 e bs = ([], bs)"
| "read_times (Suc n) e bs =
     (let (x, bs1) = read_one e bs; (xs, bs2) = read_times n e bs1 in (x # xs, bs2))"

lemma read_times_frames: "read_times n e bs = frames.dec_times e n bs"
  by (induction n arbitrary: bs) (simp_all add: frames.dec_times.simps)

text \<open>A writer that takes one byte at a time, the shortest of short writes.\<close>

definition byte_writer :: writer where
  "byte_writer out buf = (if buf = [] then 0 else 1, None)"

lemma writer_ok_byte [simp]: "writer_ok byte_writer"
  by (simp add: writer_ok_def byte_writer_def Suc_le_eq)

lemma writeAll_byte [simp]: "writeAll byte_writer out buf = (None, out @ buf)"
  by (induction buf arbitrary: out) (simp_all add: writeAll.simps byte_writer_def)

section \<open>Properties\<close>

text \<open>
  C6: what \<open>WriteFrame\<close> put on the wire when it reported success, through any writer
  and any pattern of short writes, \<open>ReadFrame\<close> reads back as exactly that payload,
  leaving whatever follows unread.
\<close>

theorem frame_roundtrip:
  assumes "writer_ok w" and "frame_ok p" and "WriteFrame w out p = (None, out')"
  shows "\<exists>bs. out' = out @ bs \<and> ReadFrame (bs @ rest, e) = (Inr p, (rest, e))"
  using WriteFrame_None [OF assms(1,3)] ReadFrame_encode [OF assms(2)] by blast

theorem frame_roundtrip_witness:
  "\<exists>bs. snd (WriteFrame byte_writer [7] [0x94, 0xC3]) = [7] @ bs \<and>
     ReadFrame (bs @ [1], EOF) = (Inr [0x94, 0xC3], ([1], EOF))"
  by (rule frame_roundtrip [where w = byte_writer])
    (simp_all add: frame_ok_def MaxSize_def WriteFrame_def)

text \<open>
  A sequence of payloads framed one after the other is read back as that sequence,
  and two sequences with the same bytes on the wire are the same sequence.
\<close>

lemma frame_stream:
  assumes "list_all frame_ok ps" and "list_all frame_ok qs"
  shows "read_times (length ps) e (concat (map encode_frame ps) @ rest) = (map Inr ps, rest) \<and>
    (concat (map encode_frame ps) = concat (map encode_frame qs) \<longrightarrow> ps = qs)"
  using frames.dec_times_enc [OF assms(1)] frames.concat_enc_inject [OF assms]
  by (simp add: read_times_frames)

lemma frame_stream_witness:
  "read_times 2 EOF (concat (map encode_frame [[1, 2], [0x94]]) @ [9]) = ([Inr [1, 2], Inr [0x94]], [9])"
  using frame_stream [of "[[1, 2], [0x94]]" "[]" EOF "[9]"]
  by (simp add: frame_ok_def MaxSize_def numeral_2_eq_2)

text \<open>
  Whatever \<open>ReadFrame\<close> returns as a payload stood in the stream as a whole frame,
  after some skipped bytes: nothing is invented, the payload is not empty and fits the
  length field, and reading goes on right behind it.
\<close>

lemma frame_sound:
  assumes "ReadFrame (bs, e) = (Inr p, r)"
  shows "\<exists>junk. bs = junk @ encode_frame p @ fst r \<and> snd r = e \<and> frame_ok p"
  using assms by (rule ReadFrame_sound)

lemma frame_sound_witness:
  "\<exists>junk. [5, 0x94, 0xC3, 0, 1, 8, 9] = junk @ encode_frame [8] @ [9 :: byte] \<and> frame_ok [8]"
proof -
  have "ReadFrame ([5, 0x94, 0xC3, 0, 1, 8, 9], EOF) = (Inr [8], ([9], EOF))"
    by (simp add: ReadFrame_skip ReadFrame_magic [unfolded Magic0_def Magic1_def] Magic0_def
        read_body_cases be_uint16_def)
  from frame_sound [OF this] show ?thesis by simp
qed

text \<open>
  A single stray \<open>0x94\<close> in front of a frame costs that frame: the scanner takes the
  frame's own first magic byte for the second one and drops both. The frame behind it is
  read, provided the lost frame holds no further \<open>0x94\<close>.
\<close>

lemma stray_magic_loses_frame:
  assumes "Magic0 \<notin> set (be_put_uint16 (word_of_nat (length p)) @ p)" and "frame_ok q"
  shows "ReadFrame (Magic0 # encode_frame p @ encode_frame q @ rest, e) = (Inr q, (rest, e))"
proof -
  let ?l = "be_put_uint16 (word_of_nat (length p))"
  have "ReadFrame (Magic0 # encode_frame p @ encode_frame q @ rest, e) =
      ReadFrame ((Magic1 # ?l @ p) @ encode_frame q @ rest, e)"
    by (simp add: encode_frame_def [of p] frame_header_def ReadFrame_half_magic)
  also have "\<dots> = ReadFrame (encode_frame q @ rest, e)"
    using assms(1) by (intro ReadFrame_junk) auto
  also have "\<dots> = (Inr q, (rest, e))" using assms(2) by (rule ReadFrame_encode)
  finally show ?thesis .
qed

lemma stray_magic_witness:
  "ReadFrame (Magic0 # encode_frame [1] @ encode_frame [2] @ [], EOF) = (Inr [2], ([], EOF))"
  by (rule stray_magic_loses_frame)
    (simp_all add: frame_ok_def MaxSize_def Magic0_def be_put_uint16_def)

text \<open>
  Whatever the writer does, \<open>WriteFrame\<close> puts a prefix of the frame on the wire, the
  whole frame exactly when it reports no error, never slices out of range, and refuses a
  payload that the length field cannot hold without writing anything.
\<close>

lemma WriteFrame_prefix:
  assumes "writer_ok w"
  shows "case WriteFrame w out p of (err, out') \<Rightarrow>
    err \<noteq> Some PanicSliceBounds \<and>
    (if MaxSize < length p then err = Some (FrameTooLarge (length p)) \<and> out' = out
     else (\<exists>k. out' = out @ take k (encode_frame p)) \<and>
       (err = None \<longrightarrow> out' = out @ encode_frame p))"
proof -
  obtain e1 out1 where h: "writeAll w out (frame_header p) = (e1, out1)" by fastforce
  obtain e2 out2 where q: "writeAll w out1 p = (e2, out2)" by fastforce
  from writeAll_prefix [of w out "frame_header p"] h obtain k1
    where k1: "out1 = out @ take k1 (frame_header p)" by auto
  from writeAll_prefix [of w out1 p] q obtain k2 where k2: "out2 = out1 @ take k2 p" by auto
  have "out1 = out @ take (min k1 4) (encode_frame p)"
    by (simp add: k1 encode_frame_def min_def)
  moreover have "out2 = out @ take (4 + k2) (encode_frame p)" if "e1 = None"
    using k2 writeAll_None [OF assms, of out "frame_header p"] h that by (simp add: encode_frame_def)
  moreover have "e1 \<noteq> Some PanicSliceBounds" "e2 \<noteq> Some PanicSliceBounds"
    using writeAll_no_panic [OF assms] h q by (metis fst_conv)+
  moreover have "out' = out @ encode_frame p" if "WriteFrame w out p = (None, out')" for out'
    using WriteFrame_None [OF assms that] by simp
  ultimately show ?thesis
    using h q by (cases e1) (auto simp: WriteFrame_def split: if_splits)
qed

lemma WriteFrame_prefix_witness:
  "case WriteFrame (\<lambda>out buf. (if buf = [] then 0 else 1, if length out < 3 then None else Some EOF)) []
     [1] of (err, out') \<Rightarrow> err \<noteq> Some PanicSliceBounds \<and>
    (if MaxSize < length [1 :: byte] then err = Some (FrameTooLarge (length [1 :: byte])) \<and> out' = []
     else (\<exists>k. out' = [] @ take k (encode_frame [1])) \<and> (err = None \<longrightarrow> out' = [] @ encode_frame [1]))"
  by (rule WriteFrame_prefix) (auto simp: writer_ok_def Suc_le_eq)

end
