(* ===== verification/Channels.thy ===== *)
theory Channels
  imports Prelude
begin

text \<open>
  Buffered Go channels with the operations the bridge uses: the non-blocking send
  of a \<open>select\<close> with a \<open>default\<close> branch, the receive, and \<open>close\<close>. A send on a
  closed channel panics, in a \<open>select\<close> as well. The locale \<open>bounded_fifo\<close> states
  what every non-blocking send of the program promises its caller.
\<close>

section \<open>Channels\<close>

record 'a chan =
  chan_buf :: "'a list"
  chan_cap :: nat
  chan_closed :: bool

definition make_chan :: "nat \<Rightarrow> 'a chan" where
  "make_chan n = \<lparr>chan_buf = [], chan_cap = n, chan_closed = False\<rparr>"

datatype send_result = SendOk | SendWouldBlock | SendPanic

definition chan_try_send :: "'a \<Rightarrow> 'a chan \<Rightarrow> send_result \<times> 'a chan" where
  "chan_try_send x ch =
     (if chan_closed ch then (SendPanic, ch)
      else if length (chan_buf ch) < chan_cap ch
      then (SendOk, ch\<lparr>chan_buf := chan_buf ch @ [x]\<rparr>)
      else (SendWouldBlock, ch))"

datatype 'a recv_result = RecvValue 'a | RecvClosed | RecvBlocks

definition chan_recv :: "'a chan \<Rightarrow> 'a recv_result \<times> 'a chan" where
  "chan_recv ch =
     (case chan_buf ch of
        x # xs \<Rightarrow> (RecvValue x, ch\<lparr>chan_buf := xs\<rparr>)
      | [] \<Rightarrow> (if chan_closed ch then RecvClosed else RecvBlocks, ch))"

definition chan_close :: "'a chan \<Rightarrow> 'a chan" where
  "chan_close ch = ch\<lparr>chan_closed := True\<rparr>"

definition chan_ok :: "'a chan \<Rightarrow> bool" where
  "chan_ok ch \<longleftrightarrow> length (chan_buf ch) \<le> chan_cap ch"

lemma chan_ok_make [simp]: "chan_ok (make_chan n)"
  by (simp add: chan_ok_def make_chan_def)

lemma chan_ok_try_send: "chan_ok ch \<Longrightarrow> chan_ok (snd (chan_try_send x ch))"
  by (simp add: chan_ok_def chan_try_send_def)

lemma chan_ok_recv: "chan_ok ch \<Longrightarrow> chan_ok (snd (chan_recv ch))"
  by (auto simp: chan_ok_def chan_recv_def split: list.split)

section \<open>The contract of a non-blocking send\<close>

locale bounded_fifo =
  fixes offer :: "'a \<Rightarrow> 's \<Rightarrow> bool \<times> 's"
    and items :: "'s \<Rightarrow> 'a list"
    and capacity :: "'s \<Rightarrow> nat"
    and accepting :: "'s \<Rightarrow> bool"
  assumes offer_accepts:
      "accepting s \<Longrightarrow> length (items s) < capacity s \<Longrightarrow>
         fst (offer x s) \<and> items (snd (offer x s)) = items s @ [x]"
    and offer_rejects:
      "\<not> (accepting s \<and> length (items s) < capacity s) \<Longrightarrow> offer x s = (False, s)"
    and offer_frame:
      "capacity (snd (offer x s)) = capacity s" "accepting (snd (offer x s)) = accepting s"
begin

lemma offer_bounded: "length (items s) \<le> capacity s \<Longrightarrow>
    length (items (snd (offer x s))) \<le> capacity s"
  using offer_accepts [of s x] offer_rejects [of s x]
  by (cases "accepting s \<and> length (items s) < capacity s") auto

lemma offer_success_iff: "fst (offer x s) \<longleftrightarrow> accepting s \<and> length (items s) < capacity s"
  using offer_accepts [of s x] offer_rejects [of s x]
  by (cases "accepting s \<and> length (items s) < capacity s") auto

text \<open>Offering a burst: the queue takes a prefix of it, in order, and nothing else.\<close>

primrec offer_all :: "'a list \<Rightarrow> 's \<Rightarrow> 's" where
  "offer_all [] s = s"
| "offer_all (x # xs) s = offer_all xs (snd (offer x s))"

lemma offer_all_items:
  "accepting s \<Longrightarrow> length (items s) \<le> capacity s \<Longrightarrow>
   items (offer_all xs s) = items s @ take (capacity s - length (items s)) xs"
proof (induction xs arbitrary: s)
  case (Cons x xs)
  let ?t = "snd (offer x s)"
  have t: "accepting ?t" "capacity ?t = capacity s" "length (items ?t) \<le> capacity ?t"
    using Cons.prems offer_frame offer_bounded by simp_all
  show ?case
  proof (cases "length (items s) < capacity s")
    case True
    with Cons.prems offer_accepts have "items ?t = items s @ [x]" by blast
    moreover have "capacity s - length (items s) = Suc (capacity s - Suc (length (items s)))"
      using True by simp
    ultimately show ?thesis using Cons.IH [OF t(1,3)] t(2) by simp
  next
    case False
    then have "?t = s" using offer_rejects by simp
    then show ?thesis using Cons.IH [OF t(1,3)] False by simp
  qed
qed simp

end

definition chan_offer :: "'a \<Rightarrow> 'a chan \<Rightarrow> bool \<times> 'a chan" where
  "chan_offer x ch = (case chan_try_send x ch of (r, ch') \<Rightarrow> (r = SendOk, ch'))"

interpretation chan_fifo: bounded_fifo chan_offer chan_buf chan_cap "\<lambda>ch. \<not> chan_closed ch"
  by unfold_locales (auto simp: chan_offer_def chan_try_send_def)

end
