(* ===== verification/Client.thy ===== *)
theory Client
  imports Channels
begin

text \<open>
  The \<open>client\<close> struct of \<open>internal/broker/broker.go\<close>: its send queue, its \<open>done\<close>
  signal, its one-shot warnings and \<open>close\<close>. The queue itself is never closed; a
  client shuts down through \<open>done\<close> alone. A blocking send picks one of the
  \<open>select\<close> cases that are ready; which one is an argument, and \<open>wait_enabled\<close>
  says which may be picked.
\<close>

section \<open>State and operations\<close>

definition clientSendBuffer :: nat where "clientSendBuffer = 64"

record client =
  cl_send :: "bytes chan"
  cl_done :: bool
  cl_addr :: string
  cl_warnedReadOnly :: bool
  cl_warnedSlow :: bool
  cl_connClosed :: bool

definition newClient :: "string \<Rightarrow> client" where
  "newClient addr =
     \<lparr>cl_send = make_chan clientSendBuffer, cl_done = False, cl_addr = addr,
      cl_warnedReadOnly = False, cl_warnedSlow = False, cl_connClosed = False\<rparr>"

definition isClosed :: "client \<Rightarrow> bool" where
  "isClosed c \<longleftrightarrow> cl_done c"

definition enqueue :: "bytes \<Rightarrow> client \<Rightarrow> bool \<times> client" where
  "enqueue payload c =
     (if cl_done c then (False, c)
      else case chan_try_send payload (cl_send c) of
          (SendOk, ch) \<Rightarrow> (True, c\<lparr>cl_send := ch\<rparr>)
        | _ \<Rightarrow> (False, c))"

datatype wait_case = WaitSent | WaitClientDone | WaitBrokerDone | WaitTimeout

definition send_room :: "client \<Rightarrow> bool" where
  "send_room c \<longleftrightarrow> length (chan_buf (cl_send c)) < chan_cap (cl_send c)"

text \<open>
  The timer fires after the five seconds of \<open>clientSendTimeout\<close>, so it can only win
  when no other case became ready before.
\<close>

definition wait_enabled :: "wait_case \<Rightarrow> bool \<Rightarrow> client \<Rightarrow> bool" where
  "wait_enabled w brokerDone c \<longleftrightarrow>
     (case w of
        WaitSent \<Rightarrow> send_room c
      | WaitClientDone \<Rightarrow> cl_done c
      | WaitBrokerDone \<Rightarrow> brokerDone
      | WaitTimeout \<Rightarrow> \<not> send_room c \<and> \<not> cl_done c \<and> \<not> brokerDone)"

definition enqueueWithTimeout :: "wait_case \<Rightarrow> bytes \<Rightarrow> client \<Rightarrow> bool \<times> client" where
  "enqueueWithTimeout w payload c =
     (case w of
        WaitSent \<Rightarrow> (True, c\<lparr>cl_send := snd (chan_try_send payload (cl_send c))\<rparr>)
      | WaitClientDone \<Rightarrow> (False, c)
      | WaitBrokerDone \<Rightarrow> (False, c)
      | WaitTimeout \<Rightarrow> (False, c))"

definition markReadOnlyWarning :: "client \<Rightarrow> bool \<times> client" where
  "markReadOnlyWarning c =
     (if cl_warnedReadOnly c then (False, c) else (True, c\<lparr>cl_warnedReadOnly := True\<rparr>))"

definition markSlowWarning :: "client \<Rightarrow> bool \<times> client" where
  "markSlowWarning c =
     (if cl_warnedSlow c then (False, c) else (True, c\<lparr>cl_warnedSlow := True\<rparr>))"

text \<open>\<open>closeOnce.Do\<close>: the second call finds \<open>done\<close> closed and does nothing.\<close>

definition client_close :: "client \<Rightarrow> client" where
  "client_close c = (if cl_done c then c else c\<lparr>cl_done := True, cl_connClosed := True\<rparr>)"

section \<open>Well-formed clients\<close>

definition client_ok :: "client \<Rightarrow> bool" where
  "client_ok c \<longleftrightarrow>
     chan_ok (cl_send c) \<and> chan_cap (cl_send c) = clientSendBuffer \<and>
     \<not> chan_closed (cl_send c) \<and> (cl_connClosed c \<longleftrightarrow> cl_done c)"

lemma client_ok_new [simp]: "client_ok (newClient addr)"
  by (simp add: client_ok_def newClient_def make_chan_def chan_ok_def)

lemma client_ok_enqueue [simp]: "client_ok c \<Longrightarrow> client_ok (snd (enqueue p c))"
  by (auto simp: client_ok_def enqueue_def chan_try_send_def chan_ok_def
      split: prod.split send_result.split)

lemma client_ok_enqueueWithTimeout [simp]:
  "client_ok c \<Longrightarrow> client_ok (snd (enqueueWithTimeout w p c))"
  by (auto simp: client_ok_def enqueueWithTimeout_def chan_try_send_def chan_ok_def
      split: wait_case.split)

lemma client_ok_markReadOnly [simp]: "client_ok c \<Longrightarrow> client_ok (snd (markReadOnlyWarning c))"
  by (simp add: client_ok_def markReadOnlyWarning_def)

lemma client_ok_markSlow [simp]: "client_ok c \<Longrightarrow> client_ok (snd (markSlowWarning c))"
  by (simp add: client_ok_def markSlowWarning_def)

lemma client_ok_close [simp]: "client_ok c \<Longrightarrow> client_ok (client_close c)"
  by (auto simp: client_ok_def client_close_def)

lemma client_close_done [simp]: "cl_done (client_close c)"
  by (simp add: client_close_def)

lemma client_close_idem [simp]: "client_close (client_close c) = client_close c"
  by (simp add: client_close_def)

lemma client_done_ops [simp]:
  "cl_done (snd (enqueue p c)) = cl_done c"
  "cl_done (snd (enqueueWithTimeout w p c)) = cl_done c"
  "cl_done (snd (markReadOnlyWarning c)) = cl_done c"
  "cl_done (snd (markSlowWarning c)) = cl_done c"
  by (auto simp: enqueue_def enqueueWithTimeout_def markReadOnlyWarning_def markSlowWarning_def
      split: prod.split send_result.split wait_case.split)

lemma client_addr_ops [simp]:
  "cl_addr (snd (enqueue p c)) = cl_addr c"
  "cl_addr (snd (enqueueWithTimeout w p c)) = cl_addr c"
  "cl_addr (snd (markReadOnlyWarning c)) = cl_addr c"
  "cl_addr (snd (markSlowWarning c)) = cl_addr c"
  "cl_addr (client_close c) = cl_addr c"
  by (auto simp: enqueue_def enqueueWithTimeout_def markReadOnlyWarning_def markSlowWarning_def
      client_close_def split: prod.split send_result.split wait_case.split)

text \<open>The queue of a live client, as its readers see it.\<close>

abbreviation client_queue :: "client \<Rightarrow> bytes list" where
  "client_queue c \<equiv> chan_buf (cl_send c)"

lemma enqueue_queue:
  "client_queue (snd (enqueue p c)) =
     (if fst (enqueue p c) then client_queue c @ [p] else client_queue c)"
  by (simp add: enqueue_def chan_try_send_def split: prod.split send_result.split)

lemma enqueue_fst:
  "client_ok c \<Longrightarrow> fst (enqueue p c) \<longleftrightarrow> \<not> cl_done c \<and> send_room c"
  by (simp add: enqueue_def chan_try_send_def send_room_def client_ok_def)

lemma enqueue_failed [simp]: "\<not> fst (enqueue p c) \<Longrightarrow> snd (enqueue p c) = c"
  by (auto simp: enqueue_def split: prod.split send_result.split)

interpretation client_fifo: bounded_fifo
  "\<lambda>p c. enqueue p c" client_queue "\<lambda>c. chan_cap (cl_send c)"
  "\<lambda>c. \<not> cl_done c \<and> \<not> chan_closed (cl_send c)"
  by unfold_locales (auto simp: enqueue_def chan_try_send_def)

interpretation read_only_warning: one_shot markReadOnlyWarning cl_warnedReadOnly
  by unfold_locales (simp_all add: markReadOnlyWarning_def)

interpretation slow_warning: one_shot markSlowWarning cl_warnedSlow
  by unfold_locales (simp_all add: markSlowWarning_def)

text \<open>
  A blocking send that is enabled as \<open>WaitSent\<close> delivers; any other outcome leaves
  the client as it was.
\<close>

lemma enqueueWithTimeout_sent:
  assumes "client_ok c" and "wait_enabled WaitSent d c"
  shows "fst (enqueueWithTimeout WaitSent p c)"
    "client_queue (snd (enqueueWithTimeout WaitSent p c)) = client_queue c @ [p]"
  using assms by (simp_all add: enqueueWithTimeout_def chan_try_send_def wait_enabled_def
      send_room_def client_ok_def)

lemma enqueueWithTimeout_unsent:
  "w \<noteq> WaitSent \<Longrightarrow> enqueueWithTimeout w p c = (False, c)"
  by (cases w) (simp_all add: enqueueWithTimeout_def)

end
