(* ===== verification/Proto.thy ===== *)
theory Proto
  imports Prelude
begin

text \<open>
  The protobuf messages of \<open>internal/meshtastic\<close> that the bridge reads or builds:
  structs as records, oneof interfaces as datatypes with the source's wrapper types
  as constructors, a pointer that may be \<open>nil\<close> as an option. Fields of
  sub-messages that no code of the bridge ever reads are kept together as
  \<open>opaque\<close> bytes. The getters are those of the generated code: they accept a
  \<open>nil\<close> receiver and give the zero value. Marshalling is the third-party protobuf
  library, hence a parameter of the model (record \<open>codec\<close>).
\<close>

type_synonym opaque = bytes
text \<open>An IEEE 754 single as its bit pattern; only the test against zero is used.\<close>
type_synonym f32 = "32 word"

definition f32_nonzero :: "f32 \<Rightarrow> bool" where
  "f32_nonzero x \<longleftrightarrow> x \<noteq> 0 \<and> x \<noteq> 0x80000000"

section \<open>Port numbers\<close>

text \<open>A proto3 enum is open: any \<open>int32\<close> may arrive.\<close>

type_synonym PortNum = i32

abbreviation (input) PortNum_UNKNOWN_APP :: PortNum where "PortNum_UNKNOWN_APP \<equiv> 0"
abbreviation (input) PortNum_TEXT_MESSAGE_APP :: PortNum where "PortNum_TEXT_MESSAGE_APP \<equiv> 1"
abbreviation (input) PortNum_POSITION_APP :: PortNum where "PortNum_POSITION_APP \<equiv> 3"
abbreviation (input) PortNum_NODEINFO_APP :: PortNum where "PortNum_NODEINFO_APP \<equiv> 4"
abbreviation (input) PortNum_ROUTING_APP :: PortNum where "PortNum_ROUTING_APP \<equiv> 5"
abbreviation (input) PortNum_ADMIN_APP :: PortNum where "PortNum_ADMIN_APP \<equiv> 6"
abbreviation (input) PortNum_TEXT_MESSAGE_COMPRESSED_APP :: PortNum where
  "PortNum_TEXT_MESSAGE_COMPRESSED_APP \<equiv> 7"
abbreviation (input) PortNum_WAYPOINT_APP :: PortNum where "PortNum_WAYPOINT_APP \<equiv> 8"
abbreviation (input) PortNum_DETECTION_SENSOR_APP :: PortNum where "PortNum_DETECTION_SENSOR_APP \<equiv> 10"
abbreviation (input) PortNum_ALERT_APP :: PortNum where "PortNum_ALERT_APP \<equiv> 11"
abbreviation (input) PortNum_KEY_VERIFICATION_APP :: PortNum where "PortNum_KEY_VERIFICATION_APP \<equiv> 12"
abbreviation (input) PortNum_REPLY_APP :: PortNum where "PortNum_REPLY_APP \<equiv> 32"
abbreviation (input) PortNum_PAXCOUNTER_APP :: PortNum where "PortNum_PAXCOUNTER_APP \<equiv> 34"
abbreviation (input) PortNum_NODE_STATUS_APP :: PortNum where "PortNum_NODE_STATUS_APP \<equiv> 36"
abbreviation (input) PortNum_STORE_FORWARD_APP :: PortNum where "PortNum_STORE_FORWARD_APP \<equiv> 65"
abbreviation (input) PortNum_RANGE_TEST_APP :: PortNum where "PortNum_RANGE_TEST_APP \<equiv> 66"
abbreviation (input) PortNum_TELEMETRY_APP :: PortNum where "PortNum_TELEMETRY_APP \<equiv> 67"
abbreviation (input) PortNum_TRACEROUTE_APP :: PortNum where "PortNum_TRACEROUTE_APP \<equiv> 70"
abbreviation (input) PortNum_NEIGHBORINFO_APP :: PortNum where "PortNum_NEIGHBORINFO_APP \<equiv> 71"
abbreviation (input) PortNum_MAP_REPORT_APP :: PortNum where "PortNum_MAP_REPORT_APP \<equiv> 73"
abbreviation (input) PortNum_POWERSTRESS_APP :: PortNum where "PortNum_POWERSTRESS_APP \<equiv> 74"

section \<open>Data and MeshPacket\<close>

record Data =
  Data_Portnum :: PortNum
  Data_Payload :: bytes
  Data_WantResponse :: bool
  Data_Dest :: u32
  Data_Source :: u32
  Data_RequestId :: u32
  Data_ReplyId :: u32
  Data_Emoji :: u32
  Data_Bitfield :: "u32 option"
  Data_unknownFields :: opaque

definition zero_Data :: Data where
  "zero_Data = \<lparr>Data_Portnum = 0, Data_Payload = [], Data_WantResponse = False, Data_Dest = 0,
     Data_Source = 0, Data_RequestId = 0, Data_ReplyId = 0, Data_Emoji = 0,
     Data_Bitfield = None, Data_unknownFields = []\<rparr>"

definition Data_GetPortnum :: "Data option \<Rightarrow> PortNum" where
  "Data_GetPortnum x = (case x of Some d \<Rightarrow> Data_Portnum d | None \<Rightarrow> PortNum_UNKNOWN_APP)"

definition Data_GetPayload :: "Data option \<Rightarrow> bytes" where
  "Data_GetPayload x = (case x of Some d \<Rightarrow> Data_Payload d | None \<Rightarrow> [])"

datatype MeshPacket_PayloadVariant =
    MeshPacket_Decoded "Data option"
  | MeshPacket_Encrypted bytes

record MeshPacket =
  MeshPacket_From :: u32
  MeshPacket_To :: u32
  MeshPacket_Channel :: u32
  MeshPacket_Variant :: "MeshPacket_PayloadVariant option"
  MeshPacket_Id :: u32
  MeshPacket_RxTime :: u32
  MeshPacket_RxSnr :: f32
  MeshPacket_HopLimit :: u32
  MeshPacket_WantAck :: bool
  MeshPacket_Priority :: i32
  MeshPacket_RxRssi :: i32
  MeshPacket_Delayed :: i32
  MeshPacket_ViaMqtt :: bool
  MeshPacket_HopStart :: u32
  MeshPacket_PublicKey :: bytes
  MeshPacket_PkiEncrypted :: bool
  MeshPacket_NextHop :: u32
  MeshPacket_RelayNode :: u32
  MeshPacket_TxAfter :: u32
  MeshPacket_TransportMechanism :: i32
  MeshPacket_unknownFields :: opaque

definition zero_MeshPacket :: MeshPacket where
  "zero_MeshPacket = \<lparr>MeshPacket_From = 0, MeshPacket_To = 0, MeshPacket_Channel = 0,
     MeshPacket_Variant = None, MeshPacket_Id = 0, MeshPacket_RxTime = 0, MeshPacket_RxSnr = 0,
     MeshPacket_HopLimit = 0, MeshPacket_WantAck = False, MeshPacket_Priority = 0,
     MeshPacket_RxRssi = 0, MeshPacket_Delayed = 0, MeshPacket_ViaMqtt = False,
     MeshPacket_HopStart = 0, MeshPacket_PublicKey = [], MeshPacket_PkiEncrypted = False,
     MeshPacket_NextHop = 0, MeshPacket_RelayNode = 0, MeshPacket_TxAfter = 0,
     MeshPacket_TransportMechanism = 0, MeshPacket_unknownFields = []\<rparr>"

definition MeshPacket_GetFrom :: "MeshPacket option \<Rightarrow> u32" where
  "MeshPacket_GetFrom x = (case x of Some p \<Rightarrow> MeshPacket_From p | None \<Rightarrow> 0)"

definition MeshPacket_GetTo :: "MeshPacket option \<Rightarrow> u32" where
  "MeshPacket_GetTo x = (case x of Some p \<Rightarrow> MeshPacket_To p | None \<Rightarrow> 0)"

definition MeshPacket_GetChannel :: "MeshPacket option \<Rightarrow> u32" where
  "MeshPacket_GetChannel x = (case x of Some p \<Rightarrow> MeshPacket_Channel p | None \<Rightarrow> 0)"

definition MeshPacket_GetDecoded :: "MeshPacket option \<Rightarrow> Data option" where
  "MeshPacket_GetDecoded x =
     (case x of
        Some p \<Rightarrow> (case MeshPacket_Variant p of Some (MeshPacket_Decoded d) \<Rightarrow> d | _ \<Rightarrow> None)
      | None \<Rightarrow> None)"

definition MeshPacket_GetId :: "MeshPacket option \<Rightarrow> u32" where
  "MeshPacket_GetId x = (case x of Some p \<Rightarrow> MeshPacket_Id p | None \<Rightarrow> 0)"

definition MeshPacket_GetRxSnr :: "MeshPacket option \<Rightarrow> f32" where
  "MeshPacket_GetRxSnr x = (case x of Some p \<Rightarrow> MeshPacket_RxSnr p | None \<Rightarrow> 0)"

section \<open>Node information\<close>

record MyNodeInfo =
  MyNodeInfo_MyNodeNum :: u32
  MyNodeInfo_rest :: opaque

definition MyNodeInfo_GetMyNodeNum :: "MyNodeInfo option \<Rightarrow> u32" where
  "MyNodeInfo_GetMyNodeNum x = (case x of Some m \<Rightarrow> MyNodeInfo_MyNodeNum m | None \<Rightarrow> 0)"

record User =
  User_Id :: string
  User_LongName :: string
  User_ShortName :: string
  User_HwModel :: i32
  User_Role :: i32
  User_rest :: opaque

record Position =
  Position_LatitudeI :: "i32 option"
  Position_LongitudeI :: "i32 option"
  Position_Altitude :: "i32 option"
  Position_rest :: opaque

record DeviceMetrics =
  DeviceMetrics_BatteryLevel :: "u32 option"
  DeviceMetrics_rest :: opaque

record NodeInfo =
  NodeInfo_Num :: u32
  NodeInfo_User :: "User option"
  NodeInfo_Position :: "Position option"
  NodeInfo_Snr :: f32
  NodeInfo_LastHeard :: u32
  NodeInfo_DeviceMetrics :: "DeviceMetrics option"
  NodeInfo_ViaMqtt :: bool
  NodeInfo_HopsAway :: "u32 option"
  NodeInfo_IsFavorite :: bool
  NodeInfo_IsIgnored :: bool
  NodeInfo_rest :: opaque

section \<open>Channels and configuration\<close>

record ChannelSettings =
  ChannelSettings_Name :: string
  ChannelSettings_rest :: opaque

record Channel =
  Channel_Index :: i32
  Channel_Settings :: "ChannelSettings option"
  Channel_Role :: i32
  Channel_unknownFields :: opaque

datatype Config_PayloadVariant =
    Config_Device opaque | Config_Position opaque | Config_Power opaque | Config_Network opaque
  | Config_Display opaque | Config_Lora opaque | Config_Bluetooth opaque | Config_Security opaque
  | Config_Sessionkey opaque | Config_DeviceUi opaque

type_synonym Config = "Config_PayloadVariant option"

datatype ModuleConfig_PayloadVariant =
    ModuleConfig_Mqtt opaque | ModuleConfig_Serial opaque
  | ModuleConfig_ExternalNotification opaque | ModuleConfig_StoreForward opaque
  | ModuleConfig_RangeTest opaque | ModuleConfig_Telemetry opaque
  | ModuleConfig_CannedMessage opaque | ModuleConfig_Audio opaque
  | ModuleConfig_RemoteHardware opaque | ModuleConfig_NeighborInfo opaque
  | ModuleConfig_AmbientLighting opaque | ModuleConfig_DetectionSensor opaque
  | ModuleConfig_Paxcounter opaque | ModuleConfig_Statusmessage opaque
  | ModuleConfig_TrafficManagement opaque | ModuleConfig_Tak opaque

type_synonym ModuleConfig = "ModuleConfig_PayloadVariant option"

text \<open>
  \<open>fmt.Sprintf("%T", v.Config.GetPayloadVariant())\<close>: the dynamic type of the
  oneof wrapper, in the Go package \<open>generated\<close>; \<open><nil>\<close> for an empty oneof.
\<close>

fun Config_type_name :: "Config \<Rightarrow> string" where
  "Config_type_name None = ''<nil>''"
| "Config_type_name (Some (Config_Device _)) = ''*generated.Config_Device''"
| "Config_type_name (Some (Config_Position _)) = ''*generated.Config_Position''"
| "Config_type_name (Some (Config_Power _)) = ''*generated.Config_Power''"
| "Config_type_name (Some (Config_Network _)) = ''*generated.Config_Network''"
| "Config_type_name (Some (Config_Display _)) = ''*generated.Config_Display''"
| "Config_type_name (Some (Config_Lora _)) = ''*generated.Config_Lora''"
| "Config_type_name (Some (Config_Bluetooth _)) = ''*generated.Config_Bluetooth''"
| "Config_type_name (Some (Config_Security _)) = ''*generated.Config_Security''"
| "Config_type_name (Some (Config_Sessionkey _)) = ''*generated.Config_Sessionkey''"
| "Config_type_name (Some (Config_DeviceUi _)) = ''*generated.Config_DeviceUi''"

fun ModuleConfig_type_name :: "ModuleConfig \<Rightarrow> string" where
  "ModuleConfig_type_name None = ''<nil>''"
| "ModuleConfig_type_name (Some (ModuleConfig_Mqtt _)) = ''*generated.ModuleConfig_Mqtt''"
| "ModuleConfig_type_name (Some (ModuleConfig_Serial _)) = ''*generated.ModuleConfig_Serial''"
| "ModuleConfig_type_name (Some (ModuleConfig_ExternalNotification _)) =
     ''*generated.ModuleConfig_ExternalNotification''"
| "ModuleConfig_type_name (Some (ModuleConfig_StoreForward _)) =
     ''*generated.ModuleConfig_StoreForward''"
| "ModuleConfig_type_name (Some (ModuleConfig_RangeTest _)) =
     ''*generated.ModuleConfig_RangeTest''"
| "ModuleConfig_type_name (Some (ModuleConfig_Telemetry _)) =
     ''*generated.ModuleConfig_Telemetry''"
| "ModuleConfig_type_name (Some (ModuleConfig_CannedMessage _)) =
     ''*generated.ModuleConfig_CannedMessage''"
| "ModuleConfig_type_name (Some (ModuleConfig_Audio _)) = ''*generated.ModuleConfig_Audio''"
| "ModuleConfig_type_name (Some (ModuleConfig_RemoteHardware _)) =
     ''*generated.ModuleConfig_RemoteHardware''"
| "ModuleConfig_type_name (Some (ModuleConfig_NeighborInfo _)) =
     ''*generated.ModuleConfig_NeighborInfo''"
| "ModuleConfig_type_name (Some (ModuleConfig_AmbientLighting _)) =
     ''*generated.ModuleConfig_AmbientLighting''"
| "ModuleConfig_type_name (Some (ModuleConfig_DetectionSensor _)) =
     ''*generated.ModuleConfig_DetectionSensor''"
| "ModuleConfig_type_name (Some (ModuleConfig_Paxcounter _)) =
     ''*generated.ModuleConfig_Paxcounter''"
| "ModuleConfig_type_name (Some (ModuleConfig_Statusmessage _)) =
     ''*generated.ModuleConfig_Statusmessage''"
| "ModuleConfig_type_name (Some (ModuleConfig_TrafficManagement _)) =
     ''*generated.ModuleConfig_TrafficManagement''"
| "ModuleConfig_type_name (Some (ModuleConfig_Tak _)) = ''*generated.ModuleConfig_Tak''"

section \<open>The two frame types\<close>

datatype FromRadio_PayloadVariant =
    FromRadio_Packet "MeshPacket option"
  | FromRadio_MyInfo "MyNodeInfo option"
  | FromRadio_NodeInfo "NodeInfo option"
  | FromRadio_Config "Config option"
  | FromRadio_LogRecord opaque
  | FromRadio_ConfigCompleteId u32
  | FromRadio_Rebooted bool
  | FromRadio_ModuleConfig "ModuleConfig option"
  | FromRadio_Channel "Channel option"
  | FromRadio_QueueStatus opaque
  | FromRadio_XmodemPacket opaque
  | FromRadio_Metadata opaque
  | FromRadio_MqttClientProxyMessage opaque
  | FromRadio_FileInfo opaque
  | FromRadio_ClientNotification opaque
  | FromRadio_DeviceuiConfig opaque
  | FromRadio_LockdownStatus opaque

record FromRadio =
  FromRadio_Id :: u32
  FromRadio_Variant :: "FromRadio_PayloadVariant option"
  FromRadio_unknownFields :: opaque

text \<open>The composite literal \<open>&FromRadio{PayloadVariant: v}\<close>.\<close>

definition mk_FromRadio :: "FromRadio_PayloadVariant \<Rightarrow> FromRadio" where
  "mk_FromRadio v = \<lparr>FromRadio_Id = 0, FromRadio_Variant = Some v, FromRadio_unknownFields = []\<rparr>"

definition FromRadio_GetPacket :: "FromRadio \<Rightarrow> MeshPacket option" where
  "FromRadio_GetPacket x =
     (case FromRadio_Variant x of Some (FromRadio_Packet p) \<Rightarrow> p | _ \<Rightarrow> None)"

definition FromRadio_GetMyInfo :: "FromRadio \<Rightarrow> MyNodeInfo option" where
  "FromRadio_GetMyInfo x =
     (case FromRadio_Variant x of Some (FromRadio_MyInfo m) \<Rightarrow> m | _ \<Rightarrow> None)"

datatype ToRadio_PayloadVariant =
    ToRadio_Packet "MeshPacket option"
  | ToRadio_WantConfigId u32
  | ToRadio_Disconnect bool
  | ToRadio_XmodemPacket opaque
  | ToRadio_MqttClientProxyMessage opaque
  | ToRadio_Heartbeat opaque

record ToRadio =
  ToRadio_Variant :: "ToRadio_PayloadVariant option"
  ToRadio_unknownFields :: opaque

definition mk_ToRadio :: "ToRadio_PayloadVariant \<Rightarrow> ToRadio" where
  "mk_ToRadio v = \<lparr>ToRadio_Variant = Some v, ToRadio_unknownFields = []\<rparr>"

definition ToRadio_GetPacket :: "ToRadio \<Rightarrow> MeshPacket option" where
  "ToRadio_GetPacket x =
     (case ToRadio_Variant x of Some (ToRadio_Packet p) \<Rightarrow> p | _ \<Rightarrow> None)"

section \<open>Admin messages\<close>

datatype AdminMessage_PayloadVariant =
    AdminMessage_GetCannedMessageModuleMessagesRequest bool
  | AdminMessage_GetCannedMessageModuleMessagesResponse string
  | AdminMessage_Other opaque

type_synonym AdminMessage = "AdminMessage_PayloadVariant option"

section \<open>The protobuf library\<close>

text \<open>
  \<open>proto.Unmarshal\<close> and \<open>proto.Marshal\<close> for each message type: \<^const>\<open>None\<close> is an
  error. What the bridge relies on, and only where a theorem says so, is that
  unmarshalling what was marshalled gives the message back.
\<close>

record codec =
  unmarshal_FromRadio :: "bytes \<Rightarrow> FromRadio option"
  unmarshal_ToRadio :: "bytes \<Rightarrow> ToRadio option"
  unmarshal_AdminMessage :: "bytes \<Rightarrow> AdminMessage option"
  marshal_FromRadio :: "FromRadio \<Rightarrow> bytes option"
  marshal_ToRadio :: "ToRadio \<Rightarrow> bytes option"
  marshal_AdminMessage :: "AdminMessage \<Rightarrow> bytes option"

lemmas getter_defs =
  Data_GetPortnum_def Data_GetPayload_def MeshPacket_GetFrom_def MeshPacket_GetTo_def
  MeshPacket_GetChannel_def MeshPacket_GetDecoded_def MeshPacket_GetId_def
  MeshPacket_GetRxSnr_def MyNodeInfo_GetMyNodeNum_def FromRadio_GetPacket_def
  FromRadio_GetMyInfo_def ToRadio_GetPacket_def

end
