(* ===== verification/ConfigCache.thy ===== *)
theory ConfigCache
  imports Proto "HOL-Library.Product_Lexorder"
begin

text \<open>
  The broker's cache of the radio's configuration dump (\<open>configCache\<close> of
  \<open>internal/broker/broker.go\<close> and \<open>localNodeNum\<close> of \<open>chat.go\<close>): its state, its
  operations, and its abstraction to one finite map from cache keys to the last
  frame stored under each. The mutex of the source makes every operation atomic.
\<close>

section \<open>State and operations\<close>

record configCache =
  cc_myInfo :: slice
  cc_nodeInfo :: "(u32, slice) gomap"
  cc_config :: "(string, slice) gomap"
  cc_moduleConfig :: "(string, slice) gomap"
  cc_channels :: "(i32, slice) gomap"
  cc_metadata :: slice
  cc_deviceUI :: slice

definition newConfigCache :: configCache where
  "newConfigCache = \<lparr>cc_myInfo = None, cc_nodeInfo = [], cc_config = [], cc_moduleConfig = [],
     cc_channels = [], cc_metadata = None, cc_deviceUI = None\<rparr>"

definition cache_update :: "FromRadio \<Rightarrow> bytes \<Rightarrow> configCache \<Rightarrow> configCache" where
  "cache_update frame payload c =
     (let clone = slice_clone payload in
      case FromRadio_Variant frame of
        Some (FromRadio_MyInfo _) \<Rightarrow> c\<lparr>cc_myInfo := clone\<rparr>
      | Some (FromRadio_NodeInfo (Some ni)) \<Rightarrow>
          c\<lparr>cc_nodeInfo := AList.update (NodeInfo_Num ni) clone (cc_nodeInfo c)\<rparr>
      | Some (FromRadio_Config (Some cfg)) \<Rightarrow>
          c\<lparr>cc_config := AList.update (Config_type_name cfg) clone (cc_config c)\<rparr>
      | Some (FromRadio_ModuleConfig (Some cfg)) \<Rightarrow>
          c\<lparr>cc_moduleConfig :=
              AList.update (ModuleConfig_type_name cfg) clone (cc_moduleConfig c)\<rparr>
      | Some (FromRadio_Channel (Some ch)) \<Rightarrow>
          c\<lparr>cc_channels := AList.update (Channel_Index ch) clone (cc_channels c)\<rparr>
      | Some (FromRadio_Metadata _) \<Rightarrow> c\<lparr>cc_metadata := clone\<rparr>
      | Some (FromRadio_DeviceuiConfig _) \<Rightarrow> c\<lparr>cc_deviceUI := clone\<rparr>
      | _ \<Rightarrow> c)"

record cacheSnapshot =
  snap_myInfo :: slice
  snap_configs :: "slice list"
  snap_moduleConfig :: "slice list"
  snap_channels :: "slice list"
  snap_nodeInfo :: "slice list"
  snap_metadata :: slice
  snap_deviceUI :: slice

text \<open>\<open>append([]byte(nil), m[key]...)\<close>; a missing key reads as \<open>nil\<close>.\<close>

definition entry_copy :: "('k, slice) gomap \<Rightarrow> 'k \<Rightarrow> slice" where
  "entry_copy m k = slice_clone (case map_of m k of Some s \<Rightarrow> slice_bytes s | None \<Rightarrow> [])"

definition cache_snapshot :: "configCache \<Rightarrow> cacheSnapshot" where
  "cache_snapshot c =
     \<lparr>snap_myInfo = slice_clone (slice_bytes (cc_myInfo c)),
      snap_configs = map (entry_copy (cc_config c)) (sorted_keys id (cc_config c)),
      snap_moduleConfig = map (entry_copy (cc_moduleConfig c)) (sorted_keys id (cc_moduleConfig c)),
      snap_channels = map (entry_copy (cc_channels c)) (sorted_keys sint (cc_channels c)),
      snap_nodeInfo = map (entry_copy (cc_nodeInfo c)) (sorted_keys uint (cc_nodeInfo c)),
      snap_metadata = slice_clone (slice_bytes (cc_metadata c)),
      snap_deviceUI = slice_clone (slice_bytes (cc_deviceUI c))\<rparr>"

definition cache_empty :: "configCache \<Rightarrow> bool" where
  "cache_empty c \<longleftrightarrow>
     cc_myInfo c = None \<and> length (cc_nodeInfo c) = 0 \<and> length (cc_config c) = 0 \<and>
     length (cc_moduleConfig c) = 0 \<and> length (cc_channels c) = 0 \<and>
     cc_metadata c = None \<and> cc_deviceUI c = None"

definition cache_ready :: "configCache \<Rightarrow> bool" where
  "cache_ready c \<longleftrightarrow> cc_myInfo c \<noteq> None"

definition cache_reset :: "configCache \<Rightarrow> configCache" where
  "cache_reset c = c\<lparr>cc_myInfo := None, cc_nodeInfo := [], cc_config := [],
     cc_moduleConfig := [], cc_channels := [], cc_metadata := None, cc_deviceUI := None\<rparr>"

definition localNodeNum :: "codec \<Rightarrow> configCache \<Rightarrow> u32 \<times> bool" where
  "localNodeNum cd c =
     (if length (slice_bytes (cc_myInfo c)) = 0 then (0, False)
      else case unmarshal_FromRadio cd (slice_bytes (cc_myInfo c)) of
          None \<Rightarrow> (0, False)
        | Some frame \<Rightarrow>
            let num = MyNodeInfo_GetMyNodeNum (FromRadio_GetMyInfo frame) in (num, num \<noteq> 0))"

lemma cache_reset_new: "cache_reset c = newConfigCache"
  by (simp add: cache_reset_def newConfigCache_def)

lemma cache_empty_new [simp]: "cache_empty newConfigCache"
  by (simp add: cache_empty_def newConfigCache_def)

lemma not_ready_new [simp]: "\<not> cache_ready newConfigCache"
  by (simp add: cache_ready_def newConfigCache_def)

section \<open>Cache keys and their order\<close>

text \<open>
  What a frame is filed under. The order of keys is the order in which
  \<open>sendCachedConfig\<close> replays the cache: MyInfo, configs and module configs by type
  name, channels by signed index, nodes by unsigned number, metadata, device UI.
\<close>

datatype cache_key =
    KMyInfo | KConfig string | KModule string | KChannel i32 | KNode u32 | KMetadata | KDeviceUI

fun key_rank :: "cache_key \<Rightarrow> nat \<times> string \<times> int" where
  "key_rank KMyInfo = (0, '''', 0)"
| "key_rank (KConfig s) = (1, s, 0)"
| "key_rank (KModule s) = (2, s, 0)"
| "key_rank (KChannel i) = (3, '''', sint i)"
| "key_rank (KNode n) = (4, '''', uint n)"
| "key_rank KMetadata = (5, '''', 0)"
| "key_rank KDeviceUI = (6, '''', 0)"

lemma sint_inject: "sint (a :: 'a::len word) = sint b \<longleftrightarrow> a = b"
  by (metis signed_word_eqI)

lemma uint_inject: "uint (a :: 'a::len word) = uint b \<longleftrightarrow> a = b"
  by (simp add: word_uint_eq_iff)

lemma key_rank_inject [simp]: "key_rank a = key_rank b \<longleftrightarrow> a = b"
  by (cases a; cases b) (auto simp: sint_inject uint_inject)

instantiation cache_key :: linorder
begin

definition less_eq_cache_key :: "cache_key \<Rightarrow> cache_key \<Rightarrow> bool" where
  "less_eq_cache_key a b \<longleftrightarrow> key_rank a \<le> key_rank b"

definition less_cache_key :: "cache_key \<Rightarrow> cache_key \<Rightarrow> bool" where
  "less_cache_key a b \<longleftrightarrow> key_rank a < key_rank b"

instance
proof
  fix a b c :: cache_key
  show "a < b \<longleftrightarrow> a \<le> b \<and> \<not> b \<le> a"
    by (simp only: less_eq_cache_key_def less_cache_key_def less_le_not_le)
  show "a \<le> a" by (simp add: less_eq_cache_key_def)
  show "a \<le> b \<Longrightarrow> b \<le> c \<Longrightarrow> a \<le> c"
    unfolding less_eq_cache_key_def by (rule order_trans)
  show "a \<le> b \<Longrightarrow> b \<le> a \<Longrightarrow> a = b"
    unfolding less_eq_cache_key_def
    by (drule (1) antisym) (simp only: key_rank_inject)
  show "a \<le> b \<or> b \<le> a" unfolding less_eq_cache_key_def by (rule linear)
qed

end

definition frame_key :: "FromRadio \<Rightarrow> cache_key option" where
  "frame_key frame =
     (case FromRadio_Variant frame of
        Some (FromRadio_MyInfo _) \<Rightarrow> Some KMyInfo
      | Some (FromRadio_NodeInfo (Some ni)) \<Rightarrow> Some (KNode (NodeInfo_Num ni))
      | Some (FromRadio_Config (Some cfg)) \<Rightarrow> Some (KConfig (Config_type_name cfg))
      | Some (FromRadio_ModuleConfig (Some cfg)) \<Rightarrow> Some (KModule (ModuleConfig_type_name cfg))
      | Some (FromRadio_Channel (Some ch)) \<Rightarrow> Some (KChannel (Channel_Index ch))
      | Some (FromRadio_Metadata _) \<Rightarrow> Some KMetadata
      | Some (FromRadio_DeviceuiConfig _) \<Rightarrow> Some KDeviceUI
      | _ \<Rightarrow> None)"

section \<open>The abstract cache: one map from keys to payloads\<close>

definition slice_lookup :: "('k, slice) gomap \<Rightarrow> 'k \<Rightarrow> bytes option" where
  "slice_lookup m k = (case map_of m k of Some s \<Rightarrow> s | None \<Rightarrow> None)"

fun cache_lookup :: "configCache \<Rightarrow> cache_key \<Rightarrow> bytes option" where
  "cache_lookup c KMyInfo = cc_myInfo c"
| "cache_lookup c (KConfig s) = slice_lookup (cc_config c) s"
| "cache_lookup c (KModule s) = slice_lookup (cc_moduleConfig c) s"
| "cache_lookup c (KChannel i) = slice_lookup (cc_channels c) i"
| "cache_lookup c (KNode n) = slice_lookup (cc_nodeInfo c) n"
| "cache_lookup c KMetadata = cc_metadata c"
| "cache_lookup c KDeviceUI = cc_deviceUI c"

text \<open>The well-formedness invariant: every slice kept is non-empty, keys are distinct.\<close>

definition slices_ok :: "('k, slice) gomap \<Rightarrow> bool" where
  "slices_ok m \<longleftrightarrow> gomap_ok m \<and> list_all (\<lambda>(k, s). s \<noteq> None \<and> s \<noteq> Some []) m"

definition cache_ok :: "configCache \<Rightarrow> bool" where
  "cache_ok c \<longleftrightarrow>
     cc_myInfo c \<noteq> Some [] \<and> cc_metadata c \<noteq> Some [] \<and> cc_deviceUI c \<noteq> Some [] \<and>
     slices_ok (cc_nodeInfo c) \<and> slices_ok (cc_config c) \<and>
     slices_ok (cc_moduleConfig c) \<and> slices_ok (cc_channels c)"

lemma slices_ok_Nil [simp]: "slices_ok []"
  by (simp add: slices_ok_def)

lemma set_update_subset: "set (AList.update k v m) \<subseteq> insert (k, v) (set m)"
  by (induction m) auto

lemma slices_ok_update [simp]:
  assumes "slices_ok m" and "p \<noteq> []"
  shows "slices_ok (AList.update k (Some p) m)"
  using assms set_update_subset [of k "Some p" m]
  by (auto simp: slices_ok_def list_all_iff)

lemma cache_ok_new: "cache_ok newConfigCache"
  by (simp add: cache_ok_def newConfigCache_def)

lemma cache_ok_reset: "cache_ok (cache_reset c)"
  by (simp add: cache_reset_new cache_ok_new)

lemma cache_ok_update:
  "cache_ok c \<Longrightarrow> p \<noteq> [] \<Longrightarrow> cache_ok (cache_update f p c)"
  by (auto simp: cache_ok_def cache_update_def Let_def
      split: option.splits FromRadio_PayloadVariant.splits)

lemma slice_lookup_update [simp]:
  "slice_lookup (AList.update k s m) = (slice_lookup m)(k := s)"
  by (auto simp: slice_lookup_def)

text \<open>
  The refinement: storing a frame updates exactly its key of the abstract map.
\<close>

lemma cache_lookup_update:
  assumes "p \<noteq> []"
  shows "cache_lookup (cache_update f p c) =
    (case frame_key f of None \<Rightarrow> cache_lookup c | Some k \<Rightarrow> (cache_lookup c)(k \<mapsto> p))"
proof
  fix k
  show "cache_lookup (cache_update f p c) k =
    (case frame_key f of None \<Rightarrow> cache_lookup c | Some k \<Rightarrow> (cache_lookup c)(k \<mapsto> p)) k"
    using assms
    by (cases k) (auto simp: cache_update_def frame_key_def Let_def
        split: option.split FromRadio_PayloadVariant.split)
qed

lemma cache_lookup_reset: "cache_lookup (cache_reset c) = Map.empty"
proof
  fix k
  show "cache_lookup (cache_reset c) k = None"
    by (cases k) (simp_all add: cache_reset_def slice_lookup_def)
qed

lemma cache_lookup_new: "cache_lookup newConfigCache = Map.empty"
  using cache_lookup_reset [of newConfigCache] by (simp add: cache_reset_new)

section \<open>Stores that keep the latest value of every key\<close>

text \<open>
  The contract of the cache as its clients use it: what a look-up returns after a
  store. From it follows the content after any history of stores.
\<close>

locale latest_store =
  fixes put :: "'f \<Rightarrow> 'v \<Rightarrow> 'm \<Rightarrow> 'm"
    and key :: "'f \<Rightarrow> 'k option"
    and look :: "'m \<Rightarrow> 'k \<Rightarrow> 'v option"
    and okv :: "'v \<Rightarrow> bool"
  assumes look_put: "okv v \<Longrightarrow> look (put f v m) =
    (case key f of None \<Rightarrow> look m | Some k \<Rightarrow> (look m)(k \<mapsto> v))"
begin

lemma look_put_same: "okv v \<Longrightarrow> key f = Some k \<Longrightarrow> look (put f v m) k = Some v"
  by (simp add: look_put)

lemma look_put_other: "okv v \<Longrightarrow> key f \<noteq> Some k \<Longrightarrow> look (put f v m) k = look m k"
  by (auto simp: look_put split: option.split)

lemma look_history:
  "list_all (okv \<circ> snd) hs \<Longrightarrow>
   look (fold (\<lambda>(f, v). put f v) hs m) k =
     (let stored = filter (\<lambda>(f, v). key f = Some k) hs
      in if stored = [] then look m k else Some (snd (last stored)))"
proof (induction hs rule: rev_induct)
  case (snoc h hs)
  obtain f v where h: "h = (f, v)" by (cases h)
  from snoc.prems h have ok: "okv v" and hs: "list_all (okv \<circ> snd) hs"
    by (simp_all add: list_all_iff)
  show ?case
  proof (cases "key f = Some k")
    case True
    then show ?thesis using h ok by (simp add: look_put_same)
  next
    case False
    then show ?thesis using h ok snoc.IH [OF hs] by (simp add: look_put_other Let_def)
  qed
qed (simp add: Let_def)

end

interpretation cc_store: latest_store cache_update frame_key cache_lookup "\<lambda>p. p \<noteq> []"
  by unfold_locales (rule cache_lookup_update)

section \<open>Replaying a snapshot\<close>

text \<open>
  The payloads of a snapshot in the order \<open>sendCachedConfig\<close> sends them, with its
  \<open>len(...) > 0\<close> guards on the three single slices.
\<close>

definition single_payload :: "slice \<Rightarrow> bytes list" where
  "single_payload s = (if length (slice_bytes s) > 0 then [slice_bytes s] else [])"

definition snapshot_payloads :: "cacheSnapshot \<Rightarrow> bytes list" where
  "snapshot_payloads s =
     single_payload (snap_myInfo s) @ map slice_bytes (snap_configs s) @
     map slice_bytes (snap_moduleConfig s) @ map slice_bytes (snap_channels s) @
     map slice_bytes (snap_nodeInfo s) @ single_payload (snap_metadata s) @
     single_payload (snap_deviceUI s)"

definition single_key :: "cache_key \<Rightarrow> slice \<Rightarrow> cache_key list" where
  "single_key k s = (if s = None then [] else [k])"

definition replay_keys :: "configCache \<Rightarrow> cache_key list" where
  "replay_keys c =
     single_key KMyInfo (cc_myInfo c) @ map KConfig (sorted_keys id (cc_config c)) @
     map KModule (sorted_keys id (cc_moduleConfig c)) @
     map KChannel (sorted_keys sint (cc_channels c)) @
     map KNode (sorted_keys uint (cc_nodeInfo c)) @
     single_key KMetadata (cc_metadata c) @ single_key KDeviceUI (cc_deviceUI c)"

lemma single_payload_conv:
  "s \<noteq> Some [] \<Longrightarrow> cache_lookup c k = s \<Longrightarrow>
   single_payload (slice_clone (slice_bytes s)) =
     map (\<lambda>k. the (cache_lookup c k)) (single_key k s)"
  by (cases s) (auto simp: single_payload_def single_key_def)

lemma entry_copy_conv:
  "slices_ok m \<Longrightarrow> k \<in> fst ` set m \<Longrightarrow> slice_bytes (entry_copy m k) = the (slice_lookup m k)"
  by (auto simp: slices_ok_def entry_copy_def slice_lookup_def list_all_iff gomap_ok_map_of
      dest!: map_of_SomeD split: option.split)

lemma entries_payload_conv:
  assumes "slices_ok m" and "\<And>k. cache_lookup c (K k) = slice_lookup m k"
  shows "map slice_bytes (map (entry_copy m) (sorted_keys f m)) =
    map (\<lambda>k. the (cache_lookup c k)) (map K (sorted_keys f m))"
  using assms by (auto intro!: map_cong simp: entry_copy_conv)

lemma snapshot_payloads_conv:
  assumes "cache_ok c"
  shows "snapshot_payloads (cache_snapshot c) = map (\<lambda>k. the (cache_lookup c k)) (replay_keys c)"
proof -
  let ?P = "\<lambda>k. the (cache_lookup c k)"
  note ok = assms [unfolded cache_ok_def]
  have singles:
    "single_payload (slice_clone (slice_bytes (cc_myInfo c))) =
      map ?P (single_key KMyInfo (cc_myInfo c))"
    "single_payload (slice_clone (slice_bytes (cc_metadata c))) =
      map ?P (single_key KMetadata (cc_metadata c))"
    "single_payload (slice_clone (slice_bytes (cc_deviceUI c))) =
      map ?P (single_key KDeviceUI (cc_deviceUI c))"
    using ok by (auto intro!: single_payload_conv)
  have entries:
    "map slice_bytes (map (entry_copy (cc_config c)) (sorted_keys id (cc_config c))) =
      map ?P (map KConfig (sorted_keys id (cc_config c)))"
    "map slice_bytes (map (entry_copy (cc_moduleConfig c)) (sorted_keys id (cc_moduleConfig c))) =
      map ?P (map KModule (sorted_keys id (cc_moduleConfig c)))"
    "map slice_bytes (map (entry_copy (cc_channels c)) (sorted_keys sint (cc_channels c))) =
      map ?P (map KChannel (sorted_keys sint (cc_channels c)))"
    "map slice_bytes (map (entry_copy (cc_nodeInfo c)) (sorted_keys uint (cc_nodeInfo c))) =
      map ?P (map KNode (sorted_keys uint (cc_nodeInfo c)))"
    using ok by (auto intro!: entries_payload_conv simp del: map_map)
  show ?thesis
    by (simp only: snapshot_payloads_def cache_snapshot_def cacheSnapshot.simps replay_keys_def
        map_append singles entries)
qed

lemma slices_ok_keys:
  assumes "slices_ok m"
  shows "fst ` set m = dom (slice_lookup m)"
proof -
  have "slice_lookup m k \<noteq> None \<longleftrightarrow> k \<in> fst ` set m" for k
  proof (cases "map_of m k")
    case None
    from None have "k \<notin> fst ` set m" by (simp only: map_of_eq_None_iff not_False_eq_True)
    with None show ?thesis by (simp add: slice_lookup_def)
  next
    case (Some s)
    then have m: "(k, s) \<in> set m" by (rule map_of_SomeD)
    with assms have "s \<noteq> None" by (auto simp: slices_ok_def list_all_iff)
    with Some m show ?thesis by (force simp: slice_lookup_def)
  qed
  then show ?thesis by (auto simp: dom_def)
qed

lemma set_replay_keys:
  assumes "cache_ok c"
  shows "set (replay_keys c) = dom (cache_lookup c)"
proof -
  note ok = assms [unfolded cache_ok_def]
  have keys: "fst ` set (cc_config c) = dom (slice_lookup (cc_config c))"
    "fst ` set (cc_moduleConfig c) = dom (slice_lookup (cc_moduleConfig c))"
    "fst ` set (cc_channels c) = dom (slice_lookup (cc_channels c))"
    "fst ` set (cc_nodeInfo c) = dom (slice_lookup (cc_nodeInfo c))"
    using ok by (simp_all only: slices_ok_keys)
  have "k \<in> set (replay_keys c) \<longleftrightarrow> cache_lookup c k \<noteq> None" for k
    by (cases k) (auto simp: replay_keys_def single_key_def keys)
  then show ?thesis by (auto simp: dom_def)
qed

lemma strict_sorted_map:
  "distinct xs \<Longrightarrow> sorted (map f xs) \<Longrightarrow> inj_on f (set xs) \<Longrightarrow>
   (\<And>x y. f x < f y \<longleftrightarrow> K x < K y) \<Longrightarrow> sorted_wrt (<) (map K xs)"
  by (induction xs) (auto simp: inj_on_def order_less_le)

lemma sorted_keys_strict:
  assumes "slices_ok m" and "inj f"
    and "\<And>x y. f x < f y \<longleftrightarrow> (K x :: cache_key) < K y"
  shows "sorted_wrt (<) (map K (sorted_keys f m))"
  using assms by (intro strict_sorted_map [where f = f])
    (auto simp: slices_ok_def distinct_sorted_keys sorted_sorted_keys inj_on_def inj_def)

lemma replay_keys_sorted:
  assumes "cache_ok c"
  shows "sorted_wrt (<) (replay_keys c)"
proof -
  note ok = assms [unfolded cache_ok_def]
  have "sorted_wrt (<) (map KConfig (sorted_keys id (cc_config c)))"
    "sorted_wrt (<) (map KModule (sorted_keys id (cc_moduleConfig c)))"
    "sorted_wrt (<) (map KChannel (sorted_keys sint (cc_channels c)))"
    "sorted_wrt (<) (map KNode (sorted_keys uint (cc_nodeInfo c)))"
    using ok by (auto intro!: sorted_keys_strict injI simp: less_cache_key_def sint_inject uint_inject)
  then show ?thesis
    by (auto simp: replay_keys_def single_key_def sorted_wrt_append less_cache_key_def)
qed

text \<open>
  Together: what a client is sent from the cache is, for the keys present and in
  ascending key order, the latest payload of each.
\<close>

lemma replay_keys_sorted_list:
  assumes "cache_ok c"
  shows "replay_keys c = sorted_list_of_set (dom (cache_lookup c))"
  using replay_keys_sorted [OF assms] set_replay_keys [OF assms]
  by (metis sorted_list_of_set.idem_if_sorted_distinct strict_sorted_iff)

lemma snapshot_payloads_sorted:
  "cache_ok c \<Longrightarrow> snapshot_payloads (cache_snapshot c) =
     map (\<lambda>k. the (cache_lookup c k)) (sorted_list_of_set (dom (cache_lookup c)))"
  by (simp add: snapshot_payloads_conv replay_keys_sorted_list)

lemma cache_empty_iff: "cache_ok c \<Longrightarrow> cache_empty c \<longleftrightarrow> dom (cache_lookup c) = {}"
  by (auto simp: cache_empty_def set_replay_keys [symmetric] replay_keys_def single_key_def
      sorted_keys_def)

lemma cache_ready_iff: "cache_ready c \<longleftrightarrow> KMyInfo \<in> dom (cache_lookup c)"
  by (auto simp: cache_ready_def)

section \<open>Properties\<close>

lemma cache_ok_history:
  "cache_ok c \<Longrightarrow> list_all (\<lambda>(f, p). p \<noteq> []) hs \<Longrightarrow>
     cache_ok (fold (\<lambda>(f, p). cache_update f p) hs c)"
  by (induction hs arbitrary: c) (auto simp: cache_ok_update)

text \<open>
  C20: after any history of stored frames the cache holds, under every key (own node
  info, configuration type, module type, channel index, node number, metadata, device
  UI), the payload of the last frame with that key, and nothing under a key that no
  frame had.
\<close>

theorem cache_holds_latest:
  assumes "list_all (\<lambda>(f, p). p \<noteq> []) hs"
  shows "cache_lookup (fold (\<lambda>(f, p). cache_update f p) hs newConfigCache) k =
    (let stored = filter (\<lambda>(f, p). frame_key f = Some k) hs
     in if stored = [] then None else Some (snd (last stored)))"
proof -
  have "list_all ((\<lambda>p. p \<noteq> []) \<circ> snd) hs" using assms by (auto simp: list_all_iff)
  from cc_store.look_history [OF this, of newConfigCache k] show ?thesis
    by (simp add: cache_lookup_new Let_def)
qed

theorem cache_holds_latest_witness:
  "cache_lookup (fold (\<lambda>(f, p). cache_update f p)
     [(mk_FromRadio (FromRadio_Metadata []), [1]), (mk_FromRadio (FromRadio_Rebooted True), [2]),
      (mk_FromRadio (FromRadio_Metadata []), [3])] newConfigCache) KMetadata = Some [3]"
  by (subst cache_holds_latest) (simp_all add: mk_FromRadio_def frame_key_def)

text \<open>
  The frames a client is sent from the cache are the latest payload of every
  stored key, each once, in ascending order of the keys (own node info first, then
  configurations, modules, channels by signed index, nodes by number, metadata, device
  UI). The cache is ready exactly when own node info is stored, empty exactly when
  nothing is, and after \<open>reset\<close> there is nothing to send.
\<close>

lemma cache_replay_order:
  assumes "list_all (\<lambda>(f, p). p \<noteq> []) hs" and "c = fold (\<lambda>(f, p). cache_update f p) hs newConfigCache"
  shows "snapshot_payloads (cache_snapshot c) =
      map (\<lambda>k. the (cache_lookup c k)) (sorted_list_of_set (dom (cache_lookup c))) \<and>
    (cache_ready c \<longleftrightarrow> KMyInfo \<in> dom (cache_lookup c)) \<and>
    (cache_empty c \<longleftrightarrow> snapshot_payloads (cache_snapshot c) = []) \<and>
    snapshot_payloads (cache_snapshot (cache_reset c)) = []"
proof -
  have ok: "cache_ok c" using cache_ok_history [OF cache_ok_new assms(1)] assms(2) by simp
  have "replay_keys c = [] \<longleftrightarrow> dom (cache_lookup c) = {}"
    using set_replay_keys [OF ok] by (metis set_empty)
  then show ?thesis
    using snapshot_payloads_sorted [OF ok] snapshot_payloads_sorted [OF cache_ok_reset, of c]
    by (auto simp: cache_ready_iff cache_empty_iff [OF ok] cache_lookup_reset
        replay_keys_sorted_list [OF ok] simp del: dom_eq_empty_conv)
qed

lemma cache_replay_order_witness:
  "let c = cache_update (mk_FromRadio (FromRadio_MyInfo None)) [2]
       (cache_update (mk_FromRadio (FromRadio_Metadata [])) [1] newConfigCache)
   in cache_ready c \<and> snapshot_payloads (cache_snapshot c) = [[2], [1]] \<and>
     map (\<lambda>k. the (cache_lookup c k)) (sorted_list_of_set (dom (cache_lookup c))) = [[2], [1]]"
proof -
  define c where "c = cache_update (mk_FromRadio (FromRadio_MyInfo None)) [2]
       (cache_update (mk_FromRadio (FromRadio_Metadata [])) [1] newConfigCache)"
  have "snapshot_payloads (cache_snapshot c) = [[2], [1]]" "cache_ready c"
    unfolding c_def by code_simp+
  with cache_replay_order [of "[(mk_FromRadio (FromRadio_Metadata []), [1]),
      (mk_FromRadio (FromRadio_MyInfo None), [2])]" c]
  show ?thesis by (simp add: c_def [symmetric])
qed

end
