(* ===== verification/GoStrings.thy ===== *)
theory GoStrings
  imports Prelude "HOL-Library.Sublist"
begin

text \<open>
  The parts of Go's \<open>strings\<close>, \<open>fmt\<close> and \<open>strconv\<close> packages that the bridge uses,
  on byte strings (\<open>string\<close> is a list of 8-bit characters, as a Go string is a
  sequence of bytes).
\<close>

section \<open>Bytes and strings\<close>

definition string_of_bytes :: "bytes \<Rightarrow> string" where
  "string_of_bytes p = map (\<lambda>b. char_of (unat b)) p"

definition bytes_of_string :: "string \<Rightarrow> bytes" where
  "bytes_of_string s = map (\<lambda>c. word_of_nat (of_char c)) s"

lemma unat_byte_mod [simp]: "unat (b :: byte) mod 256 = unat b"
  using unsigned_less [where ?'a = nat, of b] by simp

lemma bytes_of_string_of_bytes [simp]: "bytes_of_string (string_of_bytes p) = p"
  by (induction p) (simp_all add: bytes_of_string_def string_of_bytes_def of_char_of)

lemma string_of_bytes_of_string [simp]: "string_of_bytes (bytes_of_string s) = s"
  by (induction s) (simp_all add: bytes_of_string_def string_of_bytes_def unat_of_nat
      take_bit_nat_eq_self of_char_of)

lemma length_bytes_of_string [simp]: "length (bytes_of_string s) = length s"
  by (simp add: bytes_of_string_def)

section \<open>strings.TrimSpace\<close>

text \<open>
  The encodings of the runes \<open>unicode.IsSpace\<close> accepts: the six ASCII ones, U+0085,
  U+00A0, U+1680, U+2000 to U+200A, U+2028, U+2029, U+202F, U+205F and U+3000.
\<close>

definition space_runes :: "string list" where
  "space_runes =
     [[CHR 0x09], [CHR 0x0A], [CHR 0x0B], [CHR 0x0C], [CHR 0x0D], [CHR 0x20],
      [CHR 0xC2, CHR 0x85], [CHR 0xC2, CHR 0xA0],
      [CHR 0xE1, CHR 0x9A, CHR 0x80],
      [CHR 0xE2, CHR 0x80, CHR 0x80], [CHR 0xE2, CHR 0x80, CHR 0x81],
      [CHR 0xE2, CHR 0x80, CHR 0x82], [CHR 0xE2, CHR 0x80, CHR 0x83],
      [CHR 0xE2, CHR 0x80, CHR 0x84], [CHR 0xE2, CHR 0x80, CHR 0x85],
      [CHR 0xE2, CHR 0x80, CHR 0x86], [CHR 0xE2, CHR 0x80, CHR 0x87],
      [CHR 0xE2, CHR 0x80, CHR 0x88], [CHR 0xE2, CHR 0x80, CHR 0x89],
      [CHR 0xE2, CHR 0x80, CHR 0x8A],
      [CHR 0xE2, CHR 0x80, CHR 0xA8], [CHR 0xE2, CHR 0x80, CHR 0xA9],
      [CHR 0xE2, CHR 0x80, CHR 0xAF], [CHR 0xE2, CHR 0x81, CHR 0x9F],
      [CHR 0xE3, CHR 0x80, CHR 0x80]]"

function strip_front :: "string list \<Rightarrow> string \<Rightarrow> string" where
  "strip_front ps s =
     (case find (\<lambda>p. p \<noteq> [] \<and> prefix p s) ps of
        None \<Rightarrow> s
      | Some p \<Rightarrow> strip_front ps (drop (length p) s))"
  by pat_completeness auto
termination
  by (relation "measure (\<lambda>(ps, s). length s)")
    (auto simp: find_Some_iff prefix_def)

declare strip_front.simps [simp del]

definition TrimSpace :: "string \<Rightarrow> string" where
  "TrimSpace s =
     rev (strip_front (map rev space_runes) (rev (strip_front space_runes s)))"

definition starts_clean :: "string list \<Rightarrow> string \<Rightarrow> bool" where
  "starts_clean ps s \<longleftrightarrow> (\<forall>p \<in> set ps. p \<noteq> [] \<longrightarrow> \<not> prefix p s)"

lemma strip_front_clean: "starts_clean ps (strip_front ps s)"
proof (induction ps s rule: strip_front.induct)
  case (1 ps s)
  show ?case
  proof (cases "find (\<lambda>p. p \<noteq> [] \<and> prefix p s) ps")
    case None
    then have "strip_front ps s = s" by (simp add: strip_front.simps)
    with None show ?thesis by (auto simp: starts_clean_def find_None_iff)
  next
    case (Some p)
    with "1.IH" [OF Some] show ?thesis by (simp add: strip_front.simps [of ps s])
  qed
qed

lemma strip_front_id: "starts_clean ps s \<Longrightarrow> strip_front ps s = s"
proof -
  assume "starts_clean ps s"
  then have "find (\<lambda>p. p \<noteq> [] \<and> prefix p s) ps = None"
    by (auto simp: starts_clean_def find_None_iff)
  then show ?thesis by (simp add: strip_front.simps)
qed

lemma strip_front_suffix: "\<exists>junk. s = junk @ strip_front ps s"
proof (induction ps s rule: strip_front.induct)
  case (1 ps s)
  show ?case
  proof (cases "find (\<lambda>p. p \<noteq> [] \<and> prefix p s) ps")
    case None
    then show ?thesis by (simp add: strip_front.simps [of ps s])
  next
    case (Some p)
    then have "prefix p s" by (auto simp: find_Some_iff)
    then have "s = p @ drop (length p) s" by (auto simp: prefix_def)
    moreover from "1.IH" [OF Some] obtain junk
      where "drop (length p) s = junk @ strip_front ps (drop (length p) s)" by blast
    ultimately have "s = (p @ junk) @ strip_front ps (drop (length p) s)" by simp
    with Some show ?thesis
      by (intro exI [of _ "p @ junk"]) (simp add: strip_front.simps [of ps s])
  qed
qed

lemma starts_clean_prefix: "starts_clean ps s \<Longrightarrow> prefix t s \<Longrightarrow> starts_clean ps t"
  unfolding starts_clean_def by (meson prefix_order.trans)

definition trimmed :: "string \<Rightarrow> bool" where
  "trimmed s \<longleftrightarrow> starts_clean space_runes s \<and> starts_clean (map rev space_runes) (rev s)"

lemma TrimSpace_trimmed: "trimmed (TrimSpace s)"
proof -
  let ?l = "strip_front space_runes s"
  let ?r = "strip_front (map rev space_runes) (rev ?l)"
  obtain junk where "rev ?l = junk @ ?r"
    using strip_front_suffix [of "rev ?l" "map rev space_runes"] by auto
  then have "?l = rev ?r @ rev junk" by (metis rev_append rev_rev_ident)
  then have "prefix (rev ?r) ?l" by (metis prefixI)
  then have "starts_clean space_runes (rev ?r)"
    using strip_front_clean starts_clean_prefix by blast
  then show ?thesis
    using strip_front_clean [of "map rev space_runes" "rev ?l"]
    by (simp add: trimmed_def TrimSpace_def)
qed

lemma TrimSpace_id: "trimmed s \<Longrightarrow> TrimSpace s = s"
  by (simp add: TrimSpace_def trimmed_def strip_front_id)

lemma TrimSpace_idem [simp]: "TrimSpace (TrimSpace s) = TrimSpace s"
  by (rule TrimSpace_id [OF TrimSpace_trimmed])

lemma TrimSpace_infix: "\<exists>a b. s = a @ TrimSpace s @ b"
proof -
  let ?l = "strip_front space_runes s"
  obtain a where a: "s = a @ ?l" using strip_front_suffix by blast
  obtain b where "rev ?l = b @ strip_front (map rev space_runes) (rev ?l)"
    using strip_front_suffix by blast
  then have "?l = TrimSpace s @ rev b"
    by (metis TrimSpace_def rev_append rev_rev_ident)
  with a show ?thesis by metis
qed

lemma length_TrimSpace_le: "length (TrimSpace s) \<le> length s"
  using TrimSpace_infix [of s] by (metis le_add1 le_add2 length_append order_trans)

lemma TrimSpace_Nil [simp]: "TrimSpace [] = []"
  using length_TrimSpace_le [of "[]"] by simp

lemma space_runes_no_bar: "p \<in> set space_runes \<Longrightarrow> CHR ''|'' \<notin> set p"
  by (auto simp: space_runes_def)

section \<open>strings.Split and strings.Join with a one-byte separator\<close>

fun split_on :: "char \<Rightarrow> string \<Rightarrow> string list" where
  "split_on c [] = [[]]"
| "split_on c (x # xs) =
     (if x = c then [] # split_on c xs
      else case split_on c xs of p # ps \<Rightarrow> (x # p) # ps | [] \<Rightarrow> [[x]])"

fun join_with :: "char \<Rightarrow> string list \<Rightarrow> string" where
  "join_with c [] = []"
| "join_with c [p] = p"
| "join_with c (p # ps) = p @ c # join_with c ps"

lemma split_on_nonempty [simp]: "split_on c s \<noteq> []"
  by (cases s) (auto split: list.splits)

lemma split_on_no_sep: "p \<in> set (split_on c s) \<Longrightarrow> c \<notin> set p"
  by (induction s arbitrary: p) (auto split: if_splits list.splits)

lemma split_on_piece: "c \<notin> set p \<Longrightarrow> split_on c (p @ c # s) = p # split_on c s"
  by (induction p) auto

lemma split_on_last: "c \<notin> set p \<Longrightarrow> split_on c p = [p]"
  by (induction p) auto

lemma split_join:
  "ps \<noteq> [] \<Longrightarrow> list_all (\<lambda>p. c \<notin> set p) ps \<Longrightarrow> split_on c (join_with c ps) = ps"
  by (induction c ps rule: join_with.induct) (auto simp: split_on_piece split_on_last)

lemma join_split: "join_with c (split_on c s) = s"
proof (induction s)
  case (Cons x xs)
  then show ?case
    by (cases "split_on c xs"; cases "tl (split_on c xs)") (auto split: list.splits)
qed simp

section \<open>Numbers as text\<close>

definition digit_char :: "nat \<Rightarrow> char" where
  "digit_char d = (if d < 10 then char_of (48 + d) else char_of (87 + d))"

fun show_base :: "nat \<Rightarrow> nat \<Rightarrow> string" where
  "show_base b n =
     (if b < 2 \<or> n < b then [digit_char n] else show_base b (n div b) @ [digit_char (n mod b)])"

declare show_base.simps [simp del]

definition Itoa :: "int \<Rightarrow> string" where
  "Itoa i = (if i < 0 then CHR ''-'' # show_base 10 (nat (- i)) else show_base 10 (nat i))"

text \<open>The verb \<open>%x\<close> on a \<open>uint32\<close> and \<open>hex.EncodeToString\<close>.\<close>

definition hex_u32 :: "u32 \<Rightarrow> string" where
  "hex_u32 v = show_base 16 (unat v)"

definition hex_byte :: "byte \<Rightarrow> string" where
  "hex_byte b = [digit_char (unat b div 16), digit_char (unat b mod 16)]"

definition hex_encode :: "bytes \<Rightarrow> string" where
  "hex_encode p = concat (map hex_byte p)"

definition show_bool :: "bool \<Rightarrow> string" where
  "show_bool b = (if b then ''true'' else ''false'')"

lemma length_hex_encode: "length (hex_encode p) = 2 * length p"
  by (induction p) (simp_all add: hex_encode_def hex_byte_def)

lemma digit_char_inject: "m < 16 \<Longrightarrow> n < 16 \<Longrightarrow> digit_char m = digit_char n \<Longrightarrow> m = n"
proof -
  assume m: "m < 16" and n: "n < 16" and eq: "digit_char m = digit_char n"
  have val: "(of_char (digit_char k) :: nat) = (if k < 10 then 48 + k else 87 + k)" if "k < 16" for k
    using that by (simp add: digit_char_def)
  from eq have "(of_char (digit_char m) :: nat) = of_char (digit_char n)" by simp
  with m n show "m = n" by (auto simp: val split: if_splits)
qed

lemma hex_byte_inject: "hex_byte a = hex_byte b \<longleftrightarrow> a = b"
proof
  assume h: "hex_byte a = hex_byte b"
  have "unat a < 256" "unat b < 256"
    using unsigned_less [where ?'a = nat, of a] unsigned_less [where ?'a = nat, of b] by simp_all
  with h have "unat a div 16 = unat b div 16" "unat a mod 16 = unat b mod 16"
    by (auto simp: hex_byte_def intro!: digit_char_inject)
  then have "unat a = unat b" by (metis div_mult_mod_eq)
  then show "a = b" by (rule unsigned_word_eqI)
qed simp

lemma hex_encode_inject: "hex_encode p = hex_encode q \<Longrightarrow> p = q"
proof (induction p arbitrary: q)
  case Nil
  then show ?case by (cases q) (simp_all add: hex_encode_def hex_byte_def)
next
  case (Cons a p)
  then obtain b q' where "q = b # q'"
    by (cases q) (simp_all add: hex_encode_def hex_byte_def)
  with Cons have "hex_byte a @ hex_encode p = hex_byte b @ hex_encode q'"
    by (simp add: hex_encode_def)
  then have "hex_byte a = hex_byte b" "hex_encode p = hex_encode q'"
    by (simp_all add: hex_byte_def)
  with Cons.IH \<open>q = b # q'\<close> show ?case by (simp add: hex_byte_inject)
qed

end
