(* ===== verification/Debug.thy ===== *)
theory Debug
  imports ConfigCache GoStrings
begin

text \<open>
  The labels and summaries of \<open>internal/broker/debug.go\<close> that reach the outside:
  the cache summary of the status, and the variant labels of frames. Log lines
  themselves are not part of the state.
\<close>

definition formatCacheStats ::
  "bool \<Rightarrow> nat \<Rightarrow> nat \<Rightarrow> nat \<Rightarrow> nat \<Rightarrow> bool \<Rightarrow> bool \<Rightarrow> string" where
  "formatCacheStats myInfo configs moduleConfigs channels nodeInfo metadata deviceUI =
     ''myInfo='' @ show_bool myInfo @ '' configs='' @ Itoa (int configs) @
     '' moduleConfigs='' @ Itoa (int moduleConfigs) @ '' channels='' @ Itoa (int channels) @
     '' nodeInfo='' @ Itoa (int nodeInfo) @ '' metadata='' @ show_bool metadata @
     '' deviceUI='' @ show_bool deviceUI"

definition cache_describe :: "configCache \<Rightarrow> string" where
  "cache_describe c =
     formatCacheStats (cc_myInfo c \<noteq> None) (length (cc_config c)) (length (cc_moduleConfig c))
       (length (cc_channels c)) (length (cc_nodeInfo c)) (cc_metadata c \<noteq> None)
       (cc_deviceUI c \<noteq> None)"

definition describeCacheSnapshot :: "cacheSnapshot \<Rightarrow> string" where
  "describeCacheSnapshot s =
     formatCacheStats (length (slice_bytes (snap_myInfo s)) > 0) (length (snap_configs s))
       (length (snap_moduleConfig s)) (length (snap_channels s)) (length (snap_nodeInfo s))
       (length (slice_bytes (snap_metadata s)) > 0) (length (slice_bytes (snap_deviceUI s)) > 0)"

text \<open>The summary of a snapshot is the summary of the cache it was taken from.\<close>

lemma describe_snapshot:
  "cache_ok c \<Longrightarrow> describeCacheSnapshot (cache_snapshot c) = cache_describe c"
  by (cases "cc_myInfo c"; cases "cc_metadata c"; cases "cc_deviceUI c")
    (simp_all add: describeCacheSnapshot_def cache_describe_def cache_snapshot_def cache_ok_def)

section \<open>Variant labels\<close>

definition packet_label :: "MeshPacket option \<Rightarrow> string" where
  "packet_label p =
     (case p of
        Some _ \<Rightarrow> ''Packet id=0x'' @ hex_u32 (MeshPacket_GetId p) @
          '' from=0x'' @ hex_u32 (MeshPacket_GetFrom p)
      | None \<Rightarrow> ''Packet'')"

definition protoVariantLabel_ToRadio :: "ToRadio \<Rightarrow> string" where
  "protoVariantLabel_ToRadio m =
     (case ToRadio_Variant m of
        Some (ToRadio_WantConfigId i) \<Rightarrow> ''WantConfigId=0x'' @ hex_u32 i
      | Some (ToRadio_Disconnect _) \<Rightarrow> ''Disconnect''
      | Some (ToRadio_Packet p) \<Rightarrow> packet_label p
      | _ \<Rightarrow> '''')"

definition protoVariantLabel_FromRadio :: "FromRadio \<Rightarrow> string" where
  "protoVariantLabel_FromRadio m =
     (case FromRadio_Variant m of
        Some (FromRadio_ConfigCompleteId i) \<Rightarrow> ''ConfigCompleteId=0x'' @ hex_u32 i
      | Some (FromRadio_Rebooted r) \<Rightarrow> ''rebooted='' @ show_bool r
      | Some (FromRadio_MyInfo _) \<Rightarrow> ''MyInfo''
      | Some (FromRadio_Config c) \<Rightarrow>
          (case c of Some cfg \<Rightarrow> ''Config '' @ Config_type_name cfg | None \<Rightarrow> ''Config'')
      | Some (FromRadio_ModuleConfig c) \<Rightarrow>
          (case c of Some cfg \<Rightarrow> ''ModuleConfig '' @ ModuleConfig_type_name cfg
           | None \<Rightarrow> ''ModuleConfig'')
      | Some (FromRadio_Channel c) \<Rightarrow>
          (case c of Some ch \<Rightarrow> ''Channel index='' @ Itoa (sint (Channel_Index ch))
           | None \<Rightarrow> ''Channel'')
      | Some (FromRadio_NodeInfo n) \<Rightarrow>
          (case n of Some ni \<Rightarrow> ''NodeInfo num=0x'' @ hex_u32 (NodeInfo_Num ni)
           | None \<Rightarrow> ''NodeInfo'')
      | Some (FromRadio_Metadata _) \<Rightarrow> ''Metadata''
      | Some (FromRadio_DeviceuiConfig _) \<Rightarrow> ''DeviceuiConfig''
      | Some (FromRadio_Packet p) \<Rightarrow> packet_label p
      | _ \<Rightarrow> '''')"

definition cacheUpdateLabel :: "FromRadio \<Rightarrow> string" where
  "cacheUpdateLabel frame =
     (case FromRadio_Variant frame of
        Some (FromRadio_MyInfo _) \<Rightarrow> protoVariantLabel_FromRadio frame
      | Some (FromRadio_NodeInfo _) \<Rightarrow> protoVariantLabel_FromRadio frame
      | Some (FromRadio_Config _) \<Rightarrow> protoVariantLabel_FromRadio frame
      | Some (FromRadio_ModuleConfig _) \<Rightarrow> protoVariantLabel_FromRadio frame
      | Some (FromRadio_Channel _) \<Rightarrow> protoVariantLabel_FromRadio frame
      | Some (FromRadio_Metadata _) \<Rightarrow> protoVariantLabel_FromRadio frame
      | Some (FromRadio_DeviceuiConfig _) \<Rightarrow> protoVariantLabel_FromRadio frame
      | _ \<Rightarrow> '''')"

text \<open>A frame that is filed in the cache is labelled, so its storing is logged.\<close>

lemma cacheUpdateLabel_stored: "frame_key f \<noteq> None \<Longrightarrow> cacheUpdateLabel f \<noteq> ''''"
  by (auto simp: frame_key_def cacheUpdateLabel_def protoVariantLabel_FromRadio_def
      split: option.splits FromRadio_PayloadVariant.splits)

section \<open>Truncation of a decoded frame in the log\<close>

definition debugMaxDecoded :: nat where "debugMaxDecoded = 2048"

text \<open>
  \<open>logDecodedPayload\<close> cuts the text first and computes the number it reports from
  the text already cut.
\<close>

definition truncate_decoded :: "string \<Rightarrow> string \<times> string" where
  "truncate_decoded decoded =
     (if debugMaxDecoded < length decoded then
        let decoded' = take debugMaxDecoded decoded in
          (decoded', '' ...(truncated '' @ Itoa (int (length decoded') - int debugMaxDecoded) @
             '' chars)'')
      else (decoded, ''''))"

lemma Itoa_zero: "Itoa 0 = ''0''"
  by code_simp

lemma truncate_decoded_note:
  "debugMaxDecoded < length s \<Longrightarrow>
     truncate_decoded s = (take debugMaxDecoded s, '' ...(truncated 0 chars)'')"
  by (simp add: truncate_decoded_def Itoa_zero)

section \<open>Properties\<close>

text \<open>
  A decoded frame longer than 2048 characters is cut to 2048, and the log line
  always claims that 0 characters were cut, however many were.
\<close>

lemma truncation_reports_zero:
  assumes "debugMaxDecoded < length s"
  shows "truncate_decoded s = (take debugMaxDecoded s, '' ...(truncated 0 chars)'')"
  using assms by (rule truncate_decoded_note)

lemma truncation_witness:
  "snd (truncate_decoded (replicate 5000 (CHR ''x''))) = '' ...(truncated 0 chars)''"
  by (subst truncation_reports_zero) (simp_all add: debugMaxDecoded_def)

end
