(* ===== verification/BrokerState.thy ===== *)
theory BrokerState
  imports Frame Client Debug
begin

text \<open>
  The \<open>Broker\<close> struct of \<open>internal/broker/broker.go\<close> and its small operations, one
  definition per function: each is one critical section of the source, so it is an
  atomic step on the state. Client objects live in a heap and are referred to by
  identity, as the pointers of the source are. The calls to the web UI's hub are
  kept as the list of calls made, in order.

  Nondeterminism and the outside world are explicit: the order in which a \<open>range\<close>
  loop visits a map, the answers of the serial device, and the protobuf library are
  the fields of an environment record; the clock is a field of the state, and the
  future outputs of \<open>crypto/rand\<close> are a list, consumed from the front.
\<close>

section \<open>The environment\<close>

type_synonym cid = nat

record configRequest =
  cr_client :: "cid option"
  cr_originalID :: u32

record outboundEntry =
  oe_client :: "cid option"
  oe_until :: int

record env = codec +
  e_writer :: writer
  e_client_order :: "cid list \<Rightarrow> cid list"
  e_pending_order :: "(u32, configRequest) gomap \<Rightarrow> (u32, configRequest) gomap"

text \<open>What the Go run time and an \<open>io.Writer\<close> guarantee of it.\<close>

definition env_ok :: "'a env_scheme \<Rightarrow> bool" where
  "env_ok E \<longleftrightarrow>
     writer_ok (e_writer E) \<and>
     (\<forall>xs. mset (e_client_order E xs) = mset xs) \<and>
     (\<forall>m. mset (e_pending_order E m) = mset m)"

lemma env_ok_client_order:
  assumes "env_ok E"
  shows "set (e_client_order E xs) = set xs" "length (e_client_order E xs) = length xs"
    "distinct (e_client_order E xs) = distinct xs"
proof -
  from assms have m: "mset (e_client_order E xs) = mset xs" by (simp add: env_ok_def)
  then show "set (e_client_order E xs) = set xs" by (metis set_mset_mset)
  from m show "length (e_client_order E xs) = length xs" by (metis size_mset)
  from m show "distinct (e_client_order E xs) = distinct xs"
    by (metis mset_eq_imp_distinct_iff)
qed

datatype rand_draw =
    RandOk u32      \<comment> \<open>\<open>rand.Read\<close> filled the buffer\<close>
  | RandErr int     \<comment> \<open>it failed; the fallback is the clock in nanoseconds\<close>

datatype go_error =
    ErrSerialClosed | ErrSerialNotReady | ErrNodeIDUnknown | ErrEmptyMessage
  | ErrMessageTooLong nat | ErrInvalidChannel int | ErrCannedUnavailable
  | ErrContext string | ErrMarshal | ErrRadioNotConnected

section \<open>Calls to the hub\<close>

record Status =
  st_SerialConnected :: bool
  st_ClientCount :: nat
  st_PrimaryAddr :: string
  st_CacheReady :: bool
  st_CacheSummary :: string
  st_LocalNodeNum :: u32

datatype hub_call =
    HubObserve string string bytes bool   \<comment> \<open>direction, address, payload, from the radio\<close>
  | HubStatus Status

section \<open>The state\<close>

record broker =
  b_serial_out :: bytes
  b_heap :: "cid \<Rightarrow> client"
  b_next :: cid
  b_clients :: "cid list"
  b_primary :: "cid option"
  b_cache :: configCache
  b_readOnlyClients :: bool
  b_observability :: bool
  b_hub :: "hub_call list"
  b_pendingConfig :: "(u32, configRequest) gomap"
  b_outboundByPacket :: "(u32, outboundEntry) gomap"
  b_cannedWaiters :: "(u32, nat) gomap"
  b_chans :: "nat \<Rightarrow> (string list) chan"
  b_nextchan :: nat
  b_cannedCache :: "string list"
  b_cannedCacheAt :: int
  b_done :: bool
  b_err :: "go_error option"
  b_now :: int
  b_rand :: "rand_draw list"

definition New :: "bool \<Rightarrow> bool \<Rightarrow> int \<Rightarrow> rand_draw list \<Rightarrow> broker" where
  "New readOnlyClients observability now rnd =
     \<lparr>b_serial_out = [], b_heap = (\<lambda>_. newClient ''''), b_next = 0, b_clients = [],
      b_primary = None, b_cache = newConfigCache, b_readOnlyClients = readOnlyClients,
      b_observability = observability, b_hub = [], b_pendingConfig = [],
      b_outboundByPacket = [], b_cannedWaiters = [], b_chans = (\<lambda>_. make_chan 1),
      b_nextchan = 0, b_cannedCache = [], b_cannedCacheAt = 0, b_done = False, b_err = None,
      b_now = now, b_rand = rnd\<rparr>"

abbreviation the_client :: "broker \<Rightarrow> cid \<Rightarrow> client" where
  "the_client b cl \<equiv> b_heap b cl"

definition set_client :: "cid \<Rightarrow> client \<Rightarrow> broker \<Rightarrow> broker" where
  "set_client cl c b = b\<lparr>b_heap := (b_heap b)(cl := c)\<rparr>"

section \<open>Termination of the broker\<close>

definition fail :: "go_error option \<Rightarrow> broker \<Rightarrow> broker" where
  "fail err b =
     (if b_done b then b
      else b\<lparr>b_err := Some (case err of None \<Rightarrow> ErrSerialClosed | Some e \<Rightarrow> e), b_done := True\<rparr>)"

section \<open>Observability\<close>

datatype payloadKind = payloadUnknown | payloadFromRadio | payloadToRadio

definition logDecodedPayload :: "string \<Rightarrow> string \<Rightarrow> bytes \<Rightarrow> payloadKind \<Rightarrow> broker \<Rightarrow> broker" where
  "logDecodedPayload direction addr payload kind b =
     (if b_observability b then
        (case kind of
           payloadFromRadio \<Rightarrow>
             b\<lparr>b_hub := b_hub b @ [HubObserve direction addr payload True]\<rparr>
         | payloadToRadio \<Rightarrow>
             b\<lparr>b_hub := b_hub b @ [HubObserve direction addr payload False]\<rparr>
         | payloadUnknown \<Rightarrow> b)
      else b)"

definition LocalNodeNum :: "'a env_scheme \<Rightarrow> broker \<Rightarrow> u32 \<times> bool" where
  "LocalNodeNum E b = localNodeNum (codec.truncate E) (b_cache b)"

definition broker_status :: "'a env_scheme \<Rightarrow> broker \<Rightarrow> Status" where
  "broker_status E b =
     \<lparr>st_SerialConnected = True, st_ClientCount = length (b_clients b),
      st_PrimaryAddr =
        (case b_primary b of None \<Rightarrow> '''' | Some cl \<Rightarrow> cl_addr (the_client b cl)),
      st_CacheReady = cache_ready (b_cache b), st_CacheSummary = cache_describe (b_cache b),
      st_LocalNodeNum = fst (LocalNodeNum E b)\<rparr>"

definition PublishStatus :: "'a env_scheme \<Rightarrow> broker \<Rightarrow> broker" where
  "PublishStatus E b =
     (if \<not> b_observability b then b
      else b\<lparr>b_hub := b_hub b @ [HubStatus (broker_status E b)]\<rparr>)"

section \<open>Outbound packets and their echoes\<close>

definition outboundEchoSuppress :: int where "outboundEchoSuppress = 30 * 1000000000"

definition noteOutboundPacket :: "cid \<Rightarrow> MeshPacket option \<Rightarrow> broker \<Rightarrow> broker" where
  "noteOutboundPacket cl pkt b =
     (if pkt = None \<or> MeshPacket_GetId pkt = 0 then b
      else
        let now = b_now b;
            live = filter (\<lambda>(k, entry). \<not> oe_until entry < now) (b_outboundByPacket b)
        in b\<lparr>b_outboundByPacket :=
               AList.update (MeshPacket_GetId pkt)
                 \<lparr>oe_client = Some cl, oe_until = now + outboundEchoSuppress\<rparr> live\<rparr>)"

definition consumeOutboundOrigin :: "MeshPacket option \<Rightarrow> broker \<Rightarrow> cid option \<times> broker" where
  "consumeOutboundOrigin pkt b =
     (if pkt = None \<or> MeshPacket_GetId pkt = 0 then (None, b)
      else case map_of (b_outboundByPacket b) (MeshPacket_GetId pkt) of
          None \<Rightarrow> (None, b)
        | Some entry \<Rightarrow>
            let b1 = b\<lparr>b_outboundByPacket :=
                        AList.delete (MeshPacket_GetId pkt) (b_outboundByPacket b)\<rparr>
            in (case oe_client entry of
                  None \<Rightarrow> (None, b1)
                | Some cl \<Rightarrow>
                    if oe_until entry < b_now b \<or> isClosed (the_client b cl) then (None, b1)
                    else (Some cl, b1)))"

definition packetSuppressesOriginEcho :: "MeshPacket option \<Rightarrow> bool" where
  "packetSuppressesOriginEcho pkt =
     (case pkt of
        None \<Rightarrow> False
      | Some _ \<Rightarrow>
          (case MeshPacket_GetDecoded pkt of
             None \<Rightarrow> False
           | Some d \<Rightarrow>
               Data_Portnum d \<in> {PortNum_TEXT_MESSAGE_APP, PortNum_TEXT_MESSAGE_COMPRESSED_APP,
                 PortNum_REPLY_APP}))"

section \<open>Pending configuration requests\<close>

definition draw_id :: "rand_draw \<Rightarrow> u32" where
  "draw_id d = (case d of RandOk v \<Rightarrow> v | RandErr t \<Rightarrow> word_of_int t)"

text \<open>
  The loop of \<open>reserveConfigRequest\<close>: draw until the nonce is neither zero nor taken.
  \<^const>\<open>None\<close>: still drawing when the listed outputs are used up.
\<close>

fun pick_nonce :: "rand_draw list \<Rightarrow> (u32, 'v) gomap \<Rightarrow> (u32 \<times> rand_draw list) option" where
  "pick_nonce [] m = None"
| "pick_nonce (d # ds) m =
     (if draw_id d = 0 then pick_nonce ds m
      else if map_of m (draw_id d) \<noteq> None then pick_nonce ds m
      else Some (draw_id d, ds))"

definition reserveConfigRequest ::
  "cid option \<Rightarrow> u32 \<Rightarrow> broker \<Rightarrow> (u32 \<times> broker) option" where
  "reserveConfigRequest cl original b =
     (case pick_nonce (b_rand b) (b_pendingConfig b) of
        None \<Rightarrow> None
      | Some (newID, rest) \<Rightarrow>
          Some (newID, b\<lparr>b_rand := rest,
            b_pendingConfig :=
              AList.update newID \<lparr>cr_client = cl, cr_originalID = original\<rparr> (b_pendingConfig b)\<rparr>))"

definition takeConfigRequest :: "u32 \<Rightarrow> broker \<Rightarrow> configRequest option \<times> broker" where
  "takeConfigRequest wireID b =
     (case map_of (b_pendingConfig b) wireID of
        None \<Rightarrow> (None, b)
      | Some req \<Rightarrow>
          (Some req, b\<lparr>b_pendingConfig := AList.delete wireID (b_pendingConfig b)\<rparr>))"

definition dropPendingForClient :: "cid \<Rightarrow> broker \<Rightarrow> broker" where
  "dropPendingForClient cl b =
     b\<lparr>b_pendingConfig :=
         filter (\<lambda>(k, req). cr_client req \<noteq> Some cl) (b_pendingConfig b)\<rparr>"

section \<open>The serial link\<close>

definition writeSerial :: "'a env_scheme \<Rightarrow> bytes \<Rightarrow> broker \<Rightarrow> go_error option \<times> broker" where
  "writeSerial E payload b =
     (if b_done b then (Some ErrSerialClosed, b)
      else
        let b1 = logDecodedPayload ''broker -> serial'' '''' payload payloadToRadio b in
        (case WriteFrame (e_writer E) (b_serial_out b1) payload of
           (None, out) \<Rightarrow> (None, b1\<lparr>b_serial_out := out\<rparr>)
         | (Some _, out) \<Rightarrow> (Some ErrSerialClosed, b1\<lparr>b_serial_out := out\<rparr>)))"

definition forwardToSerial :: "'a env_scheme \<Rightarrow> ToRadio \<Rightarrow> broker \<Rightarrow> go_error option \<times> broker" where
  "forwardToSerial E toRadio b =
     (case marshal_ToRadio E toRadio of
        None \<Rightarrow> (Some ErrMarshal, b)
      | Some payload \<Rightarrow> writeSerial E payload b)"

section \<open>Clients\<close>

definition isPrimary :: "cid \<Rightarrow> broker \<Rightarrow> bool" where
  "isPrimary cl b \<longleftrightarrow> b_primary b = Some cl"

definition snapshotClients :: "'a env_scheme \<Rightarrow> broker \<Rightarrow> cid list" where
  "snapshotClients E b = e_client_order E (b_clients b)"

definition removeClient :: "'a env_scheme \<Rightarrow> cid \<Rightarrow> broker \<Rightarrow> broker" where
  "removeClient E cl b =
     (let removed = cl \<in> set (b_clients b);
          clients = (if removed then remove1 cl (b_clients b) else b_clients b);
          wasPrimary = (b_primary b = Some cl);
          newPrimary = (if wasPrimary
            then (case e_client_order E clients of [] \<Rightarrow> None | candidate # _ \<Rightarrow> Some candidate)
            else b_primary b);
          b1 = b\<lparr>b_clients := clients, b_primary := newPrimary\<rparr>;
          b2 = dropPendingForClient cl b1;
          b3 = set_client cl (client_close (the_client b2 cl)) b2
      in if removed then PublishStatus E b3 else b3)"

definition disconnectSlowClient :: "'a env_scheme \<Rightarrow> cid \<Rightarrow> broker \<Rightarrow> broker" where
  "disconnectSlowClient E cl b =
     (if isClosed (the_client b cl) then b
      else removeClient E cl (set_client cl (snd (markSlowWarning (the_client b cl))) b))"

definition warnReadOnlyClient :: "cid \<Rightarrow> broker \<Rightarrow> broker" where
  "warnReadOnlyClient cl b = set_client cl (snd (markReadOnlyWarning (the_client b cl))) b"

definition sendToClient :: "'a env_scheme \<Rightarrow> cid \<Rightarrow> bytes \<Rightarrow> broker \<Rightarrow> broker" where
  "sendToClient E cl payload b =
     (case enqueue payload (the_client b cl) of
        (True, c) \<Rightarrow>
          logDecodedPayload ''broker -> client'' (cl_addr c) payload payloadFromRadio
            (set_client cl c b)
      | (False, c) \<Rightarrow> disconnectSlowClient E cl b)"

definition sendToClientBlocking ::
  "'a env_scheme \<Rightarrow> wait_case \<Rightarrow> cid \<Rightarrow> bytes \<Rightarrow> broker \<Rightarrow> bool \<times> broker" where
  "sendToClientBlocking E w cl payload b =
     (case enqueueWithTimeout w payload (the_client b cl) of
        (True, c) \<Rightarrow>
          (True, logDecodedPayload ''broker -> client'' (cl_addr c) payload payloadFromRadio
            (set_client cl c b))
      | (False, c) \<Rightarrow> (False, disconnectSlowClient E cl b))"

primrec send_each :: "'a env_scheme \<Rightarrow> bytes \<Rightarrow> cid option \<Rightarrow> cid list \<Rightarrow> broker \<Rightarrow> broker" where
  "send_each E payload except [] b = b"
| "send_each E payload except (cl # cls) b =
     send_each E payload except cls
       (if Some cl = except then b else sendToClient E cl payload b)"

definition broadcastExcept :: "'a env_scheme \<Rightarrow> bytes \<Rightarrow> cid option \<Rightarrow> broker \<Rightarrow> broker" where
  "broadcastExcept E payload except b = send_each E payload except (snapshotClients E b) b"

definition broadcast :: "'a env_scheme \<Rightarrow> bytes \<Rightarrow> broker \<Rightarrow> broker" where
  "broadcast E payload b = broadcastExcept E payload None b"

definition AddClient :: "'a env_scheme \<Rightarrow> string \<Rightarrow> broker \<Rightarrow> cid \<times> broker" where
  "AddClient E addr b =
     (let cl = b_next b;
          b1 = b\<lparr>b_heap := (b_heap b)(cl := newClient addr), b_next := Suc cl,
                 b_clients := b_clients b @ [cl],
                 b_primary := (if b_primary b = None then Some cl else b_primary b)\<rparr>
      in (cl, PublishStatus E b1))"

primrec remove_each :: "'a env_scheme \<Rightarrow> cid list \<Rightarrow> broker \<Rightarrow> broker" where
  "remove_each E [] b = b"
| "remove_each E (cl # cls) b = remove_each E cls (removeClient E cl b)"

definition CloseAll :: "'a env_scheme \<Rightarrow> broker \<Rightarrow> broker" where
  "CloseAll E b = remove_each E (snapshotClients E b) b"

end
