(* ===== verification/Canned.thy ===== *)
theory Canned
  imports BrokerState
begin

text \<open>
  Predefined messages (\<open>internal/broker/canned.go\<close>): the parser of the firmware's
  pipe-delimited text, the waiters keyed by packet id, the cache with its two-minute
  life, and \<open>FetchCannedMessages\<close>, split at its blocking \<open>select\<close> into a part that
  sends the request and a part that takes the outcome.
\<close>

section \<open>Parsing\<close>

definition ParseCannedMessages :: "string \<Rightarrow> string list" where
  "ParseCannedMessages raw =
     (let raw = TrimSpace raw in
      if raw = '''' then []
      else filter (\<lambda>p. p \<noteq> '''') (map TrimSpace (split_on (CHR ''|'') raw)))"

lemma ParseCannedMessages_clean:
  "m \<in> set (ParseCannedMessages raw) \<Longrightarrow> m \<noteq> '''' \<and> trimmed m \<and> CHR ''|'' \<notin> set m"
proof -
  assume "m \<in> set (ParseCannedMessages raw)"
  then obtain p where p: "p \<in> set (split_on (CHR ''|'') (TrimSpace raw))"
    and m: "m = TrimSpace p" "m \<noteq> ''''"
    by (auto simp: ParseCannedMessages_def Let_def split: if_splits)
  from split_on_no_sep [OF p] TrimSpace_infix [of p] have "CHR ''|'' \<notin> set (TrimSpace p)"
    by (metis in_set_conv_decomp Un_iff set_append)
  with m TrimSpace_trimmed show ?thesis by blast
qed

lemma prefix_before_bar:
  assumes "CHR ''|'' \<notin> set p" and "prefix p (m @ CHR ''|'' # r)"
  shows "prefix p m"
proof (cases "length p \<le> length m")
  case True
  with assms(2) show ?thesis
    by (metis prefix_def prefix_length_prefix)
next
  case False
  from assms(2) obtain z where z: "m @ CHR ''|'' # r = p @ z" by (auto simp: prefix_def)
  from False have "length m < length p" by simp
  then have "p ! length m = (m @ CHR ''|'' # r) ! length m"
    unfolding z by (simp add: nth_append)
  also have "\<dots> = CHR ''|''" by simp
  finally have "CHR ''|'' \<in> set p"
    using \<open>length m < length p\<close> by (metis nth_mem)
  with assms(1) show ?thesis by blast
qed

lemma starts_clean_bar:
  assumes "starts_clean ps m" and "\<forall>p \<in> set ps. CHR ''|'' \<notin> set p"
  shows "starts_clean ps (m @ CHR ''|'' # r)"
  using assms prefix_before_bar unfolding starts_clean_def by blast

lemma trimmed_bar:
  assumes "trimmed m" and "trimmed (r :: string)" and "r \<noteq> ''''"
  shows "trimmed (m @ CHR ''|'' # r)"
proof -
  have bars: "\<forall>p \<in> set space_runes. CHR ''|'' \<notin> set p"
    "\<forall>p \<in> set (map rev space_runes). CHR ''|'' \<notin> set p"
    using space_runes_no_bar by auto
  from assms(1) bars(1) have "starts_clean space_runes (m @ CHR ''|'' # r)"
    by (simp add: trimmed_def starts_clean_bar)
  moreover from assms(2) bars(2)
  have "starts_clean (map rev space_runes) (rev r @ CHR ''|'' # rev m)"
    unfolding trimmed_def by (intro starts_clean_bar) auto
  ultimately show ?thesis by (simp add: trimmed_def)
qed

lemma join_with_nonempty:
  "ms \<noteq> [] \<Longrightarrow> list_all (\<lambda>m. m \<noteq> []) ms \<Longrightarrow> join_with c ms \<noteq> []"
  by (induction c ms rule: join_with.induct) auto

lemma trimmed_join:
  "ms \<noteq> [] \<Longrightarrow> list_all (\<lambda>m. m \<noteq> [] \<and> trimmed m) ms \<Longrightarrow> trimmed (join_with (CHR ''|'') ms)"
proof (induction "CHR ''|''" ms rule: join_with.induct)
  case (3 p q ps)
  then have "list_all (\<lambda>m. m \<noteq> []) (q # ps)" by (auto simp: list_all_iff)
  then have "join_with (CHR ''|'') (q # ps) \<noteq> []" by (intro join_with_nonempty) auto
  with 3 show ?case by (auto intro: trimmed_bar)
qed auto

text \<open>Parsing the pipe-joined text of clean messages gives the messages back.\<close>

lemma ParseCannedMessages_join:
  assumes "list_all (\<lambda>m. m \<noteq> '''' \<and> trimmed m \<and> CHR ''|'' \<notin> set m) ms"
  shows "ParseCannedMessages (join_with (CHR ''|'') ms) = ms"
proof (cases "ms = []")
  case True
  then show ?thesis by (simp add: ParseCannedMessages_def)
next
  case False
  have "list_all (\<lambda>m. m \<noteq> [] \<and> trimmed m) ms" "list_all (\<lambda>m. m \<noteq> []) ms"
    using assms by (auto simp: list_all_iff)
  with False have "trimmed (join_with (CHR ''|'') ms)" "join_with (CHR ''|'') ms \<noteq> ''''"
    using trimmed_join join_with_nonempty by blast+
  moreover have "split_on (CHR ''|'') (join_with (CHR ''|'') ms) = ms"
    using False assms by (intro split_join) (auto simp: list_all_iff)
  moreover have "map TrimSpace ms = ms" "filter (\<lambda>p. p \<noteq> '''') ms = ms"
    using assms by (auto simp: list_all_iff TrimSpace_id intro!: map_idI filter_True)
  ultimately show ?thesis by (simp add: ParseCannedMessages_def TrimSpace_id)
qed

section \<open>Admin packets that carry canned messages\<close>

definition extractCannedFromPacket :: "'a env_scheme \<Rightarrow> MeshPacket option \<Rightarrow> string option" where
  "extractCannedFromPacket E pkt =
     (case pkt of
        None \<Rightarrow> None
      | Some _ \<Rightarrow>
          (case MeshPacket_GetDecoded pkt of
             None \<Rightarrow> None
           | Some d \<Rightarrow>
               if Data_Portnum d \<noteq> PortNum_ADMIN_APP then None
               else (case unmarshal_AdminMessage E (Data_Payload d) of
                   Some (Some (AdminMessage_GetCannedMessageModuleMessagesResponse s)) \<Rightarrow> Some s
                 | _ \<Rightarrow> None)))"

section \<open>Waiters and cache\<close>

definition registerCannedWait :: "u32 \<Rightarrow> broker \<Rightarrow> nat \<times> broker" where
  "registerCannedWait pktID b =
     (let ch = b_nextchan b in
      (ch, b\<lparr>b_nextchan := Suc ch, b_chans := (b_chans b)(ch := make_chan 1),
             b_cannedWaiters := AList.update pktID ch (b_cannedWaiters b)\<rparr>))"

definition unregisterCannedWait :: "u32 \<Rightarrow> broker \<Rightarrow> broker" where
  "unregisterCannedWait pktID b =
     b\<lparr>b_cannedWaiters := AList.delete pktID (b_cannedWaiters b)\<rparr>"

definition storeCannedCache :: "string list \<Rightarrow> broker \<Rightarrow> broker" where
  "storeCannedCache msgs b = b\<lparr>b_cannedCache := msgs, b_cannedCacheAt := b_now b\<rparr>"

definition cachedCanned :: "broker \<Rightarrow> string list \<times> broker" where
  "cachedCanned b =
     (if b_cannedCache b = [] then ([], b)
      else if 120 * 1000000000 < b_now b - b_cannedCacheAt b then ([], b\<lparr>b_cannedCache := []\<rparr>)
      else (b_cannedCache b, b))"

definition tryDeliverCanned ::
  "'a env_scheme \<Rightarrow> MeshPacket option \<Rightarrow> broker \<Rightarrow> bool \<times> broker" where
  "tryDeliverCanned E pkt b =
     (case extractCannedFromPacket E pkt of
        None \<Rightarrow> (False, b)
      | Some raw \<Rightarrow>
          (case map_of (b_cannedWaiters b) (MeshPacket_GetId pkt) of
             None \<Rightarrow> (False, b)
           | Some ch \<Rightarrow>
               let msgs = ParseCannedMessages raw;
                   b1 = b\<lparr>b_chans := (b_chans b)(ch := snd (chan_offer msgs (b_chans b ch)))\<rparr>
               in (True, storeCannedCache msgs b1)))"

section \<open>FetchCannedMessages\<close>

text \<open>The id of \<open>nextPacketID\<close> (\<open>chat.go\<close>); the outputs of the random source may end.\<close>

definition nextPacketID :: "broker \<Rightarrow> (u32 \<times> broker) option" where
  "nextPacketID b =
     (case b_rand b of
        [] \<Rightarrow> None
      | RandErr _ # ds \<Rightarrow> Some (1, b\<lparr>b_rand := ds\<rparr>)
      | RandOk v # ds \<Rightarrow> Some (if v = 0 then 1 else v, b\<lparr>b_rand := ds\<rparr>))"

definition canned_request :: "u32 \<Rightarrow> u32 \<Rightarrow> bytes \<Rightarrow> MeshPacket" where
  "canned_request from pktID adminPayload =
     zero_MeshPacket\<lparr>MeshPacket_From := from, MeshPacket_To := 0, MeshPacket_Id := pktID,
       MeshPacket_Variant := Some (MeshPacket_Decoded (Some (zero_Data\<lparr>
         Data_Portnum := PortNum_ADMIN_APP, Data_Payload := adminPayload,
         Data_WantResponse := True\<rparr>)))\<rparr>"

datatype fetch_state =
    FetchDone "go_error + string list"
  | FetchWaiting u32 nat   \<comment> \<open>the packet id and the channel waited on\<close>

definition FetchCanned_begin :: "'a env_scheme \<Rightarrow> broker \<Rightarrow> (fetch_state \<times> broker) option" where
  "FetchCanned_begin E b =
     (case cachedCanned b of (cached, b1) \<Rightarrow>
       if cached \<noteq> [] then Some (FetchDone (Inr cached), b1)
       else if b_done b1 then Some (FetchDone (Inl ErrSerialNotReady), b1)
       else (case LocalNodeNum E b1 of (from, ok) \<Rightarrow>
         if \<not> ok then Some (FetchDone (Inl ErrNodeIDUnknown), b1)
         else (case nextPacketID b1 of
             None \<Rightarrow> None
           | Some (pktID, b2) \<Rightarrow>
               (case registerCannedWait pktID b2 of (ch, b3) \<Rightarrow>
                 (case marshal_AdminMessage E
                        (Some (AdminMessage_GetCannedMessageModuleMessagesRequest True)) of
                    None \<Rightarrow> Some (FetchDone (Inl ErrMarshal), unregisterCannedWait pktID b3)
                  | Some adminPayload \<Rightarrow>
                      (case forwardToSerial E (mk_ToRadio (ToRadio_Packet
                             (Some (canned_request from pktID adminPayload)))) b3 of
                         (Some e, b4) \<Rightarrow> Some (FetchDone (Inl e), unregisterCannedWait pktID b4)
                       | (None, b4) \<Rightarrow> Some (FetchWaiting pktID ch, b4)))))))"

text \<open>
  How long the \<open>select\<close> may take: four seconds, or what is left of the caller's deadline when that is
  less. A deadline that has passed is left to the context's own case.
\<close>

definition cannedFetchTimeout :: int where "cannedFetchTimeout = 4 * 1000000000"

definition fetch_timeout :: "int option \<Rightarrow> int" where
  "fetch_timeout remaining =
     (case remaining of
        Some r \<Rightarrow> if 0 < r \<and> r < cannedFetchTimeout then r else cannedFetchTimeout
      | None \<Rightarrow> cannedFetchTimeout)"

lemma fetch_timeout_bounds:
  "0 < fetch_timeout r" "fetch_timeout r \<le> cannedFetchTimeout" "0 < d \<Longrightarrow> fetch_timeout (Some d) \<le> d"
  by (auto simp: fetch_timeout_def cannedFetchTimeout_def split: option.split)

datatype fetch_case = FetchCtxDone go_error | FetchBrokerDone | FetchTimer | FetchResponse

text \<open>The \<open>select\<close> at the end and the deferred \<open>unregisterCannedWait\<close>.\<close>

definition fetch_enabled :: "fetch_case \<Rightarrow> nat \<Rightarrow> broker \<Rightarrow> bool" where
  "fetch_enabled w ch b \<longleftrightarrow>
     (case w of
        FetchCtxDone _ \<Rightarrow> True
      | FetchBrokerDone \<Rightarrow> b_done b
      | FetchTimer \<Rightarrow> True
      | FetchResponse \<Rightarrow> chan_buf (b_chans b ch) \<noteq> [])"

definition FetchCanned_end ::
  "fetch_case \<Rightarrow> u32 \<Rightarrow> nat \<Rightarrow> broker \<Rightarrow> (go_error + string list) \<times> broker" where
  "FetchCanned_end w pktID ch b =
     (case w of
        FetchCtxDone e \<Rightarrow> (Inl e, unregisterCannedWait pktID b)
      | FetchBrokerDone \<Rightarrow> (Inl ErrSerialNotReady, unregisterCannedWait pktID b)
      | FetchTimer \<Rightarrow> (Inl ErrCannedUnavailable, unregisterCannedWait pktID b)
      | FetchResponse \<Rightarrow>
          (case chan_recv (b_chans b ch) of
             (RecvValue msgs, c) \<Rightarrow>
               (if msgs = [] then Inl ErrCannedUnavailable else Inr msgs,
                unregisterCannedWait pktID (b\<lparr>b_chans := (b_chans b)(ch := c)\<rparr>))
           | (_, c) \<Rightarrow> (Inl ErrCannedUnavailable, unregisterCannedWait pktID b)))"

section \<open>Properties\<close>

text \<open>
  Parsing the firmware's text undoes joining: messages that are not empty, carry
  no pipe and no space at their ends come back as they were, and whatever is parsed
  consists of such messages only.
\<close>

lemma canned_roundtrip:
  assumes "list_all (\<lambda>m. m \<noteq> '''' \<and> trimmed m \<and> CHR ''|'' \<notin> set m) ms"
  shows "ParseCannedMessages (join_with (CHR ''|'') ms) = ms \<and>
    list_all (\<lambda>m. m \<noteq> '''' \<and> trimmed m \<and> CHR ''|'' \<notin> set m) (ParseCannedMessages raw)"
  using ParseCannedMessages_join [OF assms] ParseCannedMessages_clean by (auto simp: list_all_iff)

lemma canned_roundtrip_witness:
  "ParseCannedMessages ''on my way|yes'' = [''on my way'', ''yes'']"
proof -
  have "join_with (CHR ''|'') [''on my way'', ''yes''] = ''on my way|yes''" by simp
  moreover have "TrimSpace ''on my way'' = ''on my way''" "TrimSpace ''yes'' = ''yes''" by code_simp+
  then have "trimmed ''on my way''" "trimmed ''yes''" by (metis TrimSpace_trimmed)+
  ultimately show ?thesis
    using canned_roundtrip [of "[''on my way'', ''yes'']" "''''"] by simp
qed

end
