(* ===== verification/Broker.thy ===== *)
theory Broker
  imports Canned
begin

text \<open>
  The handlers of the broker (\<open>internal/broker/broker.go\<close>, \<open>chat.go\<close>): what happens
  to a frame from the radio, to a frame from a TCP client, to a text message from
  the web UI, and at start-up. Each is the whole handler, composed of the operations
  of \<open>BrokerState\<close> and \<open>Canned\<close> in the order of the source. A handler's result is
  \<^const>\<open>None\<close> only while \<open>reserveConfigRequest\<close> (or \<open>nextPacketID\<close>) is still
  drawing when the listed outputs of the random source end.
\<close>

section \<open>Frames from the radio\<close>

definition handleConfigComplete :: "'a env_scheme \<Rightarrow> u32 \<Rightarrow> broker \<Rightarrow> broker" where
  "handleConfigComplete E wireID b =
     (case takeConfigRequest wireID b of
        (None, b1) \<Rightarrow> b1
      | (Some req, b1) \<Rightarrow>
          (case cr_client req of
             None \<Rightarrow> PublishStatus E b1
           | Some cl \<Rightarrow>
               (case marshal_FromRadio E
                       (mk_FromRadio (FromRadio_ConfigCompleteId (cr_originalID req))) of
                  None \<Rightarrow> b1
                | Some data \<Rightarrow> sendToClient E cl data b1)))"

text \<open>The loop of \<open>handleRebooted\<close> over the requests that were in flight.\<close>

primrec reissue :: "'a env_scheme \<Rightarrow> (u32, configRequest) gomap \<Rightarrow> broker \<Rightarrow> broker option" where
  "reissue E [] b = Some b"
| "reissue E (kr # old) b =
     (let req = snd kr in
      if (case cr_client req of None \<Rightarrow> False | Some cl \<Rightarrow> isClosed (the_client b cl))
      then reissue E old b
      else (case reserveConfigRequest (cr_client req) (cr_originalID req) b of
          None \<Rightarrow> None
        | Some (newID, b1) \<Rightarrow>
            (case forwardToSerial E (mk_ToRadio (ToRadio_WantConfigId newID)) b1 of
               (Some err, b2) \<Rightarrow> Some (fail (Some err) b2)
             | (None, b2) \<Rightarrow> reissue E old b2)))"

definition handleRebooted :: "'a env_scheme \<Rightarrow> broker \<Rightarrow> broker option" where
  "handleRebooted E b =
     (let b1 = b\<lparr>b_cache := cache_reset (b_cache b)\<rparr>;
          old = b_pendingConfig b1
      in reissue E (e_pending_order E old) (b1\<lparr>b_pendingConfig := []\<rparr>))"

definition routeFromRadio :: "'a env_scheme \<Rightarrow> FromRadio \<Rightarrow> broker \<Rightarrow> (bool \<times> broker) option" where
  "routeFromRadio E frame b =
     (case FromRadio_Variant frame of
        Some (FromRadio_ConfigCompleteId wireID) \<Rightarrow> Some (True, handleConfigComplete E wireID b)
      | Some (FromRadio_Rebooted _) \<Rightarrow> map_option (\<lambda>b1. (True, b1)) (handleRebooted E b)
      | _ \<Rightarrow> Some (False, b))"

text \<open>The body of the loop of \<open>readSerial\<close>, for one payload.\<close>

definition handleSerialPayload :: "'a env_scheme \<Rightarrow> bytes \<Rightarrow> broker \<Rightarrow> broker option" where
  "handleSerialPayload E payload b =
     (let b1 = logDecodedPayload ''serial -> broker'' '''' payload payloadFromRadio b in
      case unmarshal_FromRadio E payload of
        None \<Rightarrow> Some b1
      | Some msg \<Rightarrow>
          let b2 = b1\<lparr>b_cache := cache_update msg payload (b_cache b1)\<rparr> in
          (case routeFromRadio E msg b2 of
             None \<Rightarrow> None
           | Some (True, b3) \<Rightarrow> Some b3
           | Some (False, b3) \<Rightarrow>
               let pkt = FromRadio_GetPacket msg in
               if pkt \<noteq> None then
                 (case tryDeliverCanned E pkt b3 of
                    (True, b4) \<Rightarrow> Some b4
                  | (False, b4) \<Rightarrow>
                      (case consumeOutboundOrigin pkt b4 of
                         (Some origin, b5) \<Rightarrow>
                           Some (if \<not> packetSuppressesOriginEcho pkt
                                 then sendToClient E origin payload b5 else b5)
                       | (None, b5) \<Rightarrow> Some (broadcast E payload b5)))
               else Some (broadcast E payload b3)))"

text \<open>
  \<open>readSerial\<close> on the bytes pending at the serial link: \<open>done\<close> is checked before every
  frame, an invalid frame is skipped, and a read error ends the loop and is sent to
  \<open>Run\<close> as \<open>ErrSerialClosed\<close>. The result is the state, the error if one was sent,
  and what is left unread.
\<close>

function readSerial ::
  "'a env_scheme \<Rightarrow> reader \<Rightarrow> broker \<Rightarrow> (broker \<times> go_error option \<times> reader) option" where
  "readSerial E rd b =
     (if b_done b then Some (b, None, rd)
      else (case ReadFrame rd of
          (Inl (ErrInvalidFrame _), rd1) \<Rightarrow> readSerial E rd1 b
        | (Inl (IOErr _), rd1) \<Rightarrow> Some (b, Some ErrSerialClosed, rd1)
        | (Inr payload, rd1) \<Rightarrow>
            (case handleSerialPayload E payload b of
               None \<Rightarrow> None
             | Some b1 \<Rightarrow> readSerial E rd1 b1)))"
  by pat_completeness auto
termination
proof (relation "measure (\<lambda>(E, rd, b). length (fst rd))", goal_cases)
  case 1
  show ?case by simp
next
  case (2 E rd b x rd1 e len)
  then show ?case using ReadFrame_consumes [of "fst rd" "snd rd" x rd1] by auto
next
  case (3 E rd b x rd1 payload b1)
  then show ?case using ReadFrame_consumes [of "fst rd" "snd rd" x rd1] by auto
qed

declare readSerial.simps [simp del]

section \<open>Frames from a TCP client\<close>

text \<open>
  The frames \<open>sendCachedConfig\<close> sends, one blocking send after the other: the
  snapshot, then \<open>ConfigCompleteId\<close> with the client's own id. The sends themselves
  are steps of the system, since other goroutines run while they wait.
\<close>

definition sendCachedConfig :: "'a env_scheme \<Rightarrow> u32 \<Rightarrow> broker \<Rightarrow> bytes list" where
  "sendCachedConfig E requestID b =
     snapshot_payloads (cache_snapshot (b_cache b)) @
     (case marshal_FromRadio E (mk_FromRadio (FromRadio_ConfigCompleteId requestID)) of
        None \<Rightarrow> []
      | Some data \<Rightarrow> [data])"

definition forward_or_fail :: "'a env_scheme \<Rightarrow> ToRadio \<Rightarrow> broker \<Rightarrow> broker" where
  "forward_or_fail E toRadio b =
     (case forwardToSerial E toRadio b of
        (Some err, b1) \<Rightarrow> fail (Some err) b1
      | (None, b1) \<Rightarrow> b1)"

definition handleWantConfig ::
  "'a env_scheme \<Rightarrow> cid \<Rightarrow> ToRadio \<Rightarrow> u32 \<Rightarrow> broker \<Rightarrow> (broker \<times> bytes list) option" where
  "handleWantConfig E cl toRadio originalID b =
     (if \<not> cache_ready (b_cache b) then
        (case reserveConfigRequest (Some cl) originalID (dropPendingForClient cl b) of
           None \<Rightarrow> None
         | Some (newID, b1) \<Rightarrow>
             Some (forward_or_fail E
               (toRadio\<lparr>ToRadio_Variant := Some (ToRadio_WantConfigId newID)\<rparr>) b1, []))
      else Some (b, sendCachedConfig E originalID b))"

text \<open>
  What follows the forwarding of a packet: the sender is noted, the packet is announced to the others. The
  forwarding has ended by then, so the radio may already have answered.
\<close>

definition announcePacket :: "'a env_scheme \<Rightarrow> cid \<Rightarrow> MeshPacket option \<Rightarrow> broker \<Rightarrow> broker" where
  "announcePacket E cl pkt b =
     (let b1 = noteOutboundPacket cl pkt b in
      case marshal_FromRadio E (mk_FromRadio (FromRadio_Packet pkt)) of
        None \<Rightarrow> b1
      | Some broadcastPayload \<Rightarrow> broadcastExcept E broadcastPayload (Some cl) b1)"

definition handleClientPacket ::
  "'a env_scheme \<Rightarrow> cid \<Rightarrow> ToRadio \<Rightarrow> MeshPacket option \<Rightarrow> broker \<Rightarrow> broker" where
  "handleClientPacket E cl toRadio pkt b =
     (if isPrimary cl b \<or> \<not> b_readOnlyClients b then
        (case forwardToSerial E toRadio b of
           (Some err, b1) \<Rightarrow> fail (Some err) b1
         | (None, b1) \<Rightarrow> announcePacket E cl pkt b1)
      else warnReadOnlyClient cl b)"

definition handleClientPayload ::
  "'a env_scheme \<Rightarrow> cid \<Rightarrow> bytes \<Rightarrow> broker \<Rightarrow> (broker \<times> bytes list) option" where
  "handleClientPayload E cl payload b =
     (case unmarshal_ToRadio E payload of
        None \<Rightarrow>
          Some (if isPrimary cl b
                then (case writeSerial E payload b of
                        (Some serialErr, b1) \<Rightarrow> fail (Some serialErr) b1
                      | (None, b1) \<Rightarrow> b1)
                else b, [])
      | Some toRadio \<Rightarrow>
          (case ToRadio_Variant toRadio of
             Some (ToRadio_WantConfigId originalID) \<Rightarrow>
               handleWantConfig E cl toRadio originalID b
           | Some (ToRadio_Disconnect _) \<Rightarrow> Some (removeClient E cl b, [])
           | Some (ToRadio_Packet pkt) \<Rightarrow> Some (handleClientPacket E cl toRadio pkt b, [])
           | _ \<Rightarrow>
               Some (if isPrimary cl b \<or> \<not> b_readOnlyClients b
                     then forward_or_fail E toRadio b
                     else warnReadOnlyClient cl b, [])))"

text \<open>One turn of \<open>readLoop\<close> with a frame; a read error removes the client.\<close>

definition readLoop_frame ::
  "'a env_scheme \<Rightarrow> cid \<Rightarrow> bytes \<Rightarrow> broker \<Rightarrow> (broker \<times> bytes list) option" where
  "readLoop_frame E cl payload b =
     handleClientPayload E cl payload
       (logDecodedPayload ''client -> broker'' (cl_addr (the_client b cl)) payload payloadToRadio b)"

text \<open>
  The same turn up to the end of the forwarding, when the frame is a packet that may be and could be
  forwarded: what is still to be announced, and the state.
\<close>

definition readLoop_forward ::
  "'a env_scheme \<Rightarrow> cid \<Rightarrow> bytes \<Rightarrow> broker \<Rightarrow> (MeshPacket option \<times> broker) option" where
  "readLoop_forward E cl payload b =
     (let b1 = logDecodedPayload ''client -> broker'' (cl_addr (the_client b cl)) payload payloadToRadio b in
      case unmarshal_ToRadio E payload of
        None \<Rightarrow> None
      | Some toRadio \<Rightarrow>
          (case ToRadio_Variant toRadio of
             Some (ToRadio_Packet pkt) \<Rightarrow>
               if isPrimary cl b1 \<or> \<not> b_readOnlyClients b1 then
                 (case forwardToSerial E toRadio b1 of
                    (None, b2) \<Rightarrow> Some (pkt, b2)
                  | (Some _, _) \<Rightarrow> None)
               else None
           | _ \<Rightarrow> None))"

lemma readLoop_forward_announce:
  assumes "readLoop_forward E cl payload b = Some (pkt, b2)"
  shows "readLoop_frame E cl payload b = Some (announcePacket E cl pkt b2, [])"
  using assms
  by (auto simp: readLoop_forward_def readLoop_frame_def handleClientPayload_def handleClientPacket_def Let_def
      split: option.splits ToRadio_PayloadVariant.splits if_splits prod.splits)

section \<open>The write loop of a client\<close>

text \<open>
  \<open>writeLoop\<close> writes the frame to a \<open>bufio.Writer\<close> of 4096 bytes, empty at the start
  of a turn, and flushes it: the connection sees one \<open>Write\<close>, or two when the frame
  does not fit. A short count is an error of \<open>Flush\<close> (and comes with an error of its
  own, as \<open>io.Writer\<close> documents), so the next call is made only after a full one.
\<close>

definition bufio_calls :: "bytes \<Rightarrow> bytes list" where
  "bufio_calls buf =
     (if length buf \<le> 4096 then [buf] else [take 4096 buf, drop 4096 buf])"

primrec conn_writes :: "writer \<Rightarrow> bytes \<Rightarrow> bytes list \<Rightarrow> bool \<times> bytes" where
  "conn_writes w wire [] = (True, wire)"
| "conn_writes w wire (buf # bufs) =
     (case w wire buf of
        (n, err) \<Rightarrow>
          if err = None \<and> n = int (length buf) then conn_writes w (wire @ buf) bufs
          else (False, wire @ take (nat n) buf))"

text \<open>
  One turn of \<open>writeLoop\<close> that takes a payload from the queue; an error removes the
  client and ends the loop. The connection is a writer \<open>w\<close> that has taken \<open>wire\<close> so
  far. The result says whether the loop goes on.
\<close>

definition writeLoop_turn ::
  "'a env_scheme \<Rightarrow> writer \<Rightarrow> cid \<Rightarrow> bytes \<Rightarrow> broker \<Rightarrow> (bool \<times> bytes \<times> broker) option" where
  "writeLoop_turn E w cl wire b =
     (case chan_recv (cl_send (the_client b cl)) of
        (RecvValue payload, ch) \<Rightarrow>
          let b1 = set_client cl ((the_client b cl)\<lparr>cl_send := ch\<rparr>) b in
          (case WriteFrame buffer_writer [] payload of
             (Some _, _) \<Rightarrow> Some (False, wire, removeClient E cl b1)
           | (None, buffered) \<Rightarrow>
               (case conn_writes w wire (bufio_calls buffered) of
                  (True, wire') \<Rightarrow> Some (True, wire', b1)
                | (False, wire') \<Rightarrow> Some (False, wire', removeClient E cl b1)))
      | _ \<Rightarrow> None)"

lemma conn_writes_True: "conn_writes w wire bufs = (True, wire') \<Longrightarrow> wire' = wire @ concat bufs"
  by (induction bufs arbitrary: wire) (fastforce split: prod.splits if_splits)+

lemma concat_bufio_calls [simp]: "concat (bufio_calls buf) = buf"
  by (simp add: bufio_calls_def)

section \<open>Start-up and text messages\<close>

definition bootstrapConfig :: "'a env_scheme \<Rightarrow> broker \<Rightarrow> broker option" where
  "bootstrapConfig E b =
     (if \<not> b_observability b \<or> cache_ready (b_cache b) then Some b
      else if list_ex (\<lambda>(k, req). cr_client req = None) (b_pendingConfig b) then Some b
      else (case reserveConfigRequest None 1 b of
          None \<Rightarrow> None
        | Some (newID, b1) \<Rightarrow>
            Some (forward_or_fail E (mk_ToRadio (ToRadio_WantConfigId newID)) b1)))"

definition BroadcastNode :: u32 where "BroadcastNode = 0xFFFFFFFF"
definition maxTextLen :: nat where "maxTextLen = 200"

definition text_packet :: "u32 \<Rightarrow> u32 \<Rightarrow> i32 \<Rightarrow> u32 \<Rightarrow> string \<Rightarrow> MeshPacket" where
  "text_packet from to channelIndex pktID text =
     zero_MeshPacket\<lparr>MeshPacket_From := from, MeshPacket_To := to,
       MeshPacket_Channel := channelIndex, MeshPacket_Id := pktID, MeshPacket_HopLimit := 3,
       MeshPacket_WantAck := True,
       MeshPacket_Variant := Some (MeshPacket_Decoded (Some (zero_Data\<lparr>
         Data_Portnum := PortNum_TEXT_MESSAGE_APP, Data_Payload := bytes_of_string text\<rparr>)))\<rparr>"

definition SendTextMessage ::
  "'a env_scheme \<Rightarrow> i32 \<Rightarrow> u32 \<Rightarrow> string \<Rightarrow> broker \<Rightarrow> ((go_error + u32) \<times> broker) option" where
  "SendTextMessage E channelIndex to text b =
     (if b_done b then Some (Inl ErrSerialNotReady, b)
      else
        let text = TrimSpace text in
        if text = '''' then Some (Inl ErrEmptyMessage, b)
        else if maxTextLen < length text then Some (Inl (ErrMessageTooLong (length text)), b)
        else if sint channelIndex < 0 then Some (Inl (ErrInvalidChannel (sint channelIndex)), b)
        else (case LocalNodeNum E b of (from, ok) \<Rightarrow>
          if \<not> ok then Some (Inl ErrNodeIDUnknown, b)
          else (case nextPacketID b of
              None \<Rightarrow> None
            | Some (pktID, b1) \<Rightarrow>
                let pkt = text_packet from to channelIndex pktID text in
                (case forwardToSerial E (mk_ToRadio (ToRadio_Packet (Some pkt))) b1 of
                   (Some err, b2) \<Rightarrow> Some (Inl err, b2)
                 | (None, b2) \<Rightarrow>
                     Some (Inr pktID,
                       (case marshal_FromRadio E (mk_FromRadio (FromRadio_Packet (Some pkt))) of
                          None \<Rightarrow> b2
                        | Some data \<Rightarrow> broadcast E data b2))))))"

end
