(* ===== verification/BrokerInv.thy ===== *)
theory BrokerInv
  imports Broker
begin

text \<open>
  The well-formedness invariant of the broker and its preservation by every
  operation and handler. It is a conjunction of one predicate per group of fields
  (clients, pending requests, outbound packets, canned waiters, error); the frame
  lemmas, collected as \<open>frame\<close>, say which fields an operation leaves alone.
\<close>

named_theorems frame "fields an operation does not change"

section \<open>The invariant\<close>

definition clients_inv :: "broker \<Rightarrow> bool" where
  "clients_inv b \<longleftrightarrow>
     distinct (b_clients b) \<and>
     (\<forall>cl \<in> set (b_clients b). cl < b_next b \<and> \<not> cl_done (the_client b cl)) \<and>
     (\<forall>cl < b_next b. cl \<notin> set (b_clients b) \<longrightarrow> cl_done (the_client b cl)) \<and>
     (\<forall>cl. client_ok (the_client b cl)) \<and>
     (b_primary b = None \<longrightarrow> b_clients b = []) \<and>
     (\<forall>p. b_primary b = Some p \<longrightarrow> p \<in> set (b_clients b))"

definition pending_inv :: "broker \<Rightarrow> bool" where
  "pending_inv b \<longleftrightarrow>
     gomap_ok (b_pendingConfig b) \<and> 0 \<notin> fst ` set (b_pendingConfig b) \<and>
     (\<forall>k req cl. (k, req) \<in> set (b_pendingConfig b) \<longrightarrow> cr_client req = Some cl \<longrightarrow> cl < b_next b) \<and>
     distinct (map (\<lambda>p. cr_client (snd p)) (b_pendingConfig b))"

definition outbound_inv :: "broker \<Rightarrow> bool" where
  "outbound_inv b \<longleftrightarrow>
     gomap_ok (b_outboundByPacket b) \<and> 0 \<notin> fst ` set (b_outboundByPacket b) \<and>
     (\<forall>k e. (k, e) \<in> set (b_outboundByPacket b) \<longrightarrow>
        (\<exists>cl < b_next b. oe_client e = Some cl) \<and> oe_until e \<le> b_now b + outboundEchoSuppress)"

definition canned_inv :: "broker \<Rightarrow> bool" where
  "canned_inv b \<longleftrightarrow>
     gomap_ok (b_cannedWaiters b) \<and> (\<forall>ch \<in> snd ` set (b_cannedWaiters b). ch < b_nextchan b) \<and>
     (\<forall>ch. chan_ok (b_chans b ch) \<and> chan_cap (b_chans b ch) = 1 \<and> \<not> chan_closed (b_chans b ch))"

definition error_inv :: "broker \<Rightarrow> bool" where
  "error_inv b \<longleftrightarrow> (b_done b \<longleftrightarrow> b_err b \<noteq> None)"

definition broker_inv :: "broker \<Rightarrow> bool" where
  "broker_inv b \<longleftrightarrow>
     clients_inv b \<and> pending_inv b \<and> outbound_inv b \<and> canned_inv b \<and> error_inv b \<and>
     cache_ok (b_cache b)"

lemmas inv_defs = clients_inv_def pending_inv_def outbound_inv_def canned_inv_def error_inv_def

lemma broker_inv_New: "broker_inv (New ro obs now rnd)"
  by (simp add: broker_inv_def inv_defs New_def cache_ok_new make_chan_def chan_ok_def)

text \<open>Only the fields a conjunct names matter to it.\<close>

lemma broker_inv_hub [simp]: "broker_inv (b\<lparr>b_hub := h\<rparr>) = broker_inv b"
  by (simp add: broker_inv_def inv_defs)

lemma broker_inv_rand [simp]: "broker_inv (b\<lparr>b_rand := r\<rparr>) = broker_inv b"
  by (simp add: broker_inv_def inv_defs)

lemma broker_inv_serial [simp]: "broker_inv (b\<lparr>b_serial_out := out\<rparr>) = broker_inv b"
  by (simp add: broker_inv_def inv_defs)

lemma broker_inv_canned_cache [simp]:
  "broker_inv (b\<lparr>b_cannedCache := ms\<rparr>) = broker_inv b"
  "broker_inv (b\<lparr>b_cannedCache := ms, b_cannedCacheAt := t\<rparr>) = broker_inv b"
  by (simp_all add: broker_inv_def inv_defs)

lemma broker_inv_cache:
  "broker_inv b \<Longrightarrow> cache_ok c \<Longrightarrow> broker_inv (b\<lparr>b_cache := c\<rparr>)"
  by (simp add: broker_inv_def inv_defs)

lemma broker_inv_pending:
  "broker_inv b \<Longrightarrow> pending_inv (b\<lparr>b_pendingConfig := m\<rparr>) \<Longrightarrow> broker_inv (b\<lparr>b_pendingConfig := m\<rparr>)"
  by (simp add: broker_inv_def inv_defs)

lemma broker_inv_tick: "broker_inv b \<Longrightarrow> 0 \<le> d \<Longrightarrow> broker_inv (b\<lparr>b_now := b_now b + d\<rparr>)"
  by (fastforce simp: broker_inv_def inv_defs)

section \<open>Frames\<close>

lemma logDecodedPayload_hub: "\<exists>h. logDecodedPayload d a p k b = b\<lparr>b_hub := h\<rparr>"
  by (cases k) (auto simp: logDecodedPayload_def intro: exI [of _ "b_hub b"])

lemma PublishStatus_hub: "\<exists>h. PublishStatus E b = b\<lparr>b_hub := h\<rparr>"
  by (auto simp: PublishStatus_def intro: exI [of _ "b_hub b"])

lemma logDecodedPayload_inv [simp]: "broker_inv (logDecodedPayload d a p k b) = broker_inv b"
  using logDecodedPayload_hub [of d a p k b] by auto

lemma PublishStatus_inv [simp]: "broker_inv (PublishStatus E b) = broker_inv b"
  using PublishStatus_hub [of E b] by auto

text \<open>
  \<open>core b\<close> blanks the client heap, the registration, the pending requests and the
  hub calls. \<open>removeClient\<close> and everything built on it leaves the core as it was.
\<close>

definition core :: "broker \<Rightarrow> broker" where
  "core b = b\<lparr>b_heap := (\<lambda>_. newClient ''''), b_clients := [], b_primary := None,
              b_pendingConfig := [], b_hub := []\<rparr>"

lemma core_fields:
  assumes "core b' = core b"
  shows "b_serial_out b' = b_serial_out b" "b_next b' = b_next b" "b_cache b' = b_cache b"
    "b_readOnlyClients b' = b_readOnlyClients b" "b_observability b' = b_observability b"
    "b_outboundByPacket b' = b_outboundByPacket b" "b_cannedWaiters b' = b_cannedWaiters b"
    "b_chans b' = b_chans b" "b_nextchan b' = b_nextchan b" "b_cannedCache b' = b_cannedCache b"
    "b_cannedCacheAt b' = b_cannedCacheAt b" "b_done b' = b_done b" "b_err b' = b_err b"
    "b_now b' = b_now b" "b_rand b' = b_rand b"
  using assms by (cases b; cases b'; simp add: core_def)+

lemma core_log [simp]: "core (logDecodedPayload d a p k b) = core b"
  using logDecodedPayload_hub [of d a p k b] by (auto simp: core_def)

lemma core_publish [simp]: "core (PublishStatus E b) = core b"
  using PublishStatus_hub [of E b] by (auto simp: core_def)

lemma core_set_client [simp]: "core (set_client cl c b) = core b"
  by (simp add: core_def set_client_def)

lemma core_dropPending [simp]: "core (dropPendingForClient cl b) = core b"
  by (simp add: core_def dropPendingForClient_def)

lemma core_removeClient [simp]: "core (removeClient E cl b) = core b"
  by (simp add: removeClient_def Let_def) (simp add: core_def)

lemma core_disconnectSlow [simp]: "core (disconnectSlowClient E cl b) = core b"
  by (simp add: disconnectSlowClient_def)

lemma core_warnReadOnly [simp]: "core (warnReadOnlyClient cl b) = core b"
  by (simp add: warnReadOnlyClient_def)

lemma core_sendToClient [simp]: "core (sendToClient E cl p b) = core b"
  by (simp add: sendToClient_def split: prod.split bool.split)

lemma core_sendToClientBlocking [simp]: "core (snd (sendToClientBlocking E w cl p b)) = core b"
  by (simp add: sendToClientBlocking_def split: prod.split bool.split)

lemma core_send_each [simp]: "core (send_each E p except cls b) = core b"
  by (induction cls arbitrary: b) simp_all

lemma core_broadcastExcept [simp]: "core (broadcastExcept E p except b) = core b"
  by (simp add: broadcastExcept_def)

lemma core_broadcast [simp]: "core (broadcast E p b) = core b"
  by (simp add: broadcast_def)

lemma core_remove_each [simp]: "core (remove_each E cls b) = core b"
  by (induction cls arbitrary: b) simp_all

lemma core_CloseAll [simp]: "core (CloseAll E b) = core b"
  by (simp add: CloseAll_def)

lemmas core_frame [frame, simp] =
  core_fields [OF core_log] core_fields [OF core_publish] core_fields [OF core_set_client]
  core_fields [OF core_dropPending] core_fields [OF core_removeClient]
  core_fields [OF core_disconnectSlow] core_fields [OF core_warnReadOnly]
  core_fields [OF core_sendToClient] core_fields [OF core_sendToClientBlocking]
  core_fields [OF core_send_each] core_fields [OF core_broadcastExcept]
  core_fields [OF core_broadcast] core_fields [OF core_remove_each]
  core_fields [OF core_CloseAll]

text \<open>The fields outside the core, for the operations that keep most of them.\<close>

lemma log_fields [frame, simp]:
  "b_heap (logDecodedPayload d a p k b) = b_heap b"
  "b_clients (logDecodedPayload d a p k b) = b_clients b"
  "b_primary (logDecodedPayload d a p k b) = b_primary b"
  "b_pendingConfig (logDecodedPayload d a p k b) = b_pendingConfig b"
  using logDecodedPayload_hub [of d a p k b] by auto

lemma publish_fields [frame, simp]:
  "b_heap (PublishStatus E b) = b_heap b" "b_clients (PublishStatus E b) = b_clients b"
  "b_primary (PublishStatus E b) = b_primary b"
  "b_pendingConfig (PublishStatus E b) = b_pendingConfig b"
  using PublishStatus_hub [of E b] by auto

lemma set_client_fields [frame, simp]:
  "b_heap (set_client cl c b) = (b_heap b)(cl := c)"
  "b_clients (set_client cl c b) = b_clients b" "b_primary (set_client cl c b) = b_primary b"
  "b_pendingConfig (set_client cl c b) = b_pendingConfig b"
  "b_hub (set_client cl c b) = b_hub b"
  by (simp_all add: set_client_def)

lemma dropPending_fields [frame, simp]:
  "b_heap (dropPendingForClient cl b) = b_heap b"
  "b_clients (dropPendingForClient cl b) = b_clients b"
  "b_primary (dropPendingForClient cl b) = b_primary b"
  "b_hub (dropPendingForClient cl b) = b_hub b"
  by (simp_all add: dropPendingForClient_def)

lemma removeClient_fields [frame, simp]:
  "b_clients (removeClient E cl b) = remove1 cl (b_clients b)"
  "b_heap (removeClient E cl b) = (b_heap b)(cl := client_close (the_client b cl))"
  "b_pendingConfig (removeClient E cl b) =
     filter (\<lambda>(k, req). cr_client req \<noteq> Some cl) (b_pendingConfig b)"
  by (simp_all add: removeClient_def Let_def remove1_idem) (simp_all add: dropPendingForClient_def)

lemma removeClient_primary:
  "b_primary (removeClient E cl b) =
     (if b_primary b = Some cl
      then (case e_client_order E (remove1 cl (b_clients b)) of [] \<Rightarrow> None | c # _ \<Rightarrow> Some c)
      else b_primary b)"
  by (simp add: removeClient_def Let_def remove1_idem)

section \<open>Preservation: clients\<close>

lemma broker_inv_core:
  assumes "broker_inv b" and "core b' = core b" and "clients_inv b'" and "pending_inv b'"
  shows "broker_inv b'"
  using assms core_fields [OF assms(2)]
  by (simp add: broker_inv_def outbound_inv_def canned_inv_def error_inv_def)

lemma pending_inv_filter:
  "pending_inv b \<Longrightarrow> b_pendingConfig b' = filter P (b_pendingConfig b) \<Longrightarrow>
   b_next b \<le> b_next b' \<Longrightarrow> pending_inv b'"
  by (fastforce simp: pending_inv_def distinct_map_filter)

lemma pending_inv_same:
  "pending_inv b \<Longrightarrow> b_pendingConfig b' = b_pendingConfig b \<Longrightarrow>
   b_next b' = b_next b \<Longrightarrow> pending_inv b'"
  by (simp add: pending_inv_def)

lemma inv_set_client:
  assumes "broker_inv b" and "client_ok c" and "cl_done c = cl_done (the_client b cl)"
  shows "broker_inv (set_client cl c b)"
proof (rule broker_inv_core [OF assms(1)])
  show "clients_inv (set_client cl c b)"
    using assms by (auto simp: broker_inv_def clients_inv_def)
  show "pending_inv (set_client cl c b)"
    using assms(1) by (auto simp: broker_inv_def intro: pending_inv_same)
qed simp

lemma inv_dropPending:
  assumes "broker_inv b"
  shows "broker_inv (dropPendingForClient cl b)"
proof (rule broker_inv_core [OF assms])
  show "clients_inv (dropPendingForClient cl b)"
    using assms by (auto simp: broker_inv_def clients_inv_def)
  have "pending_inv b" using assms by (simp add: broker_inv_def)
  then show "pending_inv (dropPendingForClient cl b)"
    by (rule pending_inv_filter) (auto simp: dropPendingForClient_def)
qed simp

lemma order_Cons:
  assumes "env_ok E" and "e_client_order E xs = c # cs"
  shows "c \<in> set xs"
  using env_ok_client_order(1) [OF assms(1), of xs] assms(2) by (metis list.set_intros(1))

lemma order_Nil: "env_ok E \<Longrightarrow> e_client_order E xs = [] \<longleftrightarrow> xs = []"
  using env_ok_client_order(2) [of E xs] by (metis length_0_conv)

lemma clients_inv_removeClient:
  assumes "env_ok E" and "clients_inv b"
  shows "clients_inv (removeClient E cl b)"
proof -
  let ?b = "removeClient E cl b"
  note I = assms(2) [unfolded clients_inv_def]
  have "set (b_clients ?b) = set (b_clients b) - {cl}" "distinct (b_clients ?b)"
    using I by simp_all
  moreover have "b_primary ?b = None \<longrightarrow> b_clients ?b = []"
    using I by (auto simp: removeClient_primary order_Nil [OF assms(1)] split: list.splits if_splits)
  moreover have "p \<in> set (b_clients ?b)" if "b_primary ?b = Some p" for p
    using I that by (auto simp: removeClient_primary dest: order_Cons [OF assms(1)]
        split: list.splits if_splits)
  moreover have "cl_done (the_client ?b c) \<longleftrightarrow> c = cl \<or> cl_done (the_client b c)" for c
    by simp
  moreover have "client_ok (the_client ?b c)" for c
    using I by simp
  ultimately show ?thesis
    using I by (simp add: clients_inv_def) blast
qed

lemma inv_removeClient [intro]:
  assumes "env_ok E" and "broker_inv b"
  shows "broker_inv (removeClient E cl b)"
proof (rule broker_inv_core [OF assms(2)])
  show "clients_inv (removeClient E cl b)"
    using clients_inv_removeClient [OF assms(1)] assms(2) by (simp add: broker_inv_def)
  have "pending_inv b" using assms by (simp add: broker_inv_def)
  then show "pending_inv (removeClient E cl b)"
    by (rule pending_inv_filter) auto
qed simp

lemma inv_client_ok: "broker_inv b \<Longrightarrow> client_ok (the_client b cl)"
  by (simp add: broker_inv_def clients_inv_def)

lemma inv_disconnectSlow [intro]:
  "env_ok E \<Longrightarrow> broker_inv b \<Longrightarrow> broker_inv (disconnectSlowClient E cl b)"
  by (auto simp: disconnectSlowClient_def intro!: inv_removeClient inv_set_client inv_client_ok
      client_ok_markSlow)

lemma inv_warnReadOnly [intro]: "broker_inv b \<Longrightarrow> broker_inv (warnReadOnlyClient cl b)"
  by (auto simp: warnReadOnlyClient_def intro!: inv_set_client inv_client_ok client_ok_markReadOnly)

lemma send_ok_done:
  "enqueue p c = (True, c') \<Longrightarrow> cl_done c' = cl_done c \<and> (client_ok c \<longrightarrow> client_ok c')"
  using client_done_ops(1) [of p c] client_ok_enqueue [of c p] by simp

lemma send_timeout_done:
  "enqueueWithTimeout w p c = (r, c') \<Longrightarrow> cl_done c' = cl_done c \<and> (client_ok c \<longrightarrow> client_ok c')"
  using client_done_ops(2) [of w p c] client_ok_enqueueWithTimeout [of c w p] by simp

lemma inv_sendToClient [intro]:
  assumes "env_ok E" and "broker_inv b"
  shows "broker_inv (sendToClient E cl p b)"
proof (cases "enqueue p (the_client b cl)")
  case (Pair r c)
  with assms send_ok_done inv_client_ok [OF assms(2)] show ?thesis
    by (cases r) (auto simp: sendToClient_def intro!: inv_set_client inv_disconnectSlow)
qed

lemma inv_sendToClientBlocking [intro]:
  assumes "env_ok E" and "broker_inv b"
  shows "broker_inv (snd (sendToClientBlocking E w cl p b))"
proof (cases "enqueueWithTimeout w p (the_client b cl)")
  case (Pair r c)
  with assms send_timeout_done inv_client_ok [OF assms(2)] show ?thesis
    by (cases r) (auto simp: sendToClientBlocking_def intro!: inv_set_client inv_disconnectSlow)
qed

lemma inv_send_each: "env_ok E \<Longrightarrow> broker_inv b \<Longrightarrow> broker_inv (send_each E p except cls b)"
  by (induction cls arbitrary: b) (simp_all add: inv_sendToClient)

lemma inv_broadcastExcept [intro]:
  "env_ok E \<Longrightarrow> broker_inv b \<Longrightarrow> broker_inv (broadcastExcept E p except b)"
  by (simp add: broadcastExcept_def inv_send_each)

lemma inv_broadcast [intro]: "env_ok E \<Longrightarrow> broker_inv b \<Longrightarrow> broker_inv (broadcast E p b)"
  by (simp add: broadcast_def inv_broadcastExcept)

lemma inv_remove_each: "env_ok E \<Longrightarrow> broker_inv b \<Longrightarrow> broker_inv (remove_each E cls b)"
  by (induction cls arbitrary: b) (simp_all add: inv_removeClient)

lemma inv_CloseAll [intro]: "env_ok E \<Longrightarrow> broker_inv b \<Longrightarrow> broker_inv (CloseAll E b)"
  by (simp add: CloseAll_def inv_remove_each)

lemma inv_fail [intro]: "broker_inv b \<Longrightarrow> broker_inv (fail e b)"
  by (simp add: fail_def broker_inv_def inv_defs)

lemma inv_AddClient [intro]:
  assumes "broker_inv b"
  shows "broker_inv (snd (AddClient E addr b))"
proof -
  have old: "clients_inv b" "pending_inv b" "outbound_inv b"
    using assms by (simp_all add: broker_inv_def)
  have new: "\<not> cl_done (newClient addr)" by (simp add: newClient_def)
  have "clients_inv (snd (AddClient E addr b))"
    using old(1) new by (auto simp: AddClient_def Let_def clients_inv_def less_Suc_eq)
  moreover have "pending_inv (snd (AddClient E addr b))"
    using old(2) by (auto simp: AddClient_def Let_def pending_inv_def less_Suc_eq)
  moreover have "outbound_inv (snd (AddClient E addr b))"
    using old(3) by (fastforce simp: AddClient_def Let_def outbound_inv_def less_Suc_eq)
  ultimately show ?thesis
    using assms by (simp add: broker_inv_def AddClient_def Let_def canned_inv_def error_inv_def)
qed

section \<open>Preservation: tables and the serial link\<close>

lemma inv_noteOutbound [intro]:
  assumes "broker_inv b" and "cl < b_next b"
  shows "broker_inv (noteOutboundPacket cl pkt b)"
proof (cases "pkt = None \<or> MeshPacket_GetId pkt = 0")
  case True
  with assms(1) show ?thesis by (simp add: noteOutboundPacket_def)
next
  case False
  define live where "live = filter (\<lambda>(k, entry). \<not> oe_until entry < b_now b) (b_outboundByPacket b)"
  define e where "e = \<lparr>oe_client = Some cl, oe_until = b_now b + outboundEchoSuppress\<rparr>"
  have eq: "noteOutboundPacket cl pkt b =
      b\<lparr>b_outboundByPacket := AList.update (MeshPacket_GetId pkt) e live\<rparr>"
    using False by (auto simp: noteOutboundPacket_def live_def e_def Let_def)
  have O: "outbound_inv b" using assms(1) by (simp add: broker_inv_def)
  have upd: "set (AList.update k e m) \<subseteq> insert (k, e) (set m)" for k :: u32 and m
    by (induction m) auto
  have "outbound_inv (noteOutboundPacket cl pkt b)"
    unfolding outbound_inv_def eq
  proof (intro conjI allI impI)
    show "gomap_ok (b_outboundByPacket (b\<lparr>b_outboundByPacket := AList.update (MeshPacket_GetId pkt) e live\<rparr>))"
      using O by (simp add: outbound_inv_def live_def)
    show "0 \<notin> fst ` set (b_outboundByPacket (b\<lparr>b_outboundByPacket := AList.update (MeshPacket_GetId pkt) e live\<rparr>))"
      using O False by (auto simp: outbound_inv_def live_def image_iff)
  next
    fix k x
    assume "(k, x) \<in> set (b_outboundByPacket
      (b\<lparr>b_outboundByPacket := AList.update (MeshPacket_GetId pkt) e live\<rparr>))"
    then have "x = e \<or> (k, x) \<in> set (b_outboundByPacket b)"
      by (auto simp: live_def dest!: subsetD [OF upd])
    then show "\<exists>cl < b_next (b\<lparr>b_outboundByPacket := AList.update (MeshPacket_GetId pkt) e live\<rparr>).
        oe_client x = Some cl"
      and "oe_until x \<le> b_now (b\<lparr>b_outboundByPacket := AList.update (MeshPacket_GetId pkt) e live\<rparr>)
        + outboundEchoSuppress"
      using O assms(2) by (auto simp: outbound_inv_def e_def)
  qed
  then show ?thesis using assms(1) by (simp add: eq broker_inv_def inv_defs)
qed

lemma inv_outbound_delete:
  "broker_inv b \<Longrightarrow>
   broker_inv (b\<lparr>b_outboundByPacket := AList.delete k (b_outboundByPacket b)\<rparr>)"
  by (simp add: broker_inv_def clients_inv_def pending_inv_def canned_inv_def error_inv_def)
    (auto simp: outbound_inv_def set_delete_conv image_iff)

lemma inv_consumeOutbound [intro]:
  "broker_inv b \<Longrightarrow> broker_inv (snd (consumeOutboundOrigin pkt b))"
  by (auto simp: consumeOutboundOrigin_def Let_def inv_outbound_delete split: option.splits)

lemma pick_nonce_fresh:
  "pick_nonce ds m = Some (v, rest) \<Longrightarrow> v \<noteq> 0 \<and> v \<notin> fst ` set m"
  by (induction ds m rule: pick_nonce.induct) (auto split: if_splits simp: map_of_None_iff)

definition owners :: "broker \<Rightarrow> cid option list" where
  "owners b = map (\<lambda>p. cr_client (snd p)) (b_pendingConfig b)"

lemma update_fresh: "k \<notin> fst ` set m \<Longrightarrow> AList.update k v m = m @ [(k, v)]"
  by (induction m) auto

lemma reserve_fields:
  assumes "reserveConfigRequest cl original b = Some (newID, b1)"
  shows "newID \<noteq> 0" "newID \<notin> fst ` set (b_pendingConfig b)"
    "b_pendingConfig b1 =
       b_pendingConfig b @ [(newID, \<lparr>cr_client = cl, cr_originalID = original\<rparr>)]"
    "owners b1 = owners b @ [cl]"
    "b1 = b\<lparr>b_rand := b_rand b1, b_pendingConfig := b_pendingConfig b1\<rparr>"
proof -
  from assms obtain rest where
    pick: "pick_nonce (b_rand b) (b_pendingConfig b) = Some (newID, rest)"
    and b1: "b1 = b\<lparr>b_rand := rest, b_pendingConfig :=
      AList.update newID \<lparr>cr_client = cl, cr_originalID = original\<rparr> (b_pendingConfig b)\<rparr>"
    by (auto simp: reserveConfigRequest_def split: option.splits)
  from pick_nonce_fresh [OF pick] show f: "newID \<noteq> 0" "newID \<notin> fst ` set (b_pendingConfig b)"
    by simp_all
  with b1 show "b_pendingConfig b1 =
      b_pendingConfig b @ [(newID, \<lparr>cr_client = cl, cr_originalID = original\<rparr>)]"
    by (simp add: update_fresh)
  then show "owners b1 = owners b @ [cl]" by (simp add: owners_def)
  show "b1 = b\<lparr>b_rand := b_rand b1, b_pendingConfig := b_pendingConfig b1\<rparr>"
    by (simp add: b1)
qed

lemma reserve_frame [frame]:
  assumes "reserveConfigRequest cl original b = Some (newID, b1)"
  shows "b_heap b1 = b_heap b" "b_next b1 = b_next b" "b_clients b1 = b_clients b"
    "b_primary b1 = b_primary b" "b_cache b1 = b_cache b" "b_done b1 = b_done b"
    "b_readOnlyClients b1 = b_readOnlyClients b" "b_serial_out b1 = b_serial_out b"
    "b_now b1 = b_now b" "b_hub b1 = b_hub b" "b_outboundByPacket b1 = b_outboundByPacket b"
    "b_observability b1 = b_observability b" "b_err b1 = b_err b"
  by (subst reserve_fields(5) [OF assms], simp)+

lemma broker_inv_rand_pending:
  "broker_inv (b\<lparr>b_rand := r, b_pendingConfig := m\<rparr>) = broker_inv (b\<lparr>b_pendingConfig := m\<rparr>)"
  by (simp add: broker_inv_def inv_defs)

lemma inv_reserve:
  assumes "reserveConfigRequest cl original b = Some (newID, b1)" and "broker_inv b"
    and "cl \<notin> set (owners b)" and "\<And>c. cl = Some c \<Longrightarrow> c < b_next b"
  shows "broker_inv b1"
proof -
  note r = reserve_fields [OF assms(1)]
  have P: "pending_inv b" using assms(2) by (simp add: broker_inv_def)
  have "pending_inv (b\<lparr>b_pendingConfig := b_pendingConfig b1\<rparr>)"
    using P r(1,2) assms(3,4)
    by (auto simp: pending_inv_def r(3) gomap_ok_def owners_def image_iff)
  then have "broker_inv (b\<lparr>b_pendingConfig := b_pendingConfig b1\<rparr>)"
    using assms(2) by (rule broker_inv_pending [rotated])
  then show ?thesis by (subst r(5)) (simp add: broker_inv_rand_pending)
qed

lemma AList_delete_filter: "AList.delete k m = filter (\<lambda>p. fst p \<noteq> k) m"
  by (induction m) auto

lemma inv_take [intro]:
  assumes "broker_inv b"
  shows "broker_inv (snd (takeConfigRequest wireID b))"
proof (cases "map_of (b_pendingConfig b) wireID")
  case None
  with assms show ?thesis by (simp add: takeConfigRequest_def)
next
  case (Some req)
  let ?b = "b\<lparr>b_pendingConfig := AList.delete wireID (b_pendingConfig b)\<rparr>"
  have "pending_inv b" using assms by (simp add: broker_inv_def)
  then have "pending_inv ?b"
    by (rule pending_inv_filter [where P = "\<lambda>p. fst p \<noteq> wireID"]) (simp_all add: AList_delete_filter)
  with assms have "broker_inv ?b" by (rule broker_inv_pending)
  with Some show ?thesis by (simp add: takeConfigRequest_def)
qed

lemma writeSerial_hub: "\<exists>h out. snd (writeSerial E p b) = b\<lparr>b_hub := h, b_serial_out := out\<rparr>"
proof (cases "b_done b")
  case True
  then show ?thesis
    by (intro exI [of _ "b_hub b"] exI [of _ "b_serial_out b"]) (simp add: writeSerial_def)
next
  case False
  obtain h where "logDecodedPayload ''broker -> serial'' '''' p payloadToRadio b = b\<lparr>b_hub := h\<rparr>"
    using logDecodedPayload_hub by blast
  with False show ?thesis
    by (auto simp: writeSerial_def Let_def split: prod.split option.split)
qed

lemma forward_hub: "\<exists>h out. snd (forwardToSerial E t b) = b\<lparr>b_hub := h, b_serial_out := out\<rparr>"
proof (cases "marshal_ToRadio E t")
  case None
  then show ?thesis
    by (intro exI [of _ "b_hub b"] exI [of _ "b_serial_out b"]) (simp add: forwardToSerial_def)
qed (simp add: forwardToSerial_def writeSerial_hub)

lemma broker_inv_link [simp]: "broker_inv (b\<lparr>b_hub := h, b_serial_out := out\<rparr>) = broker_inv b"
  by (simp add: broker_inv_def inv_defs)

lemma inv_writeSerial [simp]: "broker_inv (snd (writeSerial E p b)) = broker_inv b"
  using writeSerial_hub [of E p b] by auto

lemma inv_forward [simp]: "broker_inv (snd (forwardToSerial E t b)) = broker_inv b"
  using forward_hub [of E t b] by auto

lemma forward_fields [frame, simp]:
  "b_heap (snd (forwardToSerial E t b)) = b_heap b"
  "b_next (snd (forwardToSerial E t b)) = b_next b"
  "b_clients (snd (forwardToSerial E t b)) = b_clients b"
  "b_primary (snd (forwardToSerial E t b)) = b_primary b"
  "b_cache (snd (forwardToSerial E t b)) = b_cache b"
  "b_readOnlyClients (snd (forwardToSerial E t b)) = b_readOnlyClients b"
  "b_pendingConfig (snd (forwardToSerial E t b)) = b_pendingConfig b"
  "b_outboundByPacket (snd (forwardToSerial E t b)) = b_outboundByPacket b"
  "b_done (snd (forwardToSerial E t b)) = b_done b"
  "b_err (snd (forwardToSerial E t b)) = b_err b"
  "b_now (snd (forwardToSerial E t b)) = b_now b"
  "b_rand (snd (forwardToSerial E t b)) = b_rand b"
  using forward_hub [of E t b] by auto

lemma inv_forward_or_fail [intro]: "broker_inv b \<Longrightarrow> broker_inv (forward_or_fail E t b)"
  using inv_forward [of E t b]
  by (cases "forwardToSerial E t b") (auto simp: forward_or_fail_def intro!: inv_fail split: option.split)

lemma owners_forward [simp]: "owners (snd (forwardToSerial E t b)) = owners b"
  by (simp add: owners_def)

end
