(* ===== verification/HandlerInv.thy ===== *)
theory HandlerInv
  imports BrokerInv
begin

text \<open>
  The invariant of \<open>BrokerInv\<close> is kept by the handlers: the canned message
  operations, a frame from the radio, a frame from a client, a turn of a write loop,
  the bootstrap request and a text message.
\<close>

section \<open>Preservation: canned messages\<close>

lemma broker_inv_canned:
  assumes "broker_inv b" and "canned_inv b'"
    and "b' = b\<lparr>b_cannedWaiters := b_cannedWaiters b', b_chans := b_chans b',
      b_nextchan := b_nextchan b'\<rparr>"
  shows "broker_inv b'"
proof -
  have "broker_inv (b\<lparr>b_cannedWaiters := b_cannedWaiters b', b_chans := b_chans b',
      b_nextchan := b_nextchan b'\<rparr>)"
    using assms(1,2) by (simp add: broker_inv_def inv_defs)
  with assms(3) show ?thesis by simp
qed

lemma make_chan_fields: "chan_cap (make_chan n) = n" "\<not> chan_closed (make_chan n)"
  by (simp_all add: make_chan_def)

lemma image_snd_update: "snd ` set (AList.update k v m) \<subseteq> insert v (snd ` set m)"
  by (induction m) auto

lemma inv_register [intro]:
  assumes "broker_inv b"
  shows "broker_inv (snd (registerCannedWait pktID b))"
proof (rule broker_inv_canned [OF assms])
  have C: "canned_inv b" using assms by (simp add: broker_inv_def)
  show "canned_inv (snd (registerCannedWait pktID b))"
    unfolding canned_inv_def
  proof (intro conjI ballI allI)
    show "gomap_ok (b_cannedWaiters (snd (registerCannedWait pktID b)))"
      using C by (simp add: registerCannedWait_def Let_def canned_inv_def)
  next
    fix ch assume "ch \<in> snd ` set (b_cannedWaiters (snd (registerCannedWait pktID b)))"
    then have "ch \<in> insert (b_nextchan b) (snd ` set (b_cannedWaiters b))"
      using image_snd_update [of pktID "b_nextchan b" "b_cannedWaiters b"]
      by (auto simp: registerCannedWait_def Let_def)
    then show "ch < b_nextchan (snd (registerCannedWait pktID b))"
      using C by (auto simp: registerCannedWait_def Let_def canned_inv_def less_Suc_eq)
  next
    fix ch
    show "chan_ok (b_chans (snd (registerCannedWait pktID b)) ch)"
      "chan_cap (b_chans (snd (registerCannedWait pktID b)) ch) = 1"
      "\<not> chan_closed (b_chans (snd (registerCannedWait pktID b)) ch)"
      using C by (simp_all add: registerCannedWait_def Let_def canned_inv_def make_chan_fields)
  qed
qed (simp add: registerCannedWait_def Let_def)

lemma inv_unregister [intro]:
  assumes "broker_inv b"
  shows "broker_inv (unregisterCannedWait pktID b)"
proof (rule broker_inv_canned [OF assms])
  show "canned_inv (unregisterCannedWait pktID b)"
    using assms
    by (auto simp: unregisterCannedWait_def broker_inv_def canned_inv_def AList_delete_filter)
qed (simp add: unregisterCannedWait_def)

lemma inv_chan:
  assumes "broker_inv b" and "chan_ok c" and "chan_cap c = 1" and "\<not> chan_closed c"
  shows "broker_inv (b\<lparr>b_chans := (b_chans b)(ch := c)\<rparr>)"
proof (rule broker_inv_canned [OF assms(1)])
  show "canned_inv (b\<lparr>b_chans := (b_chans b)(ch := c)\<rparr>)"
    using assms by (simp add: broker_inv_def canned_inv_def)
qed simp

lemma inv_chan_at:
  "broker_inv b \<Longrightarrow> chan_ok (b_chans b ch) \<and> chan_cap (b_chans b ch) = 1 \<and> \<not> chan_closed (b_chans b ch)"
  by (simp add: broker_inv_def canned_inv_def)

lemma inv_storeCanned [intro]: "broker_inv b \<Longrightarrow> broker_inv (storeCannedCache ms b)"
  by (simp add: storeCannedCache_def)

lemma inv_cachedCanned [intro]: "broker_inv b \<Longrightarrow> broker_inv (snd (cachedCanned b))"
  by (simp add: cachedCanned_def)

lemma inv_tryDeliver [intro]:
  assumes "broker_inv b"
  shows "broker_inv (snd (tryDeliverCanned E pkt b))"
proof -
  have "broker_inv (b\<lparr>b_chans := (b_chans b)(ch := snd (chan_offer ms (b_chans b ch)))\<rparr>)" for ch ms
    using inv_chan_at [OF assms, of ch] assms
    by (intro inv_chan)
      (auto simp: chan_offer_def chan_try_send_def chan_ok_def split: prod.split send_result.split)
  then show ?thesis
    using assms by (auto simp: tryDeliverCanned_def Let_def intro!: inv_storeCanned split: option.split)
qed

lemma inv_nextPacketID: "nextPacketID b = Some (v, b1) \<Longrightarrow> broker_inv b1 = broker_inv b"
  by (auto simp: nextPacketID_def split: list.splits rand_draw.splits)

lemma inv_FetchEnd [intro]:
  assumes "broker_inv b"
  shows "broker_inv (snd (FetchCanned_end w pktID ch b))"
proof -
  have "broker_inv (b\<lparr>b_chans := (b_chans b)(ch := snd (chan_recv (b_chans b ch)))\<rparr>)"
    using inv_chan_at [OF assms, of ch] assms
    by (intro inv_chan)
      (auto simp: chan_recv_def chan_ok_def split: list.split)
  moreover have "snd (chan_recv c) = c" if "\<forall>v. fst (chan_recv c) \<noteq> RecvValue v" for c :: "'x chan"
    using that by (auto simp: chan_recv_def split: list.splits)
  ultimately show ?thesis
    using assms
    by (cases "chan_recv (b_chans b ch)")
      (auto simp: FetchCanned_end_def intro!: inv_unregister split: fetch_case.split recv_result.split)
qed

lemma inv_FetchBegin:
  assumes "FetchCanned_begin E b = Some (r, b')" and "broker_inv b"
  shows "broker_inv b'"
proof -
  obtain cached b1 where c: "cachedCanned b = (cached, b1)" by fastforce
  with assms(2) inv_cachedCanned have I1: "broker_inv b1" by (metis snd_conv)
  have reg: "broker_inv b3" if "nextPacketID b1 = Some (p, b2)" "registerCannedWait p b2 = (ch, b3)"
    for p b2 ch b3
    using that I1 inv_nextPacketID inv_register by (metis snd_conv)
  have fwd: "broker_inv b4" if "forwardToSerial E t b3 = (e, b4)" "broker_inv b3" for t e b3 b4
    using that inv_forward by (metis snd_conv)
  show ?thesis
    using assms(1) c I1
    by (auto simp: FetchCanned_begin_def intro!: inv_unregister dest: reg fwd
        split: if_splits prod.splits option.splits)
qed

section \<open>Preservation: frames from the radio\<close>

lemma pair_inv:
  "f = (x, b') \<Longrightarrow> broker_inv (snd f) \<Longrightarrow> broker_inv b'"
  by simp

lemma inv_handleConfigComplete [intro]:
  assumes "env_ok E" and "broker_inv b"
  shows "broker_inv (handleConfigComplete E wireID b)"
proof (cases "takeConfigRequest wireID b")
  case (Pair r b1)
  with pair_inv [OF Pair] assms(2) have "broker_inv b1" by blast
  with assms(1) Pair show ?thesis
    by (auto simp: handleConfigComplete_def intro!: inv_sendToClient split: option.split)
qed

text \<open>The owners of the requests still to re-issue are distinct and not pending.\<close>

lemma inv_reissue:
  assumes "reissue E old b = Some b'" and "broker_inv b"
    and "distinct (map (\<lambda>p. cr_client (snd p)) old @ owners b)"
    and "\<forall>(k, req) \<in> set old. \<forall>cl. cr_client req = Some cl \<longrightarrow> cl < b_next b"
  shows "broker_inv b'"
  using assms
proof (induction old arbitrary: b)
  case (Cons kr old)
  define req where "req = snd kr"
  show ?case
  proof (cases "case cr_client req of None \<Rightarrow> False | Some cl \<Rightarrow> isClosed (the_client b cl)")
    case True
    with Cons.prems(1) have "reissue E old b = Some b'" by (simp add: req_def)
    with Cons.prems show ?thesis by (intro Cons.IH) auto
  next
    case False
    from Cons.prems(1) obtain newID b1 where
      r: "reserveConfigRequest (cr_client req) (cr_originalID req) b = Some (newID, b1)"
      using False by (auto simp: req_def split: option.splits)
    have "broker_inv b1"
      using Cons.prems by (intro inv_reserve [OF r]) (auto simp: req_def split: prod.splits)
    note fresh = reserve_fields(4,5) [OF r]
    obtain e b2 where f: "forwardToSerial E (mk_ToRadio (ToRadio_WantConfigId newID)) b1 = (e, b2)"
      by fastforce
    with \<open>broker_inv b1\<close> have "broker_inv b2" using inv_forward by (metis snd_conv)
    have o2: "owners b2 = owners b @ [cr_client req]" and n2: "b_next b2 = b_next b"
      using f fresh owners_forward forward_fields(2) reserve_frame(2) [OF r] by (metis snd_conv)+
    show ?thesis
    proof (cases e)
      case None
      with Cons.prems(1) False r f have "reissue E old b2 = Some b'" by (simp add: req_def)
      moreover have "distinct (map (\<lambda>p. cr_client (snd p)) old @ owners b2)"
        using Cons.prems(3) by (auto simp: o2 req_def)
      ultimately show ?thesis
        using Cons.prems(4) \<open>broker_inv b2\<close> by (intro Cons.IH) (auto simp: n2)
    next
      case (Some err)
      with Cons.prems(1) False r f have "b' = fail (Some err) b2" by (simp add: req_def)
      with \<open>broker_inv b2\<close> show ?thesis by blast
    qed
  qed
qed simp

lemma broker_inv_reset: "broker_inv b \<Longrightarrow> broker_inv (b\<lparr>b_cache := cache_reset (b_cache b)\<rparr>)"
  by (rule broker_inv_cache) (simp_all add: broker_inv_def cache_ok_reset)

lemma inv_handleRebooted:
  assumes "handleRebooted E b = Some b'" and "env_ok E" and "broker_inv b"
  shows "broker_inv b'"
proof -
  let ?old = "b_pendingConfig b"
  let ?b = "b\<lparr>b_cache := cache_reset (b_cache b), b_pendingConfig := []\<rparr>"
  from assms(1) have r: "reissue E (e_pending_order E ?old) ?b = Some b'"
    by (simp add: handleRebooted_def Let_def)
  have m: "mset (e_pending_order E ?old) = mset ?old" using assms(2) by (simp add: env_ok_def)
  then have s: "set (e_pending_order E ?old) = set ?old" by (metis set_mset_mset)
  have P: "pending_inv b" using assms(3) by (simp add: broker_inv_def)
  have "pending_inv ?b" by (simp add: pending_inv_def)
  with broker_inv_reset [OF assms(3)] have I: "broker_inv ?b"
    using broker_inv_pending [of "b\<lparr>b_cache := cache_reset (b_cache b)\<rparr>" "[]"] by simp
  have "mset (map (\<lambda>p. cr_client (snd p)) (e_pending_order E ?old)) = mset (map (\<lambda>p. cr_client (snd p)) ?old)"
    by (simp add: m)
  then have "distinct (map (\<lambda>p. cr_client (snd p)) (e_pending_order E ?old))"
    using P unfolding pending_inv_def by (metis mset_eq_imp_distinct_iff)
  then show ?thesis
    using P by (intro inv_reissue [OF r I]) (auto simp: s owners_def pending_inv_def)
qed

lemma inv_routeFromRadio:
  assumes "routeFromRadio E frame b = Some (r, b')" and "env_ok E" and "broker_inv b"
  shows "broker_inv b'"
  using assms
  by (auto simp: routeFromRadio_def intro: inv_handleRebooted
      split: option.splits FromRadio_PayloadVariant.splits)

lemma inv_handleSerialPayload:
  assumes "handleSerialPayload E payload b = Some b'" and "env_ok E" and "broker_inv b"
    and "payload \<noteq> []"
  shows "broker_inv b'"
proof -
  define b1 where "b1 = logDecodedPayload ''serial -> broker'' '''' payload payloadFromRadio b"
  have I1: "broker_inv b1" using assms(3) by (simp add: b1_def)
  show ?thesis
  proof (cases "unmarshal_FromRadio E payload")
    case None
    with assms(1) I1 show ?thesis by (simp add: handleSerialPayload_def b1_def)
  next
    case (Some msg)
    define b2 where "b2 = b1\<lparr>b_cache := cache_update msg payload (b_cache b1)\<rparr>"
    have I2: "broker_inv b2"
      using I1 assms(4) unfolding b2_def
      by (intro broker_inv_cache) (simp_all add: broker_inv_def cache_ok_update)
    from assms(1) Some obtain r b3 where r: "routeFromRadio E msg b2 = Some (r, b3)"
      by (auto simp: handleSerialPayload_def Let_def b1_def b2_def split: option.splits)
    have I3: "broker_inv b3" using inv_routeFromRadio [OF r assms(2) I2] .
    let ?pkt = "FromRadio_GetPacket msg"
    obtain d b4 where d: "tryDeliverCanned E ?pkt b3 = (d, b4)" by fastforce
    with I3 have I4: "broker_inv b4" using inv_tryDeliver by (metis snd_conv)
    obtain o5 b5 where c: "consumeOutboundOrigin ?pkt b4 = (o5, b5)" by fastforce
    with I4 have I5: "broker_inv b5" using inv_consumeOutbound by (metis snd_conv)
    show ?thesis
      using assms(1) Some r d c I3 I4 I5 assms(2)
      by (auto simp: handleSerialPayload_def Let_def b1_def [symmetric] b2_def [symmetric]
          split: if_splits bool.splits option.splits)
  qed
qed

lemma ReadFrame_nonempty: "ReadFrame rd = (Inr p, rd') \<Longrightarrow> p \<noteq> []"
  using ReadFrame_sound [of "fst rd" "snd rd" p rd'] by (auto simp: frame_ok_def)

lemma inv_readSerial:
  "readSerial E rd b = Some (b', err, rd') \<Longrightarrow> env_ok E \<Longrightarrow> broker_inv b \<Longrightarrow> broker_inv b'"
proof (induction E rd b rule: readSerial.induct)
  case (1 E rd b)
  from "1.prems"(1) show ?case
    unfolding readSerial.simps [of E rd b]
    using "1.IH" "1.prems"(2,3) inv_handleSerialPayload [OF _ "1.prems"(2,3)] ReadFrame_nonempty [of rd]
    by (auto split: if_splits prod.splits sum.splits io_error.splits option.splits frame_error.splits)
qed

section \<open>Preservation: clients and the web UI\<close>

lemma fail_fields [frame, simp]:
  "b_next (fail e b) = b_next b" "b_heap (fail e b) = b_heap b"
  "b_clients (fail e b) = b_clients b" "b_primary (fail e b) = b_primary b"
  "b_serial_out (fail e b) = b_serial_out b" "b_cache (fail e b) = b_cache b"
  "b_pendingConfig (fail e b) = b_pendingConfig b" "b_now (fail e b) = b_now b"
  "b_hub (fail e b) = b_hub b" "b_outboundByPacket (fail e b) = b_outboundByPacket b"
  "b_rand (fail e b) = b_rand b"
  by (simp_all add: fail_def)

lemma pending_owner: "pending_inv b \<longleftrightarrow>
     gomap_ok (b_pendingConfig b) \<and> 0 \<notin> fst ` set (b_pendingConfig b) \<and>
     (\<forall>cl. Some cl \<in> set (owners b) \<longrightarrow> cl < b_next b) \<and> distinct (owners b)"
  by (force simp: pending_inv_def owners_def)

lemma owners_dropPending: "Some cl \<notin> set (owners (dropPendingForClient cl b))"
  by (auto simp: owners_def dropPendingForClient_def)

lemma inv_handleWantConfig:
  assumes "handleWantConfig E cl toRadio oid b = Some (b', ps)" and "broker_inv b"
    and "cl < b_next b"
  shows "broker_inv b'"
proof (cases "cache_ready (b_cache b)")
  case True
  with assms show ?thesis by (simp add: handleWantConfig_def)
next
  case False
  with assms(1) obtain newID b1 where
    r: "reserveConfigRequest (Some cl) oid (dropPendingForClient cl b) = Some (newID, b1)"
    and b': "b' = forward_or_fail E (toRadio\<lparr>ToRadio_Variant := Some (ToRadio_WantConfigId newID)\<rparr>) b1"
    by (auto simp: handleWantConfig_def split: option.splits)
  have "broker_inv b1"
    using inv_dropPending [OF assms(2)] owners_dropPending assms(3)
    by (intro inv_reserve [OF r]) auto
  with b' show ?thesis by blast
qed

lemma noteOutbound_core [frame, simp]:
  "b_next (noteOutboundPacket cl pkt b) = b_next b"
  "b_heap (noteOutboundPacket cl pkt b) = b_heap b"
  "b_clients (noteOutboundPacket cl pkt b) = b_clients b"
  "b_primary (noteOutboundPacket cl pkt b) = b_primary b"
  "b_serial_out (noteOutboundPacket cl pkt b) = b_serial_out b"
  "b_pendingConfig (noteOutboundPacket cl pkt b) = b_pendingConfig b"
  "b_cache (noteOutboundPacket cl pkt b) = b_cache b"
  "b_hub (noteOutboundPacket cl pkt b) = b_hub b"
  "b_observability (noteOutboundPacket cl pkt b) = b_observability b"
  by (simp_all add: noteOutboundPacket_def Let_def)

lemma inv_announcePacket:
  "env_ok E \<Longrightarrow> broker_inv b \<Longrightarrow> cl < b_next b \<Longrightarrow> broker_inv (announcePacket E cl pkt b)"
  by (auto simp: announcePacket_def Let_def intro!: inv_broadcastExcept inv_noteOutbound split: option.split)

lemma inv_handleClientPacket:
  assumes "env_ok E" and "broker_inv b" and "cl < b_next b"
  shows "broker_inv (handleClientPacket E cl toRadio pkt b)"
proof (cases "forwardToSerial E toRadio b")
  case (Pair e b1)
  then have "broker_inv b1" "b_next b1 = b_next b"
    using assms(2) inv_forward [of E toRadio b] forward_fields(2) [of E toRadio b] by simp_all
  with Pair assms show ?thesis
    by (auto simp: handleClientPacket_def intro!: inv_fail inv_announcePacket split: option.split)
qed

lemma inv_handleClientPayload:
  assumes "handleClientPayload E cl payload b = Some (b', ps)" and "env_ok E"
    and "broker_inv b" and "cl < b_next b"
  shows "broker_inv b'"
proof (cases "unmarshal_ToRadio E payload")
  case None
  obtain e b1 where w: "writeSerial E payload b = (e, b1)" by fastforce
  with assms(3) inv_writeSerial [of E payload b] have "broker_inv b1" by simp
  with assms None w show ?thesis
    by (cases e) (auto simp: handleClientPayload_def split: if_splits)
next
  case (Some toRadio)
  with assms show ?thesis
    by (auto simp: handleClientPayload_def intro: inv_handleWantConfig inv_handleClientPacket
        split: option.splits ToRadio_PayloadVariant.splits if_splits)
qed

lemma inv_readLoop_frame:
  "readLoop_frame E cl payload b = Some (b', ps) \<Longrightarrow> env_ok E \<Longrightarrow> broker_inv b \<Longrightarrow>
   cl < b_next b \<Longrightarrow> broker_inv b'"
  unfolding readLoop_frame_def by (erule inv_handleClientPayload) simp_all

lemma inv_readLoop_forward:
  assumes "readLoop_forward E cl payload b = Some (pkt, b')" and "broker_inv b"
  shows "broker_inv b'"
proof -
  let ?b = "logDecodedPayload ''client -> broker'' (cl_addr (the_client b cl)) payload payloadToRadio b"
  from assms(1) obtain t where f: "forwardToSerial E t ?b = (None, b')"
    by (auto simp: readLoop_forward_def Let_def
        split: option.splits ToRadio_PayloadVariant.splits if_splits prod.splits)
  have "broker_inv ?b" using assms(2) by simp
  with inv_forward [of E t ?b] f show ?thesis by simp
qed

lemma inv_writeLoop_turn:
  assumes "writeLoop_turn E w cl wire b = Some (ok, wire', b')" and "env_ok E" and "broker_inv b"
  shows "broker_inv b'"
proof -
  obtain r ch where r: "chan_recv (cl_send (the_client b cl)) = (r, ch)" by fastforce
  let ?c = "(the_client b cl)\<lparr>cl_send := ch\<rparr>"
  have "client_ok ?c"
    using r inv_client_ok [OF assms(3), of cl]
    by (auto simp: client_ok_def chan_recv_def chan_ok_def split: list.splits)
  then have I: "broker_inv (set_client cl ?c b)"
    by (intro inv_set_client assms(3)) simp_all
  with assms r show ?thesis
    by (auto simp: writeLoop_turn_def Let_def split: recv_result.splits prod.splits option.splits bool.splits)
qed

lemma inv_bootstrapConfig:
  assumes "bootstrapConfig E b = Some b'" and "broker_inv b"
  shows "broker_inv b'"
proof (cases "b' = b")
  case False
  with assms(1) obtain newID b1 where
    n: "\<not> list_ex (\<lambda>(k, req). cr_client req = None) (b_pendingConfig b)"
    and r: "reserveConfigRequest None 1 b = Some (newID, b1)"
    and b': "b' = forward_or_fail E (mk_ToRadio (ToRadio_WantConfigId newID)) b1"
    by (auto simp: bootstrapConfig_def split: if_splits option.splits)
  have "broker_inv b1"
    using n by (intro inv_reserve [OF r assms(2)]) (auto simp: owners_def list_ex_iff)
  with b' show ?thesis by blast
qed (use assms in simp)

lemma inv_SendTextMessage:
  assumes "SendTextMessage E ch dest text b = Some (r, b')" and "env_ok E" and "broker_inv b"
  shows "broker_inv b'"
proof (cases "b' = b")
  case False
  obtain src ok where l: "LocalNodeNum E b = (src, ok)" by fastforce
  with False assms(1) obtain pktID b1 where n: "nextPacketID b = Some (pktID, b1)"
    by (auto simp: SendTextMessage_def Let_def split: if_splits option.splits)
  let ?pkt = "text_packet src dest ch pktID (TrimSpace text)"
  obtain e b2 where f: "forwardToSerial E (mk_ToRadio (ToRadio_Packet (Some ?pkt))) b1 = (e, b2)"
    by fastforce
  have "broker_inv b1" using inv_nextPacketID [OF n] assms(3) by simp
  with f inv_forward [of E "mk_ToRadio (ToRadio_Packet (Some ?pkt))" b1] have "broker_inv b2" by simp
  with False assms l n f show ?thesis
    by (auto simp: SendTextMessage_def Let_def split: if_splits option.splits)
qed (use assms in simp)

end
