(* ===== verification/Delivery.thy ===== *)
theory Delivery
  imports HandlerInv "HOL-Library.Sublist"
begin

text \<open>
  What the operations do to the queues of the clients. Every operation but the
  receive of a write loop only appends to queues (\<open>queues_grow\<close>); the exact effect of
  a broadcast, of a targeted send and of a client's removal on each queue and on the
  set of live clients is stated here.
\<close>

section \<open>Queues only grow\<close>

abbreviation queue_of :: "broker \<Rightarrow> cid \<Rightarrow> bytes list" where
  "queue_of b cl \<equiv> client_queue (the_client b cl)"

definition queues_grow :: "broker \<Rightarrow> broker \<Rightarrow> bool" where
  "queues_grow b b' \<longleftrightarrow>
     b_next b \<le> b_next b' \<and> (\<forall>cl < b_next b. prefix (queue_of b cl) (queue_of b' cl))"

lemma queues_grow_refl [simp]: "queues_grow b b"
  by (simp add: queues_grow_def)

lemma queues_grow_trans: "queues_grow a b \<Longrightarrow> queues_grow b c \<Longrightarrow> queues_grow a c"
  unfolding queues_grow_def by (meson dual_order.trans order_less_le_trans prefix_order.trans)

lemma queues_grow_same: "b_heap b' = b_heap b \<Longrightarrow> b_next b' = b_next b \<Longrightarrow> queues_grow b b'"
  by (simp add: queues_grow_def)

lemma client_queue_ops [simp]:
  "client_queue (client_close c) = client_queue c"
  "client_queue (snd (markSlowWarning c)) = client_queue c"
  "client_queue (snd (markReadOnlyWarning c)) = client_queue c"
  by (simp_all add: client_close_def markSlowWarning_def markReadOnlyWarning_def)

lemma grow_set_client:
  "prefix (queue_of b cl) (client_queue c) \<Longrightarrow> queues_grow b (set_client cl c b)"
  by (simp add: queues_grow_def)

lemma grow_removeClient: "queues_grow b (removeClient E cl b)"
  by (simp add: queues_grow_def)

lemma queue_disconnectSlow [simp]: "queue_of (disconnectSlowClient E cl b) c = queue_of b c"
  by (simp add: disconnectSlowClient_def)

lemma grow_disconnectSlow: "queues_grow b (disconnectSlowClient E cl b)"
  by (simp add: queues_grow_def)

lemma grow_warnReadOnly: "queues_grow b (warnReadOnlyClient cl b)"
  by (simp add: queues_grow_def warnReadOnlyClient_def)

lemma queue_sendToClient:
  "queue_of (sendToClient E cl p b) c =
     (if c = cl \<and> fst (enqueue p (the_client b cl)) then queue_of b c @ [p] else queue_of b c)"
  using enqueue_queue [of p "the_client b cl"]
  by (cases "enqueue p (the_client b cl)") (auto simp: sendToClient_def split: bool.split)

lemma grow_sendToClient: "queues_grow b (sendToClient E cl p b)"
  by (simp add: queues_grow_def queue_sendToClient)

lemma queue_sendBlocking:
  "queue_of (snd (sendToClientBlocking E w cl p b)) c =
     (if c = cl then client_queue (snd (enqueueWithTimeout w p (the_client b cl))) else queue_of b c)"
  by (cases w)
    (auto simp: sendToClientBlocking_def enqueueWithTimeout_def split: bool.split prod.split)

lemma grow_sendBlocking: "queues_grow b (snd (sendToClientBlocking E w cl p b))"
  by (cases w) (auto simp: queues_grow_def queue_sendBlocking enqueueWithTimeout_def chan_try_send_def)

lemma grow_send_each: "queues_grow b (send_each E p except cls b)"
  by (induction cls arbitrary: b) (auto intro: queues_grow_trans grow_sendToClient)

lemma grow_broadcastExcept: "queues_grow b (broadcastExcept E p except b)"
  by (simp add: broadcastExcept_def grow_send_each)

lemma grow_broadcast: "queues_grow b (broadcast E p b)"
  by (simp add: broadcast_def grow_broadcastExcept)

lemma grow_remove_each: "queues_grow b (remove_each E cls b)"
  by (induction cls arbitrary: b) (auto intro: queues_grow_trans grow_removeClient)

lemma grow_CloseAll: "queues_grow b (CloseAll E b)"
  by (simp add: CloseAll_def grow_remove_each)

lemma grow_AddClient: "queues_grow b (snd (AddClient E addr b))"
  by (simp add: queues_grow_def AddClient_def Let_def)

lemma grow_fail: "queues_grow b (fail e b)"
  by (rule queues_grow_same) simp_all

lemma grow_forward: "queues_grow b (snd (forwardToSerial E t b))"
  by (rule queues_grow_same) simp_all

lemma grow_forward_or_fail: "queues_grow b (forward_or_fail E t b)"
  by (rule queues_grow_same; cases "forwardToSerial E t b")
    (use forward_fields(1,2) [of E t b] in \<open>auto simp: forward_or_fail_def split: option.split\<close>)

lemma grow_reserve: "reserveConfigRequest cl oid b = Some (v, b1) \<Longrightarrow> queues_grow b b1"
  by (rule queues_grow_same) (simp_all add: reserve_frame)

lemma take_frame [frame]:
  "b_heap (snd (takeConfigRequest wireID b)) = b_heap b"
  "b_next (snd (takeConfigRequest wireID b)) = b_next b"
  "b_clients (snd (takeConfigRequest wireID b)) = b_clients b"
  "b_serial_out (snd (takeConfigRequest wireID b)) = b_serial_out b"
  by (simp_all add: takeConfigRequest_def split: option.split)

lemma consume_frame [frame]:
  "b_heap (snd (consumeOutboundOrigin pkt b)) = b_heap b"
  "b_next (snd (consumeOutboundOrigin pkt b)) = b_next b"
  "b_clients (snd (consumeOutboundOrigin pkt b)) = b_clients b"
  "b_serial_out (snd (consumeOutboundOrigin pkt b)) = b_serial_out b"
  by (simp_all add: consumeOutboundOrigin_def Let_def split: option.split)

lemma canned_frame [frame]:
  "b_heap (snd (tryDeliverCanned E pkt b)) = b_heap b"
  "b_next (snd (tryDeliverCanned E pkt b)) = b_next b"
  "b_clients (snd (tryDeliverCanned E pkt b)) = b_clients b"
  "b_serial_out (snd (tryDeliverCanned E pkt b)) = b_serial_out b"
  by (simp_all add: tryDeliverCanned_def Let_def storeCannedCache_def split: option.split)

section \<open>The handlers only append\<close>

lemmas grow_ops =
  grow_set_client grow_removeClient grow_disconnectSlow grow_warnReadOnly grow_sendToClient
  grow_broadcastExcept grow_broadcast grow_fail grow_forward_or_fail

lemma grow_take: "queues_grow b (snd (takeConfigRequest wireID b))"
  by (rule queues_grow_same) (simp_all add: take_frame)

lemma grow_handleConfigComplete: "queues_grow b (handleConfigComplete E wireID b)"
proof (cases "takeConfigRequest wireID b")
  case (Pair r b1)
  with grow_take [of b wireID] have g: "queues_grow b b1" by simp
  then have "queues_grow b (sendToClient E cl d b1)" for cl d
    using grow_sendToClient queues_grow_trans by blast
  moreover from g have "queues_grow b (PublishStatus E b1)"
    by (simp add: queues_grow_def)
  ultimately show ?thesis
    using Pair g by (auto simp: handleConfigComplete_def split: option.split)
qed

lemma grow_reissue: "reissue E old b = Some b' \<Longrightarrow> queues_grow b b'"
proof (induction old arbitrary: b)
  case (Cons kr old)
  show ?case
  proof (cases "case cr_client (snd kr) of None \<Rightarrow> False | Some cl \<Rightarrow> isClosed (the_client b cl)")
    case True
    with Cons show ?thesis by simp
  next
    case False
    with Cons.prems obtain newID b1 where
      r: "reserveConfigRequest (cr_client (snd kr)) (cr_originalID (snd kr)) b = Some (newID, b1)"
      by (auto split: option.splits)
    obtain e b2 where f: "forwardToSerial E (mk_ToRadio (ToRadio_WantConfigId newID)) b1 = (e, b2)"
      by fastforce
    with grow_forward [of b1 E "mk_ToRadio (ToRadio_WantConfigId newID)"] grow_reserve [OF r]
    have "queues_grow b b2" by (auto intro: queues_grow_trans)
    then show ?thesis
      using Cons.prems False r f Cons.IH [of b2] grow_fail
      by (cases e) (auto intro: queues_grow_trans)
  qed
qed simp

lemma grow_handleRebooted: "handleRebooted E b = Some b' \<Longrightarrow> queues_grow b b'"
  unfolding handleRebooted_def Let_def
  by (drule grow_reissue) (simp add: queues_grow_def)

lemma grow_routeFromRadio: "routeFromRadio E frame b = Some (r, b') \<Longrightarrow> queues_grow b b'"
  by (auto simp: routeFromRadio_def intro: grow_handleConfigComplete grow_handleRebooted
      split: option.splits FromRadio_PayloadVariant.splits)

lemma grow_handleSerialPayload:
  assumes "handleSerialPayload E payload b = Some b'"
  shows "queues_grow b b'"
proof -
  define b1 where "b1 = logDecodedPayload ''serial -> broker'' '''' payload payloadFromRadio b"
  have g1: "queues_grow b b1" by (rule queues_grow_same) (simp_all add: b1_def)
  show ?thesis
  proof (cases "unmarshal_FromRadio E payload")
    case None
    with assms g1 show ?thesis by (simp add: handleSerialPayload_def b1_def)
  next
    case (Some msg)
    define b2 where "b2 = b1\<lparr>b_cache := cache_update msg payload (b_cache b1)\<rparr>"
    have g2: "queues_grow b b2"
      by (rule queues_grow_trans [OF g1], rule queues_grow_same) (simp_all add: b2_def)
    from assms Some obtain r b3 where r: "routeFromRadio E msg b2 = Some (r, b3)"
      by (auto simp: handleSerialPayload_def Let_def b1_def b2_def split: option.splits)
    have g3: "queues_grow b b3" using g2 grow_routeFromRadio [OF r] by (rule queues_grow_trans)
    let ?pkt = "FromRadio_GetPacket msg"
    obtain d b4 where d: "tryDeliverCanned E ?pkt b3 = (d, b4)" by fastforce
    have g4: "queues_grow b b4"
      by (rule queues_grow_trans [OF g3], rule queues_grow_same)
        (use canned_frame(1,2) [of E ?pkt b3] d in simp_all)
    obtain o5 b5 where c: "consumeOutboundOrigin ?pkt b4 = (o5, b5)" by fastforce
    have g5: "queues_grow b b5"
      by (rule queues_grow_trans [OF g4], rule queues_grow_same)
        (use consume_frame(1,2) [of ?pkt b4] c in simp_all)
    have "queues_grow b (broadcast E payload b3)" "queues_grow b (broadcast E payload b5)"
      "queues_grow b (sendToClient E cl payload b5)" for cl
      using g3 g5 grow_broadcast grow_sendToClient queues_grow_trans by blast+
    then show ?thesis
      using assms Some r d c g3 g4 g5
      by (auto simp: handleSerialPayload_def Let_def b1_def [symmetric] b2_def [symmetric]
          split: if_splits bool.splits option.splits)
  qed
qed

lemma grow_logged: "queues_grow b b' \<Longrightarrow> queues_grow (logDecodedPayload d a p k b) b'"
  by (simp add: queues_grow_def)

lemma grow_dropPending: "queues_grow b (dropPendingForClient cl b)"
  by (rule queues_grow_same) simp_all

lemma grow_handleWantConfig:
  assumes "handleWantConfig E cl t oid b = Some (b', ps)"
  shows "queues_grow b b'"
proof (cases "cache_ready (b_cache b)")
  case True
  with assms show ?thesis by (simp add: handleWantConfig_def)
next
  case False
  with assms obtain newID b1 where
    r: "reserveConfigRequest (Some cl) oid (dropPendingForClient cl b) = Some (newID, b1)"
    and b': "b' = forward_or_fail E (t\<lparr>ToRadio_Variant := Some (ToRadio_WantConfigId newID)\<rparr>) b1"
    by (auto simp: handleWantConfig_def split: option.splits)
  show ?thesis
    unfolding b' by (rule queues_grow_trans [OF grow_dropPending
          queues_grow_trans [OF grow_reserve [OF r] grow_forward_or_fail]])
qed

lemma grow_announcePacket: "queues_grow b (announcePacket E cl pkt b)"
proof -
  have n: "queues_grow b (noteOutboundPacket cl pkt b)" by (rule queues_grow_same) simp_all
  then have "queues_grow b (broadcastExcept E p ex (noteOutboundPacket cl pkt b))" for p ex
    by (rule queues_grow_trans [OF _ grow_broadcastExcept])
  with n show ?thesis by (simp add: announcePacket_def Let_def split: option.split)
qed

lemma grow_handleClientPacket: "queues_grow b (handleClientPacket E cl t pkt b)"
proof (cases "forwardToSerial E t b")
  case (Pair e b1)
  with grow_forward [of b E t] have g: "queues_grow b b1" by simp
  have "queues_grow b (announcePacket E cl pkt b1)" "queues_grow b (fail x b1)" for x
    by (rule queues_grow_trans [OF g grow_announcePacket], rule queues_grow_trans [OF g grow_fail])
  with Pair show ?thesis
    by (auto simp: handleClientPacket_def grow_warnReadOnly split: option.split)
qed

lemma grow_writeSerial: "queues_grow b (snd (writeSerial E p b))"
  using writeSerial_hub [of E p b] by (auto intro: queues_grow_same)

lemma grow_handleClientPayload:
  assumes "handleClientPayload E cl payload b = Some (b', ps)"
  shows "queues_grow b b'"
proof (cases "unmarshal_ToRadio E payload")
  case None
  obtain e b1 where w: "writeSerial E payload b = (e, b1)" by fastforce
  with grow_writeSerial [of b E payload] have "queues_grow b b1" "queues_grow b (fail x b1)" for x
    using grow_fail queues_grow_trans by auto
  with assms None w show ?thesis
    by (auto simp: handleClientPayload_def split: if_splits option.splits)
next
  case (Some toRadio)
  with assms show ?thesis
    by (auto simp: handleClientPayload_def
        intro: grow_handleWantConfig grow_handleClientPacket grow_ops
        split: option.splits ToRadio_PayloadVariant.splits if_splits)
qed

lemma grow_readLoop_frame:
  "readLoop_frame E cl payload b = Some (b', ps) \<Longrightarrow> queues_grow b b'"
  unfolding readLoop_frame_def
  by (drule grow_handleClientPayload) (simp add: queues_grow_def)

lemma grow_readLoop_forward:
  assumes "readLoop_forward E cl payload b = Some (pkt, b')"
  shows "queues_grow b b'"
proof -
  let ?b = "logDecodedPayload ''client -> broker'' (cl_addr (the_client b cl)) payload payloadToRadio b"
  from assms obtain t where f: "forwardToSerial E t ?b = (None, b')"
    by (auto simp: readLoop_forward_def Let_def
        split: option.splits ToRadio_PayloadVariant.splits if_splits prod.splits)
  with grow_forward [of ?b E t] show ?thesis by (simp add: queues_grow_def)
qed

lemma grow_bootstrap:
  assumes "bootstrapConfig E b = Some b'"
  shows "queues_grow b b'"
  using assms queues_grow_trans [OF grow_reserve grow_forward_or_fail]
  by (auto simp: bootstrapConfig_def split: if_splits option.splits)

lemma nextPacketID_frame [frame]:
  assumes "nextPacketID b = Some (v, b1)"
  shows "b_heap b1 = b_heap b" "b_next b1 = b_next b" "b_clients b1 = b_clients b"
    "b_serial_out b1 = b_serial_out b" "b_cache b1 = b_cache b" "b_done b1 = b_done b"
  using assms by (auto simp: nextPacketID_def split: list.splits rand_draw.splits)

lemma grow_SendText:
  assumes "SendTextMessage E ch dest text b = Some (r, b')"
  shows "queues_grow b b'"
proof (cases "b' = b")
  case False
  obtain src ok where l: "LocalNodeNum E b = (src, ok)" by fastforce
  with False assms(1) obtain pktID b1 where n: "nextPacketID b = Some (pktID, b1)"
    by (auto simp: SendTextMessage_def Let_def split: if_splits option.splits)
  let ?t = "mk_ToRadio (ToRadio_Packet (Some (text_packet src dest ch pktID (TrimSpace text))))"
  obtain e b2 where f: "forwardToSerial E ?t b1 = (e, b2)" by fastforce
  have "queues_grow b b1" by (rule queues_grow_same) (simp_all add: nextPacketID_frame [OF n])
  with grow_forward [of b1 E ?t] f have g: "queues_grow b b2" by (auto intro: queues_grow_trans)
  then have "queues_grow b (broadcast E d b2)" for d
    using grow_broadcast queues_grow_trans by blast
  with g False assms l n f show ?thesis
    by (auto simp: SendTextMessage_def Let_def split: if_splits option.splits)
qed simp

lemma grow_FetchEnd: "queues_grow b (snd (FetchCanned_end w pktID ch b))"
  by (rule queues_grow_same)
    (auto simp: FetchCanned_end_def unregisterCannedWait_def
      split: fetch_case.split prod.split recv_result.split)

lemma grow_FetchBegin:
  assumes "FetchCanned_begin E b = Some (r, b')"
  shows "queues_grow b b'"
proof -
  obtain cached b1 where c: "cachedCanned b = (cached, b1)" by fastforce
  have g1: "b_heap b1 = b_heap b" "b_next b1 = b_next b"
    using c by (auto simp: cachedCanned_def split: if_splits)
  have fwd: "b_heap b4 = b_heap b3 \<and> b_next b4 = b_next b3" if "forwardToSerial E t b3 = (e, b4)"
    for t e b3 b4
    using that forward_fields(1,2) [of E t b3] by simp_all
  have reg: "b_heap b3 = b_heap b2 \<and> b_next b3 = b_next b2" if "registerCannedWait p b2 = (ch, b3)"
    for p b2 ch b3
    using that by (auto simp: registerCannedWait_def Let_def)
  show ?thesis
    using assms c g1
    by (intro queues_grow_same)
      (auto simp: FetchCanned_begin_def unregisterCannedWait_def nextPacketID_frame
        dest!: fwd reg split: if_splits prod.splits option.splits)
qed

section \<open>The exact effect of a send and of a broadcast\<close>

definition accepts :: "bytes \<Rightarrow> client \<Rightarrow> bool" where
  "accepts p c \<longleftrightarrow> fst (enqueue p c)"

lemma accepts_iff: "client_ok c \<Longrightarrow> accepts p c \<longleftrightarrow> \<not> cl_done c \<and> send_room c"
  by (simp add: accepts_def enqueue_fst)

lemma sendToClient_other: "c \<noteq> cl \<Longrightarrow> the_client (sendToClient E cl p b) c = the_client b c"
  by (simp add: sendToClient_def disconnectSlowClient_def split: prod.split bool.split)

lemma sendToClient_done:
  "cl_done (the_client (sendToClient E cl p b) cl) \<longleftrightarrow>
     cl_done (the_client b cl) \<or> \<not> accepts p (the_client b cl)"
  using client_done_ops(1) [of p "the_client b cl"]
  by (cases "enqueue p (the_client b cl)")
    (auto simp: sendToClient_def disconnectSlowClient_def accepts_def isClosed_def split: bool.split)

lemma inv_closed_gone: "broker_inv b \<Longrightarrow> cl_done (the_client b cl) \<Longrightarrow> cl \<notin> set (b_clients b)"
  by (auto simp: broker_inv_def clients_inv_def)

lemma inv_distinct: "broker_inv b \<Longrightarrow> distinct (b_clients b)"
  by (simp add: broker_inv_def clients_inv_def)

lemma sendToClient_clients:
  assumes "broker_inv b"
  shows "set (b_clients (sendToClient E cl p b)) =
    set (b_clients b) - (if accepts p (the_client b cl) then {} else {cl})"
  using inv_closed_gone [OF assms, of cl] inv_distinct [OF assms]
  by (cases "enqueue p (the_client b cl)")
    (auto simp: sendToClient_def disconnectSlowClient_def accepts_def isClosed_def split: bool.split)

lemma send_each_effect:
  assumes "env_ok E" and "broker_inv b" and "distinct cls"
  shows "queue_of (send_each E p ex cls b) c =
      (if c \<in> set cls \<and> Some c \<noteq> ex \<and> accepts p (the_client b c)
       then queue_of b c @ [p] else queue_of b c)" (is "?Q b cls")
    and "cl_done (the_client (send_each E p ex cls b) c) \<longleftrightarrow>
      cl_done (the_client b c) \<or> c \<in> set cls \<and> Some c \<noteq> ex \<and> \<not> accepts p (the_client b c)"
      (is "?D b cls")
    and "set (b_clients (send_each E p ex cls b)) =
      set (b_clients b) -
        {c \<in> set cls. Some c \<noteq> ex \<and> \<not> accepts p (the_client b c)}" (is "?C b cls")
proof -
  have "?Q b cls \<and> ?D b cls \<and> ?C b cls"
    using assms(2,3)
  proof (induction cls arbitrary: b)
    case (Cons cl cls)
    show ?case
    proof (cases "Some cl = ex")
      case True
      then have e: "send_each E p ex (cl # cls) b = send_each E p ex cls b"
        "{x \<in> set (cl # cls). Some x \<noteq> ex \<and> \<not> accepts p (the_client b x)} =
         {x \<in> set cls. Some x \<noteq> ex \<and> \<not> accepts p (the_client b x)}" by auto
      have "?Q b cls \<and> ?D b cls \<and> ?C b cls" using Cons by simp
      then show ?thesis unfolding e using True by auto
    next
      case False
      let ?b = "sendToClient E cl p b"
      have I: "broker_inv ?b" using assms(1) Cons.prems(1) by (rule inv_sendToClient)
      have h: "the_client ?b x = the_client b x" if "x \<in> set cls" for x
        using that Cons.prems(2) by (intro sendToClient_other) auto
      have "?Q ?b cls \<and> ?D ?b cls \<and> ?C ?b cls" using Cons.IH [OF I] Cons.prems(2) by simp
      moreover have "{x \<in> set cls. Some x \<noteq> ex \<and> \<not> accepts p (the_client ?b x)} =
          {x \<in> set cls. Some x \<noteq> ex \<and> \<not> accepts p (the_client b x)}"
        using h by auto
      ultimately show ?thesis
        using False h Cons.prems(2)
        by (cases "c = cl")
          (auto simp: queue_sendToClient sendToClient_done sendToClient_other
            sendToClient_clients [OF Cons.prems(1)] accepts_def [symmetric])
    qed
  qed simp
  then show "?Q b cls" "?D b cls" "?C b cls" by blast+
qed

text \<open>
  A broadcast reaches every live client but the excepted one: a client with room gets
  exactly one copy at the end of its queue, a client without room is disconnected,
  and nobody else is touched.
\<close>

lemma broadcastExcept_effect:
  assumes "env_ok E" and "broker_inv b"
  shows "queue_of (broadcastExcept E p ex b) c =
      (if c \<in> set (b_clients b) \<and> Some c \<noteq> ex \<and> send_room (the_client b c)
       then queue_of b c @ [p] else queue_of b c)"
    and "set (b_clients (broadcastExcept E p ex b)) =
      {c \<in> set (b_clients b). Some c = ex \<or> send_room (the_client b c)}"
proof -
  have d: "distinct (snapshotClients E b)" and s: "set (snapshotClients E b) = set (b_clients b)"
    using env_ok_client_order [OF assms(1)] inv_distinct [OF assms(2)]
    by (simp_all add: snapshotClients_def)
  have a: "accepts p (the_client b x) \<longleftrightarrow> send_room (the_client b x)" if "x \<in> set (b_clients b)" for x
    using that assms(2) accepts_iff inv_client_ok [OF assms(2)] inv_closed_gone by blast
  note e = send_each_effect [OF assms d]
  show "queue_of (broadcastExcept E p ex b) c =
      (if c \<in> set (b_clients b) \<and> Some c \<noteq> ex \<and> send_room (the_client b c)
       then queue_of b c @ [p] else queue_of b c)"
    using a by (auto simp: broadcastExcept_def e(1) s)
  show "set (b_clients (broadcastExcept E p ex b)) =
      {c \<in> set (b_clients b). Some c = ex \<or> send_room (the_client b c)}"
    using a by (auto simp: broadcastExcept_def e(3) s)
qed

end
