(* ===== verification/BrokerSystem.thy ===== *)
theory BrokerSystem
  imports Delivery
begin

text \<open>
  The broker with its goroutines (\<open>Run\<close>, \<open>readSerial\<close>, one \<open>readLoop\<close> and one
  \<open>writeLoop\<close> per client, the web UI's calls): a step relation in which every
  handler is one step. A reader that replays the cached configuration blocks between
  two sends, so it keeps the rest of the replay as its program counter and everything
  else may happen in between.
\<close>

section \<open>State\<close>

datatype reader_pc =
    RIdle                   \<comment> \<open>in \<open>ReadFrame\<close>\<close>
  | RReplay "bytes list"    \<comment> \<open>in \<open>sendCachedConfig\<close>, the frames still to send\<close>
  | RAnnounce "MeshPacket option"   \<comment> \<open>a packet forwarded, not yet noted and announced\<close>
  | RExited

record sys =
  s_broker :: broker
  s_serial_reader :: bool                \<comment> \<open>\<open>readSerial\<close> has not returned\<close>
  s_errCh :: bool                        \<comment> \<open>its error waits in \<open>errCh\<close>\<close>
  s_run :: bool                          \<comment> \<open>\<open>Run\<close> is in its \<open>select\<close>\<close>
  s_reader :: "cid \<Rightarrow> reader_pc"
  s_writer :: "cid \<Rightarrow> bool"               \<comment> \<open>\<open>writeLoop\<close> has not returned\<close>
  s_wire :: "cid \<Rightarrow> bytes"                \<comment> \<open>bytes the connection took\<close>
  s_delivered :: "cid \<Rightarrow> bytes list"      \<comment> \<open>history: payloads written in full\<close>
  s_fetches :: "(u32 \<times> nat) list"         \<comment> \<open>fetches waiting in their \<open>select\<close>\<close>

definition replay_pc :: "bytes list \<Rightarrow> reader_pc" where
  "replay_pc ps = (if ps = [] then RIdle else RReplay ps)"

definition sys_init :: "broker \<Rightarrow> sys" where
  "sys_init b =
     \<lparr>s_broker = b, s_serial_reader = True, s_errCh = False, s_run = True, s_reader = (\<lambda>_. RIdle), s_writer = (\<lambda>_. True),
      s_wire = (\<lambda>_. []), s_delivered = (\<lambda>_. []), s_fetches = []\<rparr>"

definition initial :: "sys \<Rightarrow> bool" where
  "initial s \<longleftrightarrow> (\<exists>ro obs now rnd. s = sys_init (New ro obs now rnd))"

abbreviation live :: "sys \<Rightarrow> cid \<Rightarrow> bool" where
  "live s cl \<equiv> cl < b_next (s_broker s)"

section \<open>Steps\<close>

text \<open>
  \<open>readSerial\<close> checks \<open>done\<close> before it blocks in \<open>ReadFrame\<close>, so a frame that arrives
  after \<open>done\<close> was closed may still be handled: \<open>SerialFrame\<close> has no such guard. When it
  finds \<open>done\<close> closed it returns without a word to \<open>Run\<close> (\<open>SerialStop\<close>); a read error goes
  into \<open>errCh\<close> (\<open>SerialEnd\<close>), which \<open>Run\<close> takes up (\<open>RunSerial\<close>).
  A packet of a client is forwarded in one step and noted and announced in another (\<open>PacketForward\<close>,
  \<open>PacketAnnounce\<close>), with anything in between; \<open>ClientFrame\<close> is also the case in which nothing comes between.
  Likewise a reader goes on with what its \<open>bufio.Reader\<close> holds after its client was
  removed, so \<open>ClientFrame\<close> asks only that the reader has not returned.
\<close>

inductive sys_step :: "env \<Rightarrow> sys \<Rightarrow> sys \<Rightarrow> bool" for E :: env where
  SerialFrame:
  "s_serial_reader s \<Longrightarrow> frame_ok p \<Longrightarrow>
     handleSerialPayload E p (s_broker s) = Some b \<Longrightarrow>
     sys_step E s (s\<lparr>s_broker := b\<rparr>)"
| SerialEnd:
  "s_serial_reader s \<Longrightarrow> sys_step E s (s\<lparr>s_serial_reader := False, s_errCh := True\<rparr>)"
| SerialStop:
  "s_serial_reader s \<Longrightarrow> b_done (s_broker s) \<Longrightarrow> sys_step E s (s\<lparr>s_serial_reader := False\<rparr>)"
| RunSerial:
  "s_run s \<Longrightarrow> s_errCh s \<Longrightarrow>
     sys_step E s (s\<lparr>s_broker := fail (Some ErrSerialClosed) (s_broker s), s_errCh := False, s_run := False\<rparr>)"
| CtxDone:
  "s_run s \<Longrightarrow>
     sys_step E s (s\<lparr>s_broker := fail (Some (ErrContext m)) (s_broker s), s_run := False\<rparr>)"
| Accept:
  "sys_step E s (s\<lparr>s_broker := snd (AddClient E addr (s_broker s))\<rparr>)"
| ClientFrame:
  "live s cl \<Longrightarrow> s_reader s cl = RIdle \<Longrightarrow> frame_ok p \<Longrightarrow>
     readLoop_frame E cl p (s_broker s) = Some (b, ps) \<Longrightarrow>
     sys_step E s (s\<lparr>s_broker := b, s_reader := (s_reader s)(cl := replay_pc ps)\<rparr>)"
| PacketForward:
  "live s cl \<Longrightarrow> s_reader s cl = RIdle \<Longrightarrow> frame_ok p \<Longrightarrow>
     readLoop_forward E cl p (s_broker s) = Some (pkt, b) \<Longrightarrow>
     sys_step E s (s\<lparr>s_broker := b, s_reader := (s_reader s)(cl := RAnnounce pkt)\<rparr>)"
| PacketAnnounce:
  "live s cl \<Longrightarrow> s_reader s cl = RAnnounce pkt \<Longrightarrow>
     sys_step E s (s\<lparr>s_broker := announcePacket E cl pkt (s_broker s), s_reader := (s_reader s)(cl := RIdle)\<rparr>)"
| Replay:
  "live s cl \<Longrightarrow> s_reader s cl = RReplay (p # ps) \<Longrightarrow>
     wait_enabled w (b_done (s_broker s)) (the_client (s_broker s) cl) \<Longrightarrow>
     sendToClientBlocking E w cl p (s_broker s) = (ok, b) \<Longrightarrow>
     sys_step E s (s\<lparr>s_broker := b,
       s_reader := (s_reader s)(cl := if ok then replay_pc ps else RIdle)\<rparr>)"
| ReaderEnd:
  "live s cl \<Longrightarrow> s_reader s cl = RIdle \<Longrightarrow>
     sys_step E s (s\<lparr>s_broker := removeClient E cl (s_broker s),
       s_reader := (s_reader s)(cl := RExited)\<rparr>)"
| WriterTurn:
  "live s cl \<Longrightarrow> s_writer s cl \<Longrightarrow> writer_ok w \<Longrightarrow>
     queue_of (s_broker s) cl = p # q \<Longrightarrow>
     writeLoop_turn E w cl (s_wire s cl) (s_broker s) = Some (ok, wire, b) \<Longrightarrow>
     sys_step E s (s\<lparr>s_broker := b, s_writer := (s_writer s)(cl := ok),
       s_wire := (s_wire s)(cl := wire),
       s_delivered := (s_delivered s)(cl := s_delivered s cl @ (if ok then [p] else []))\<rparr>)"
| WriterBrokerDone:
  "live s cl \<Longrightarrow> s_writer s cl \<Longrightarrow> b_done (s_broker s) \<Longrightarrow>
     sys_step E s (s\<lparr>s_broker := removeClient E cl (s_broker s), s_writer := (s_writer s)(cl := False)\<rparr>)"
| WriterClientDone:
  "live s cl \<Longrightarrow> s_writer s cl \<Longrightarrow> cl_done (the_client (s_broker s) cl) \<Longrightarrow>
     sys_step E s (s\<lparr>s_writer := (s_writer s)(cl := False)\<rparr>)"
| Bootstrap:
  "bootstrapConfig E (s_broker s) = Some b \<Longrightarrow> sys_step E s (s\<lparr>s_broker := b\<rparr>)"
| SendText:
  "SendTextMessage E ch dest text (s_broker s) = Some (r, b) \<Longrightarrow>
     sys_step E s (s\<lparr>s_broker := b\<rparr>)"
| FetchBegin:
  "FetchCanned_begin E (s_broker s) = Some (r, b) \<Longrightarrow>
     fs = (case r of FetchDone _ \<Rightarrow> [] | FetchWaiting pktID ch \<Rightarrow> [(pktID, ch)]) \<Longrightarrow>
     sys_step E s (s\<lparr>s_broker := b, s_fetches := fs @ s_fetches s\<rparr>)"
| FetchEnd:
  "(pktID, ch) \<in> set (s_fetches s) \<Longrightarrow> fetch_enabled w ch (s_broker s) \<Longrightarrow>
     FetchCanned_end w pktID ch (s_broker s) = (r, b) \<Longrightarrow>
     sys_step E s (s\<lparr>s_broker := b, s_fetches := remove1 (pktID, ch) (s_fetches s)\<rparr>)"
| Publish:
  "sys_step E s (s\<lparr>s_broker := PublishStatus E (s_broker s)\<rparr>)"
| Shutdown:
  "sys_step E s (s\<lparr>s_broker := CloseAll E (s_broker s)\<rparr>)"
| Tick:
  "0 \<le> d \<Longrightarrow> sys_step E s (s\<lparr>s_broker := (s_broker s)\<lparr>b_now := b_now (s_broker s) + d\<rparr>\<rparr>)"

section \<open>The invariant of the system\<close>

definition stream :: "sys \<Rightarrow> cid \<Rightarrow> bytes list" where
  "stream s cl = s_delivered s cl @ queue_of (s_broker s) cl"

definition sys_inv :: "sys \<Rightarrow> bool" where
  "sys_inv s \<longleftrightarrow>
     broker_inv (s_broker s) \<and>
     (\<forall>cl. s_writer s cl \<longrightarrow> s_wire s cl = concat (map encode_frame (s_delivered s cl))) \<and>
     (\<forall>cl. prefix (concat (map encode_frame (s_delivered s cl))) (s_wire s cl))"

lemma writeLoop_turn_ok:
  assumes "writeLoop_turn E w cl wire b = Some (ok, wire', b')" and "queue_of b cl = p # q"
  shows "if ok then wire' = wire @ encode_frame p else prefix wire wire'"
    and "queue_of b' c = (if c = cl then q else queue_of b c)"
    and "b_next b' = b_next b"
proof -
  have ch: "chan_recv (cl_send (the_client b cl)) =
      (RecvValue p, (cl_send (the_client b cl))\<lparr>chan_buf := q\<rparr>)"
    using assms(2) by (simp add: chan_recv_def)
  obtain ok2 wire2 where cw: "conn_writes w wire (bufio_calls (encode_frame p)) = (ok2, wire2)"
    by fastforce
  have pre: "prefix wire (snd (conn_writes w wire bufs))" for bufs
  proof (induction bufs arbitrary: wire)
    case (Cons buf bufs)
    from Cons [of "wire @ buf"] show ?case
      by (auto split: prod.split dest: append_prefixD)
  qed simp
  note facts = ch cw pre [of "bufio_calls (encode_frame p)"]
  have "WriteFrame buffer_writer [] p = (None, encode_frame p) \<or>
      (\<exists>e out. WriteFrame buffer_writer [] p = (Some e, out))"
    using WriteFrame_buffer [of p "[]"] by (auto simp: WriteFrame_def)
  then show "if ok then wire' = wire @ encode_frame p else prefix wire wire'"
    "queue_of b' c = (if c = cl then q else queue_of b c)" "b_next b' = b_next b"
    using assms(1) facts conn_writes_True [of w wire "bufio_calls (encode_frame p)" wire2]
    by (auto simp: writeLoop_turn_def Let_def split: bool.splits)
qed

lemma sys_step_broker_inv:
  assumes "sys_step E s t" and "env_ok E" and "broker_inv (s_broker s)"
  shows "broker_inv (s_broker t)"
  using assms
proof cases
  case (Replay cl p ps w ok b)
  with assms inv_sendToClientBlocking [of E "s_broker s" w cl p] show ?thesis by simp
next
  case (FetchEnd pktID ch w r b)
  with assms inv_FetchEnd [of "s_broker s" w pktID ch] show ?thesis by simp
qed (use assms in \<open>auto simp: frame_ok_def intro: inv_handleSerialPayload inv_readLoop_frame
      inv_readLoop_forward inv_announcePacket
      inv_writeLoop_turn inv_bootstrapConfig inv_SendTextMessage inv_FetchBegin
      broker_inv_tick\<close>)

lemma sys_inv_step:
  assumes "sys_inv s" and "sys_step E s t" and "env_ok E"
  shows "sys_inv t"
proof -
  have b: "broker_inv (s_broker t)"
    using sys_step_broker_inv [OF assms(2,3)] assms(1) by (simp add: sys_inv_def)
  from assms(2) show ?thesis
  proof cases
    case (WriterTurn cl w p q ok wire b)
    with assms(1) writeLoop_turn_ok(1) [OF WriterTurn(6,5)] b show ?thesis
      by (auto simp: sys_inv_def split: if_splits intro: prefix_order.trans)
  qed (use assms(1) b in \<open>auto simp: sys_inv_def\<close>)
qed

lemma sys_inv_initial: "initial s \<Longrightarrow> sys_inv s"
  by (auto simp: initial_def sys_inv_def sys_init_def broker_inv_New)

interpretation broker_sys: invariant_system
  initial "\<lambda>s t. env_ok E \<and> sys_step E s t" sys_inv for E
  by unfold_locales (auto intro: sys_inv_initial sys_inv_step)

lemma run_ok:
  "(sys_step E)\<^sup>*\<^sup>* s t \<Longrightarrow> env_ok E \<Longrightarrow> (\<lambda>s t. env_ok E \<and> sys_step E s t)\<^sup>*\<^sup>* s t"
  by simp

section \<open>Delivery is in order\<close>

lemma sys_step_queues:
  assumes "sys_step E s t" and "live s cl"
  shows "b_next (s_broker s) \<le> b_next (s_broker t) \<and> (s_writer t cl \<longrightarrow> s_writer s cl) \<and>
    (s_writer t cl \<longrightarrow> prefix (stream s cl) (stream t cl))"
proof -
  have grow: ?thesis if "queues_grow (s_broker s) (s_broker t)"
    and "s_delivered t = s_delivered s" and "s_writer t cl \<longrightarrow> s_writer s cl"
    using that assms(2) by (simp add: queues_grow_def stream_def)
  from assms(1) show ?thesis
  proof cases
    case (SerialFrame p b)
    then show ?thesis by (intro grow) (auto intro: grow_handleSerialPayload)
  next
    case (ClientFrame c p b ps)
    then show ?thesis by (intro grow) (auto intro: grow_readLoop_frame)
  next
    case (PacketForward c p pkt b)
    then show ?thesis by (intro grow) (auto intro: grow_readLoop_forward)
  next
    case (PacketAnnounce c pkt)
    then show ?thesis by (intro grow) (auto intro: grow_announcePacket)
  next
    case (Replay c p ps w ok b)
    then show ?thesis
      using grow_sendBlocking [of "s_broker s" E w c p] by (intro grow) auto
  next
    case (WriterTurn c w p q ok wire b)
    then show ?thesis
      using writeLoop_turn_ok(2,3) [OF WriterTurn(6,5)] by (auto simp: stream_def)
  next
    case (Bootstrap b)
    then show ?thesis by (intro grow) (auto intro: grow_bootstrap)
  next
    case (SendText ch dest body r b)
    then show ?thesis by (intro grow) (auto intro: grow_SendText)
  next
    case (FetchBegin r b fs)
    then show ?thesis by (intro grow) (auto intro: grow_FetchBegin)
  next
    case (FetchEnd pktID ch w r b)
    then show ?thesis
      using grow_FetchEnd [of "s_broker s" w pktID ch] by (intro grow) auto
  next
    case Publish
    then show ?thesis by (intro grow) (auto intro: queues_grow_same)
  next
    case (Tick d)
    then show ?thesis by (intro grow) (auto intro: queues_grow_same)
  next
    case SerialEnd
    then show ?thesis by (intro grow) (auto intro: queues_grow_refl)
  next
    case SerialStop
    then show ?thesis by (intro grow) (auto intro: queues_grow_refl)
  next
    case RunSerial
    then show ?thesis by (intro grow) (auto intro: grow_fail)
  next
    case (CtxDone m)
    then show ?thesis by (intro grow) (auto intro: grow_fail)
  next
    case (Accept addr)
    then show ?thesis by (intro grow) (auto intro: grow_AddClient)
  next
    case (ReaderEnd c)
    then show ?thesis by (intro grow) (auto intro: grow_removeClient)
  next
    case (WriterBrokerDone c)
    then show ?thesis by (intro grow) (auto intro: grow_removeClient)
  next
    case (WriterClientDone c)
    then show ?thesis by (intro grow) (auto intro: queues_grow_refl)
  next
    case Shutdown
    then show ?thesis by (intro grow) (auto intro: grow_CloseAll)
  qed
qed

lemma run_streams:
  assumes "(sys_step E)\<^sup>*\<^sup>* s t" and "live s cl"
  shows "live t cl \<and> (s_writer t cl \<longrightarrow> s_writer s cl \<and> prefix (stream s cl) (stream t cl))"
  using assms
proof (induction rule: rtranclp_induct)
  case (step t u)
  then have "live t cl" by blast
  from sys_step_queues [OF step.hyps(2) this] step show ?case
    by (auto intro: prefix_order.trans)
qed simp

section \<open>A replay runs to completion\<close>

lemma writer_drains:
  assumes "queue_of (s_broker s) cl = p # q" and "length p \<le> MaxSize" and "live s cl"
    and "s_writer s cl"
  shows "\<exists>t. sys_step E s t \<and> s_reader t = s_reader s \<and> s_writer t = s_writer s \<and>
    stream t cl = stream s cl \<and> queue_of (s_broker t) cl = q \<and>
    cl_done (the_client (s_broker t) cl) = cl_done (the_client (s_broker s) cl) \<and>
    b_next (s_broker t) = b_next (s_broker s) \<and>
    (client_ok (the_client (s_broker s) cl) \<longrightarrow> client_ok (the_client (s_broker t) cl))"
proof -
  let ?b = "s_broker s"
  let ?b1 = "set_client cl ((the_client ?b cl)\<lparr>cl_send := (cl_send (the_client ?b cl))\<lparr>chan_buf := q\<rparr>\<rparr>) ?b"
  have ch: "chan_recv (cl_send (the_client ?b cl)) =
      (RecvValue p, (cl_send (the_client ?b cl))\<lparr>chan_buf := q\<rparr>)"
    using assms(1) by (simp add: chan_recv_def)
  have cw: "conn_writes buffer_writer out bufs = (True, out @ concat bufs)" for out bufs
    by (induction bufs arbitrary: out) (simp_all add: buffer_writer_def)
  have "writeLoop_turn E buffer_writer cl (s_wire s cl) ?b =
      Some (True, s_wire s cl @ encode_frame p, ?b1)"
    using assms(2) by (simp add: writeLoop_turn_def ch Let_def cw)
  from WriterTurn [OF assms(3,4) writer_ok_buffer assms(1) this]
  obtain t where st: "sys_step E s t"
    and t: "t = s\<lparr>s_broker := ?b1, s_writer := (s_writer s)(cl := True),
       s_wire := (s_wire s)(cl := s_wire s cl @ encode_frame p),
       s_delivered := (s_delivered s)(cl := s_delivered s cl @ (if True then [p] else []))\<rparr>"
    by blast
  have "client_ok (the_client ?b cl) \<longrightarrow> client_ok (the_client ?b1 cl)"
    using assms(1) by (auto simp: client_ok_def chan_ok_def)
  moreover have "(s_writer s)(cl := True) = s_writer s" using assms(4) by (simp add: fun_upd_idem)
  ultimately show ?thesis
    using assms st by (intro exI [of _ t]) (auto simp: t stream_def)
qed

lemma replay_sends:
  assumes "s_reader s cl = RReplay (p # ps)" and "live s cl"
    and "client_ok (the_client (s_broker s) cl)" and "send_room (the_client (s_broker s) cl)"
  shows "\<exists>t. sys_step E s t \<and> s_reader t cl = replay_pc ps \<and> s_writer t = s_writer s \<and>
    stream t cl = stream s cl @ [p] \<and> queue_of (s_broker t) cl = queue_of (s_broker s) cl @ [p] \<and>
    cl_done (the_client (s_broker t) cl) = cl_done (the_client (s_broker s) cl) \<and>
    b_next (s_broker t) = b_next (s_broker s) \<and> client_ok (the_client (s_broker t) cl)"
proof -
  let ?b = "s_broker s"
  have en: "wait_enabled WaitSent (b_done ?b) (the_client ?b cl)"
    using assms(4) by (simp add: wait_enabled_def)
  obtain ok b where s: "sendToClientBlocking E WaitSent cl p ?b = (ok, b)" by fastforce
  then have ok: "ok" by (auto simp: sendToClientBlocking_def enqueueWithTimeout_def)
  have q: "queue_of b cl = queue_of ?b cl @ [p]"
    using queue_sendBlocking [of E WaitSent cl p ?b cl] s
      enqueueWithTimeout_sent(2) [OF assms(3) en] by simp
  have d: "cl_done (the_client b cl) = cl_done (the_client ?b cl)" "b_next b = b_next ?b"
    using s by (auto simp: sendToClientBlocking_def enqueueWithTimeout_def)
  have "client_ok (the_client b cl)"
    using s client_ok_enqueueWithTimeout [OF assms(3), of WaitSent p]
    by (auto simp: sendToClientBlocking_def enqueueWithTimeout_def)
  moreover obtain t where st: "sys_step E s t"
    and t: "t = s\<lparr>s_broker := b,
      s_reader := (s_reader s)(cl := if ok then replay_pc ps else RIdle)\<rparr>"
    using Replay [OF assms(2,1) en s] by blast
  ultimately show ?thesis
    using q d ok by (intro exI [of _ t]) (auto simp: t stream_def)
qed

text \<open>
  While the client lives and its connection takes what it is given, a replay of any
  length completes, although the queue holds 64 payloads: there is a run in which
  exactly the replayed frames, in order, join the client's stream.
\<close>

lemma replay_completes:
  assumes "s_reader s cl = replay_pc ps" and "live s cl" and "s_writer s cl"
    and "client_ok (the_client (s_broker s) cl)"
    and "\<forall>p \<in> set (queue_of (s_broker s) cl @ ps). length p \<le> MaxSize"
  shows "\<exists>t. (sys_step E)\<^sup>*\<^sup>* s t \<and> s_reader t cl = RIdle \<and> s_writer t cl \<and>
    stream t cl = stream s cl @ ps \<and>
    cl_done (the_client (s_broker t) cl) = cl_done (the_client (s_broker s) cl)"
  using assms
proof (induction "length ps + length (queue_of (s_broker s) cl) + length ps" arbitrary: s ps
    rule: less_induct)
  case less
  show ?case
  proof (cases ps)
    case Nil
    with less.prems show ?thesis by (intro exI [of _ s]) (simp add: replay_pc_def)
  next
    case (Cons p qs)
    have rd: "s_reader s cl = RReplay (p # qs)" using less.prems(1) Cons by (simp add: replay_pc_def)
    show ?thesis
    proof (cases "send_room (the_client (s_broker s) cl)")
      case True
      from replay_sends [OF rd less.prems(2,4) True] obtain t where t: "sys_step E s t"
        "s_reader t cl = replay_pc qs" "s_writer t = s_writer s" "stream t cl = stream s cl @ [p]"
        "queue_of (s_broker t) cl = queue_of (s_broker s) cl @ [p]"
        "cl_done (the_client (s_broker t) cl) = cl_done (the_client (s_broker s) cl)"
        "b_next (s_broker t) = b_next (s_broker s)"
        "client_ok (the_client (s_broker t) cl)" by blast
      have "\<exists>u. (sys_step E)\<^sup>*\<^sup>* t u \<and> s_reader u cl = RIdle \<and> s_writer u cl \<and>
          stream u cl = stream t cl @ qs \<and>
          cl_done (the_client (s_broker u) cl) = cl_done (the_client (s_broker t) cl)"
        by (rule less.hyps) (use t less.prems Cons in auto)
      with t(1,4,6) Cons show ?thesis by (auto intro: converse_rtranclp_into_rtranclp)
    next
      case False
      with less.prems(4) obtain x q where q: "queue_of (s_broker s) cl = x # q"
        by (cases "queue_of (s_broker s) cl") (auto simp: send_room_def client_ok_def clientSendBuffer_def)
      with less.prems(5) have "length x \<le> MaxSize" by simp
      from writer_drains [OF q this less.prems(2,3)] obtain t where t: "sys_step E s t"
        "s_reader t = s_reader s" "s_writer t = s_writer s" "stream t cl = stream s cl"
        "queue_of (s_broker t) cl = q"
        "cl_done (the_client (s_broker t) cl) = cl_done (the_client (s_broker s) cl)"
        "b_next (s_broker t) = b_next (s_broker s)"
        "client_ok (the_client (s_broker s) cl) \<longrightarrow> client_ok (the_client (s_broker t) cl)" by blast
      have "\<exists>u. (sys_step E)\<^sup>*\<^sup>* t u \<and> s_reader u cl = RIdle \<and> s_writer u cl \<and>
          stream u cl = stream t cl @ ps \<and>
          cl_done (the_client (s_broker u) cl) = cl_done (the_client (s_broker t) cl)"
        by (rule less.hyps) (use t q less.prems in auto)
      with t(1,4,6) show ?thesis by (auto intro: converse_rtranclp_into_rtranclp)
    qed
  qed
qed

end
