(* ===== verification/Effects.thy ===== *)
theory Effects
  imports BrokerSystem
begin

text \<open>
  The exact effect of the handlers, branch by branch: what reaches the serial link,
  which queue grows by what, which table entries come and go.
\<close>

section \<open>The serial link\<close>

lemma writeSerial_ok:
  assumes "writer_ok (e_writer E)" and "writeSerial E p b = (None, b1)"
  shows "\<not> b_done b \<and> b_serial_out b1 = b_serial_out b @ encode_frame p \<and>
    (\<exists>h. b1 = b\<lparr>b_hub := h, b_serial_out := b_serial_out b @ encode_frame p\<rparr>)"
proof -
  obtain h where h: "logDecodedPayload ''broker -> serial'' '''' p payloadToRadio b = b\<lparr>b_hub := h\<rparr>"
    using logDecodedPayload_hub by blast
  from assms(2) have "\<not> b_done b" by (auto simp: writeSerial_def)
  moreover from assms(2) this obtain out
    where w: "WriteFrame (e_writer E) (b_serial_out b) p = (None, out)"
      and b1: "b1 = b\<lparr>b_hub := h, b_serial_out := out\<rparr>"
    by (auto simp: writeSerial_def Let_def h split: prod.splits option.splits)
  moreover from WriteFrame_None [OF assms(1) w] have "out = b_serial_out b @ encode_frame p" by simp
  ultimately show ?thesis by auto
qed

lemma forward_ok:
  assumes "writer_ok (e_writer E)" and "forwardToSerial E t b = (None, b1)"
  shows "\<exists>w h. marshal_ToRadio E t = Some w \<and> \<not> b_done b \<and>
    b1 = b\<lparr>b_hub := h, b_serial_out := b_serial_out b @ encode_frame w\<rparr>"
  using assms writeSerial_ok [OF assms(1)]
  by (fastforce simp: forwardToSerial_def split: option.splits)

lemma forward_or_fail_ok:
  assumes "writer_ok (e_writer E)" and "\<not> b_done (forward_or_fail E t b)"
  shows "\<exists>w h. marshal_ToRadio E t = Some w \<and> \<not> b_done b \<and>
    forward_or_fail E t b = b\<lparr>b_hub := h, b_serial_out := b_serial_out b @ encode_frame w\<rparr>"
proof (cases "forwardToSerial E t b")
  case (Pair e b1)
  with assms(2) have "e = None"
    by (auto simp: forward_or_fail_def fail_def split: option.splits if_splits)
  with Pair forward_ok [OF assms(1), of t b b1] show ?thesis by (simp add: forward_or_fail_def)
qed

lemma writer_of_env: "env_ok E \<Longrightarrow> writer_ok (e_writer E)"
  by (simp add: env_ok_def)

section \<open>Configuration requests\<close>

text \<open>
  A cold \<open>WantConfigId\<close>: exactly one pending request of the client remains, under a
  fresh non-zero nonce, and the radio is asked with that nonce.
\<close>

lemma handleWantConfig_cold:
  assumes "env_ok E" and "broker_inv b" and "\<not> cache_ready (b_cache b)"
    and "handleWantConfig E cl t oid b = Some (b', ps)" and "\<not> b_done b'"
  shows "\<exists>newID w. ps = [] \<and> newID \<noteq> 0 \<and> newID \<notin> fst ` set (b_pendingConfig (dropPendingForClient cl b)) \<and>
    marshal_ToRadio E (t\<lparr>ToRadio_Variant := Some (ToRadio_WantConfigId newID)\<rparr>) = Some w \<and>
    b_serial_out b' = b_serial_out b @ encode_frame w \<and>
    b_pendingConfig b' = b_pendingConfig (dropPendingForClient cl b) @
      [(newID, \<lparr>cr_client = Some cl, cr_originalID = oid\<rparr>)] \<and>
    b_heap b' = b_heap b \<and> b_clients b' = b_clients b"
proof -
  from assms(3,4) obtain newID b1 where
    r: "reserveConfigRequest (Some cl) oid (dropPendingForClient cl b) = Some (newID, b1)"
    and b': "b' = forward_or_fail E (t\<lparr>ToRadio_Variant := Some (ToRadio_WantConfigId newID)\<rparr>) b1"
    and ps: "ps = []"
    by (auto simp: handleWantConfig_def split: option.splits)
  from forward_or_fail_ok [OF writer_of_env [OF assms(1)]] assms(5) b' obtain w h where
    w: "marshal_ToRadio E (t\<lparr>ToRadio_Variant := Some (ToRadio_WantConfigId newID)\<rparr>) = Some w"
    and eq: "b' = b1\<lparr>b_hub := h, b_serial_out := b_serial_out b1 @ encode_frame w\<rparr>"
    by blast
  show ?thesis
    using w eq ps reserve_fields(1-3) [OF r] reserve_frame [OF r]
    by (intro exI [of _ newID] exI [of _ w]) simp
qed

lemma handleConfigComplete_pending:
  assumes "env_ok E" and "broker_inv b"
    and "map_of (b_pendingConfig b) wireID = Some \<lparr>cr_client = Some cl, cr_originalID = oid\<rparr>"
    and "marshal_FromRadio E (mk_FromRadio (FromRadio_ConfigCompleteId oid)) = Some d"
    and "\<not> cl_done (the_client b cl)" and "send_room (the_client b cl)"
  shows "queue_of (handleConfigComplete E wireID b) c =
      (if c = cl then queue_of b c @ [d] else queue_of b c)"
    and "map_of (b_pendingConfig (handleConfigComplete E wireID b)) =
      (map_of (b_pendingConfig b))(wireID := None)"
    and "b_serial_out (handleConfigComplete E wireID b) = b_serial_out b"
proof -
  let ?b1 = "b\<lparr>b_pendingConfig := AList.delete wireID (b_pendingConfig b)\<rparr>"
  have eq: "handleConfigComplete E wireID b = sendToClient E cl d ?b1"
    using assms(3,4) by (simp add: handleConfigComplete_def takeConfigRequest_def)
  have a: "fst (enqueue d (the_client b cl))"
    using assms(5,6) inv_client_ok [OF assms(2)] by (simp add: enqueue_fst)
  then obtain c' where e: "enqueue d (the_client b cl) = (True, c')"
    by (cases "enqueue d (the_client b cl)") simp
  show "queue_of (handleConfigComplete E wireID b) c =
      (if c = cl then queue_of b c @ [d] else queue_of b c)"
    unfolding eq queue_sendToClient using a by simp
  show "map_of (b_pendingConfig (handleConfigComplete E wireID b)) =
      (map_of (b_pendingConfig b))(wireID := None)"
    "b_serial_out (handleConfigComplete E wireID b) = b_serial_out b"
    unfolding eq by (simp_all add: sendToClient_def e)
qed

lemma handleConfigComplete_unknown:
  "map_of (b_pendingConfig b) wireID = None \<Longrightarrow> handleConfigComplete E wireID b = b"
  by (simp add: handleConfigComplete_def takeConfigRequest_def)

section \<open>Reboots\<close>

definition owner_alive :: "broker \<Rightarrow> u32 \<times> configRequest \<Rightarrow> bool" where
  "owner_alive b kr \<longleftrightarrow>
     (case cr_client (snd kr) of None \<Rightarrow> True | Some cl \<Rightarrow> \<not> isClosed (the_client b cl))"

definition want_frame :: "'a env_scheme \<Rightarrow> u32 \<Rightarrow> bytes" where
  "want_frame E v =
     (case marshal_ToRadio E (mk_ToRadio (ToRadio_WantConfigId v)) of
        Some w \<Rightarrow> encode_frame w | None \<Rightarrow> [])"

lemma reissue_effect:
  assumes "writer_ok (e_writer E)" and "reissue E old b = Some b'" and "\<not> b_done b'"
  shows "\<exists>new. b_pendingConfig b' = b_pendingConfig b @ new \<and>
    map snd new = map snd (filter (owner_alive b) old) \<and>
    b_serial_out b' = b_serial_out b @ concat (map (\<lambda>kr. want_frame E (fst kr)) new) \<and>
    b_heap b' = b_heap b \<and> b_clients b' = b_clients b \<and> b_cache b' = b_cache b"
  using assms(2,3)
proof (induction old arbitrary: b)
  case (Cons kr old)
  show ?case
  proof (cases "owner_alive b kr")
    case False
    with Cons.prems(1) have "reissue E old b = Some b'"
      by (auto simp: owner_alive_def split: option.splits)
    from Cons.IH [OF this Cons.prems(2)] False show ?thesis by simp
  next
    case True
    with Cons.prems(1) obtain newID b1 where
      r: "reserveConfigRequest (cr_client (snd kr)) (cr_originalID (snd kr)) b = Some (newID, b1)"
      by (auto simp: owner_alive_def split: option.splits)
    obtain e b2 where f: "forwardToSerial E (mk_ToRadio (ToRadio_WantConfigId newID)) b1 = (e, b2)"
      by fastforce
    have step: "reissue E (kr # old) b =
        (case e of Some err \<Rightarrow> Some (fail (Some err) b2) | None \<Rightarrow> reissue E old b2)"
      using True r f by (auto simp: owner_alive_def split: option.splits)
    have e: "e = None"
    proof (rule ccontr)
      assume "e \<noteq> None"
      with step Cons.prems show False
        by (auto simp: fail_def split: if_splits)
    qed
    with step Cons.prems(1) have IH: "reissue E old b2 = Some b'" by simp
    from forward_ok [OF assms(1) f [unfolded e]] obtain w h where
      w: "marshal_ToRadio E (mk_ToRadio (ToRadio_WantConfigId newID)) = Some w"
      and b2: "b2 = b1\<lparr>b_hub := h, b_serial_out := b_serial_out b1 @ encode_frame w\<rparr>" by blast
    have p2: "b_pendingConfig b2 = b_pendingConfig b @ [(newID, snd kr)]"
      using reserve_fields(3) [OF r] by (simp add: b2)
    have o2: "owner_alive b2 = owner_alive b"
      using reserve_frame(1) [OF r] by (auto simp: owner_alive_def b2 intro!: ext split: option.split)
    from Cons.IH [OF IH Cons.prems(2)] obtain new where n:
      "b_pendingConfig b' = b_pendingConfig b2 @ new"
      "map snd new = map snd (filter (owner_alive b2) old)"
      "b_serial_out b' = b_serial_out b2 @ concat (map (\<lambda>kr. want_frame E (fst kr)) new)"
      "b_heap b' = b_heap b2" "b_clients b' = b_clients b2" "b_cache b' = b_cache b2" by blast
    have "want_frame E newID = encode_frame w" by (simp add: want_frame_def w)
    then show ?thesis
      using n True reserve_frame(1,3,5,8) [OF r]
      by (intro exI [of _ "(newID, snd kr) # new"]) (simp add: p2 o2, simp add: b2)
  qed
qed simp

lemma handleRebooted_effect:
  assumes "env_ok E" and "handleRebooted E b = Some b'" and "\<not> b_done b'"
  shows "map snd (b_pendingConfig b') =
      map snd (filter (owner_alive b) (e_pending_order E (b_pendingConfig b))) \<and>
    b_serial_out b' = b_serial_out b @ concat (map (\<lambda>kr. want_frame E (fst kr)) (b_pendingConfig b')) \<and>
    b_heap b' = b_heap b \<and> b_clients b' = b_clients b \<and> b_cache b' = newConfigCache"
proof -
  let ?b = "b\<lparr>b_cache := cache_reset (b_cache b), b_pendingConfig := []\<rparr>"
  have r: "reissue E (e_pending_order E (b_pendingConfig b)) ?b = Some b'"
    using assms(2) by (simp add: handleRebooted_def Let_def)
  have o: "owner_alive (b\<lparr>b_cache := c, b_pendingConfig := m\<rparr>) = owner_alive b" for c m
    by (auto simp: owner_alive_def intro!: ext split: option.split)
  from reissue_effect [OF writer_of_env [OF assms(1)] r assms(3)] show ?thesis
    by (auto simp: o cache_reset_new)
qed

section \<open>Frames from the radio that are broadcast or consumed\<close>

text \<open>The state after a decoded frame has been observed and cached.\<close>

definition after_cache :: "bytes \<Rightarrow> FromRadio \<Rightarrow> broker \<Rightarrow> broker" where
  "after_cache payload msg b =
     (let b1 = logDecodedPayload ''serial -> broker'' '''' payload payloadFromRadio b
      in b1\<lparr>b_cache := cache_update msg payload (b_cache b1)\<rparr>)"

lemma after_cache_fields [frame, simp]:
  "b_heap (after_cache p m b) = b_heap b" "b_clients (after_cache p m b) = b_clients b"
  "b_next (after_cache p m b) = b_next b" "b_primary (after_cache p m b) = b_primary b"
  "b_serial_out (after_cache p m b) = b_serial_out b"
  "b_pendingConfig (after_cache p m b) = b_pendingConfig b"
  "b_outboundByPacket (after_cache p m b) = b_outboundByPacket b"
  "b_cannedWaiters (after_cache p m b) = b_cannedWaiters b"
  "b_now (after_cache p m b) = b_now b" "b_done (after_cache p m b) = b_done b"
  "b_cache (after_cache p m b) = cache_update m p (b_cache b)"
  by (simp_all add: after_cache_def Let_def)

lemma after_cache_inv:
  "broker_inv b \<Longrightarrow> p \<noteq> [] \<Longrightarrow> broker_inv (after_cache p m b)"
  unfolding after_cache_def Let_def
  by (rule broker_inv_cache) (simp, simp add: broker_inv_def cache_ok_update)

definition routed :: "FromRadio \<Rightarrow> bool" where
  "routed msg \<longleftrightarrow>
     (case FromRadio_Variant msg of
        Some (FromRadio_ConfigCompleteId _) \<Rightarrow> True
      | Some (FromRadio_Rebooted _) \<Rightarrow> True
      | _ \<Rightarrow> False)"

lemma routeFromRadio_not_routed:
  "\<not> routed msg \<Longrightarrow> routeFromRadio E msg b = Some (False, b)"
  by (auto simp: routeFromRadio_def routed_def split: option.splits FromRadio_PayloadVariant.splits)

lemma handleSerialPayload_decoded:
  assumes "unmarshal_FromRadio E payload = Some msg"
  shows "handleSerialPayload E payload b =
    (case routeFromRadio E msg (after_cache payload msg b) of
       None \<Rightarrow> None
     | Some (True, b3) \<Rightarrow> Some b3
     | Some (False, b3) \<Rightarrow>
         let pkt = FromRadio_GetPacket msg in
         if pkt \<noteq> None then
           (case tryDeliverCanned E pkt b3 of
              (True, b4) \<Rightarrow> Some b4
            | (False, b4) \<Rightarrow>
                (case consumeOutboundOrigin pkt b4 of
                   (Some origin, b5) \<Rightarrow>
                     Some (if \<not> packetSuppressesOriginEcho pkt
                           then sendToClient E origin payload b5 else b5)
                 | (None, b5) \<Rightarrow> Some (broadcast E payload b5)))
         else Some (broadcast E payload b3))"
  using assms by (simp add: handleSerialPayload_def after_cache_def Let_def)

lemma handleSerialPayload_plain:
  assumes "unmarshal_FromRadio E payload = Some msg" and "\<not> routed msg"
    and "FromRadio_GetPacket msg = None"
  shows "handleSerialPayload E payload b =
    Some (broadcast E payload (after_cache payload msg b))"
  using assms
  by (simp add: handleSerialPayload_decoded routeFromRadio_not_routed)

lemma packet_not_routed: "FromRadio_GetPacket msg \<noteq> None \<Longrightarrow> \<not> routed msg"
  by (auto simp: FromRadio_GetPacket_def routed_def
      split: option.splits FromRadio_PayloadVariant.splits)

lemma no_canned:
  assumes "extractCannedFromPacket E pkt = None \<or> map_of (b_cannedWaiters b) (MeshPacket_GetId pkt) = None"
  shows "tryDeliverCanned E pkt b = (False, b)"
  using assms by (auto simp: tryDeliverCanned_def split: option.split)

lemma handleSerialPayload_packet:
  assumes "unmarshal_FromRadio E payload = Some msg" and "FromRadio_GetPacket msg = Some pkt"
    and "extractCannedFromPacket E (Some pkt) = None \<or>
      map_of (b_cannedWaiters b) (MeshPacket_Id pkt) = None"
  shows "handleSerialPayload E payload b =
    Some (case consumeOutboundOrigin (Some pkt) (after_cache payload msg b) of
        (Some origin, b5) \<Rightarrow>
          if packetSuppressesOriginEcho (Some pkt) then b5 else sendToClient E origin payload b5
      | (None, b5) \<Rightarrow> broadcast E payload b5)"
proof -
  have "tryDeliverCanned E (Some pkt) (after_cache payload msg b) =
      (False, after_cache payload msg b)"
    using assms(3) by (intro no_canned) (simp add: MeshPacket_GetId_def)
  moreover have "\<not> routed msg" using assms(2) by (intro packet_not_routed) simp
  ultimately show ?thesis
    using assms by (simp add: handleSerialPayload_decoded routeFromRadio_not_routed
        split: prod.split option.split)
qed

text \<open>The echo of a packet a live client sent within the last thirty seconds.\<close>

lemma consume_own_echo:
  assumes "MeshPacket_Id pkt \<noteq> 0"
    and "map_of (b_outboundByPacket b) (MeshPacket_Id pkt) = Some \<lparr>oe_client = Some cl, oe_until = u\<rparr>"
    and "b_now b \<le> u" and "\<not> cl_done (the_client b cl)"
  shows "consumeOutboundOrigin (Some pkt) b =
    (Some cl, b\<lparr>b_outboundByPacket := AList.delete (MeshPacket_Id pkt) (b_outboundByPacket b)\<rparr>)"
  using assms by (simp add: consumeOutboundOrigin_def MeshPacket_GetId_def isClosed_def)

lemma consume_foreign:
  assumes "MeshPacket_Id pkt = 0 \<or> map_of (b_outboundByPacket b) (MeshPacket_Id pkt) = None"
  shows "consumeOutboundOrigin (Some pkt) b = (None, b)"
  using assms by (auto simp: consumeOutboundOrigin_def MeshPacket_GetId_def)

lemma noteOutbound_lookup:
  assumes "MeshPacket_Id pkt \<noteq> 0"
  shows "map_of (b_outboundByPacket (noteOutboundPacket cl (Some pkt) b)) (MeshPacket_Id pkt) =
    Some \<lparr>oe_client = Some cl, oe_until = b_now b + outboundEchoSuppress\<rparr>"
  using assms by (simp add: noteOutboundPacket_def MeshPacket_GetId_def Let_def)

section \<open>Packets from a client\<close>

lemma noteOutbound_rest [frame, simp]:
  "b_done (noteOutboundPacket cl pkt b) = b_done b" "b_err (noteOutboundPacket cl pkt b) = b_err b"
  "b_now (noteOutboundPacket cl pkt b) = b_now b" "b_rand (noteOutboundPacket cl pkt b) = b_rand b"
  by (simp_all add: noteOutboundPacket_def Let_def)

lemma handleClientPacket_ok:
  assumes "env_ok E" and "isPrimary cl b \<or> \<not> b_readOnlyClients b"
    and "\<not> b_done (handleClientPacket E cl t (Some pkt) b)"
  shows "\<exists>w h. marshal_ToRadio E t = Some w \<and>
    handleClientPacket E cl t (Some pkt) b =
      announcePacket E cl (Some pkt) (b\<lparr>b_hub := h, b_serial_out := b_serial_out b @ encode_frame w\<rparr>)"
proof (cases "forwardToSerial E t b")
  case (Pair e b1)
  with assms(2,3) have e: "e = None"
    by (auto simp: handleClientPacket_def fail_def split: option.splits if_splits)
  from forward_ok [OF writer_of_env [OF assms(1)] Pair [unfolded e]] Pair e assms(2) show ?thesis
    by (auto simp: handleClientPacket_def)
qed

lemma announcePacket_fields [simp]:
  "b_serial_out (announcePacket E cl pkt b) = b_serial_out b" "b_now (announcePacket E cl pkt b) = b_now b"
  by (simp_all add: announcePacket_def Let_def split: option.split)

section \<open>The serial reader on a byte stream\<close>

text \<open>
  What may stand on the link between two reads: bytes without the first magic byte, a
  header with length zero, and whole frames.
\<close>

datatype link_item = Noise bytes | EmptyFrame | Whole bytes

fun link_bytes :: "link_item \<Rightarrow> bytes" where
  "link_bytes (Noise bs) = bs"
| "link_bytes EmptyFrame = [Magic0, Magic1, 0, 0]"
| "link_bytes (Whole p) = encode_frame p"

fun link_item_ok :: "link_item \<Rightarrow> bool" where
  "link_item_ok (Noise bs) \<longleftrightarrow> Magic0 \<notin> set bs"
| "link_item_ok EmptyFrame \<longleftrightarrow> True"
| "link_item_ok (Whole p) \<longleftrightarrow> frame_ok p"

fun link_payloads :: "link_item list \<Rightarrow> bytes list" where
  "link_payloads [] = []"
| "link_payloads (Whole p # xs) = p # link_payloads xs"
| "link_payloads (Noise bs # xs) = link_payloads xs"
| "link_payloads (EmptyFrame # xs) = link_payloads xs"

primrec serial_loop :: "'a env_scheme \<Rightarrow> bytes list \<Rightarrow> broker \<Rightarrow> broker option" where
  "serial_loop E [] b = Some b"
| "serial_loop E (p # ps) b =
     (if b_done b then Some b
      else case handleSerialPayload E p b of None \<Rightarrow> None | Some b1 \<Rightarrow> serial_loop E ps b1)"

lemma ReadFrame_EmptyFrame:
  "ReadFrame (link_bytes EmptyFrame @ rest, e) = (Inl (ErrInvalidFrame 0), (rest, e))"
  by (simp add: ReadFrame_magic read_body_cases be_uint16_def)

lemma serial_loop_done: "b_done b \<Longrightarrow> serial_loop E ps b = Some b"
  by (cases ps) simp_all

lemma readSerial_items:
  "list_all link_item_ok xs \<Longrightarrow> serial_loop E (link_payloads xs) b = Some b' \<Longrightarrow> \<not> b_done b' \<Longrightarrow>
     readSerial E (concat (map link_bytes xs), e) b = Some (b', Some ErrSerialClosed, ([], e))"
proof (induction xs arbitrary: b rule: link_payloads.induct)
  case 1
  then show ?case by (simp add: readSerial.simps ReadFrame_empty)
next
  case (2 p xs)
  then have nd: "\<not> b_done b" by (auto simp: serial_loop_done)
  with 2 show ?case
    by (subst readSerial.simps) (auto simp: ReadFrame_encode split: option.splits)
next
  case (3 bs xs)
  then have nd: "\<not> b_done b" by (auto simp: serial_loop_done)
  have "readSerial E (bs @ concat (map link_bytes xs), e) b =
      readSerial E (concat (map link_bytes xs), e) b"
    using "3.prems"(1) nd by (subst (1 2) readSerial.simps) (simp add: ReadFrame_junk)
  with 3 show ?case by simp
next
  case (4 xs)
  then have nd: "\<not> b_done b" by (auto simp: serial_loop_done)
  have "readSerial E (link_bytes EmptyFrame @ concat (map link_bytes xs), e) b =
      readSerial E (concat (map link_bytes xs), e) b"
    by (subst readSerial.simps) (simp only: ReadFrame_EmptyFrame, simp add: nd)
  with 4 show ?case by simp
qed

section \<open>Nonces\<close>

lemma pick_nonce_None:
  "pick_nonce ds m = None \<Longrightarrow> draw_id ` set ds \<subseteq> insert 0 (fst ` set m)"
  by (induction ds m rule: pick_nonce.induct)
    (auto split: if_splits simp: map_of_eq_None_iff dest: map_of_SomeD)

lemma pick_nonce_enough:
  assumes "length m < card (draw_id ` set ds - {0})"
  shows "pick_nonce ds m \<noteq> None"
proof
  assume "pick_nonce ds m = None"
  then have "draw_id ` set ds - {0} \<subseteq> fst ` set m" using pick_nonce_None by blast
  then have "card (draw_id ` set ds - {0}) \<le> card (fst ` set m)"
    by (intro card_mono) simp_all
  also have "\<dots> \<le> length m" by (metis card_image_le card_length finite_set order_trans)
  finally show False using assms by simp
qed

section \<open>Canned messages\<close>

lemma tryDeliver_waiting:
  assumes "extractCannedFromPacket E (Some pkt) = Some raw"
    and "map_of (b_cannedWaiters b) (MeshPacket_Id pkt) = Some ch"
    and "b_chans b ch = make_chan 1"
  shows "tryDeliverCanned E (Some pkt) b =
    (True, b\<lparr>b_chans := (b_chans b)(ch := \<lparr>chan_buf = [ParseCannedMessages raw], chan_cap = 1,
        chan_closed = False\<rparr>),
       b_cannedCache := ParseCannedMessages raw, b_cannedCacheAt := b_now b\<rparr>)"
  using assms
  by (simp add: tryDeliverCanned_def Let_def MeshPacket_GetId_def storeCannedCache_def chan_offer_def
      chan_try_send_def make_chan_def)

lemma FetchBegin_waiting:
  assumes "FetchCanned_begin E b = Some (FetchWaiting pktID ch, b1)"
  shows "map_of (b_cannedWaiters b1) pktID = Some ch \<and> b_chans b1 ch = make_chan 1 \<and>
    ch = b_nextchan b"
proof -
  obtain cached b0 where c: "cachedCanned b = (cached, b0)" by fastforce
  have n0: "b_nextchan b0 = b_nextchan b" using c by (auto simp: cachedCanned_def split: if_splits)
  from assms c obtain b2 b3 t where n: "nextPacketID b0 = Some (pktID, b2)"
    and r: "registerCannedWait pktID b2 = (ch, b3)" and f: "forwardToSerial E t b3 = (None, b1)"
    by (auto simp: FetchCanned_begin_def split: if_splits prod.splits option.splits)
  have n2: "b_nextchan b2 = b_nextchan b0"
    using n by (auto simp: nextPacketID_def split: list.splits rand_draw.splits)
  from forward_hub [of E t b3] f obtain h out where "b1 = b3\<lparr>b_hub := h, b_serial_out := out\<rparr>" by auto
  with r n0 n2 show ?thesis by (auto simp: registerCannedWait_def Let_def)
qed

end
