(* ===== verification/Sample.thy ===== *)
theory Sample
  imports Effects
begin

text \<open>
  A concrete environment for the examples: a protobuf library that knows a handful of
  messages, written as one tag byte and their fields, a serial device that accepts
  every write, and map iteration in list order. The witnesses of the broker's
  properties instantiate the parameters of the model with it.
\<close>

definition sample_packet :: "byte \<Rightarrow> byte \<Rightarrow> MeshPacket" where
  "sample_packet i port =
     zero_MeshPacket\<lparr>MeshPacket_Id := ucast i,
       MeshPacket_Variant := Some (MeshPacket_Decoded (Some (zero_Data\<lparr>
         Data_Portnum := ucast port, Data_Payload := [i]\<rparr>)))\<rparr>"

definition sample_unmarshal_FromRadio :: "bytes \<Rightarrow> FromRadio option" where
  "sample_unmarshal_FromRadio bs =
     (if length bs = 2 \<and> bs ! 0 = 1
      then Some (mk_FromRadio (FromRadio_MyInfo
        (Some \<lparr>MyNodeInfo_MyNodeNum = ucast (bs ! 1), MyNodeInfo_rest = []\<rparr>)))
      else if length bs = 3 \<and> bs ! 0 = 2
      then Some (mk_FromRadio (FromRadio_Packet (Some (sample_packet (bs ! 1) (bs ! 2)))))
      else if length bs = 2 \<and> bs ! 0 = 3
      then Some (mk_FromRadio (FromRadio_ConfigCompleteId (ucast (bs ! 1))))
      else if bs = [4] then Some (mk_FromRadio (FromRadio_Rebooted True))
      else if bs = [5] then Some (mk_FromRadio (FromRadio_Metadata []))
      else None)"

definition sample_unmarshal_ToRadio :: "bytes \<Rightarrow> ToRadio option" where
  "sample_unmarshal_ToRadio bs =
     (if length bs = 2 \<and> bs ! 0 = 1
      then Some (mk_ToRadio (ToRadio_WantConfigId (ucast (bs ! 1))))
      else if length bs = 3 \<and> bs ! 0 = 2
      then Some (mk_ToRadio (ToRadio_Packet (Some (sample_packet (bs ! 1) (bs ! 2)))))
      else if bs = [3] then Some (mk_ToRadio (ToRadio_Disconnect True))
      else if bs = [4] then Some (mk_ToRadio (ToRadio_Heartbeat []))
      else None)"

definition sample_unmarshal_Admin :: "bytes \<Rightarrow> AdminMessage option" where
  "sample_unmarshal_Admin bs =
     Some (Some (AdminMessage_GetCannedMessageModuleMessagesResponse ''ok|bye''))"

definition port_byte :: "MeshPacket option \<Rightarrow> byte" where
  "port_byte p = ucast (Data_GetPortnum (MeshPacket_GetDecoded p))"

definition sample_marshal_FromRadio :: "FromRadio \<Rightarrow> bytes option" where
  "sample_marshal_FromRadio m =
     (case FromRadio_Variant m of
        Some (FromRadio_ConfigCompleteId v) \<Rightarrow> Some [3, ucast v]
      | Some (FromRadio_Packet p) \<Rightarrow> Some [2, ucast (MeshPacket_GetId p), port_byte p]
      | _ \<Rightarrow> None)"

definition sample_marshal_ToRadio :: "ToRadio \<Rightarrow> bytes option" where
  "sample_marshal_ToRadio m =
     (case ToRadio_Variant m of
        Some (ToRadio_WantConfigId v) \<Rightarrow> Some [1, ucast v]
      | Some (ToRadio_Packet p) \<Rightarrow> Some [2, ucast (MeshPacket_GetId p), port_byte p]
      | Some (ToRadio_Disconnect _) \<Rightarrow> Some [3]
      | Some (ToRadio_Heartbeat _) \<Rightarrow> Some [4]
      | _ \<Rightarrow> None)"

definition sample_env :: env where
  "sample_env =
     \<lparr>unmarshal_FromRadio = sample_unmarshal_FromRadio,
      unmarshal_ToRadio = sample_unmarshal_ToRadio,
      unmarshal_AdminMessage = sample_unmarshal_Admin,
      marshal_FromRadio = sample_marshal_FromRadio,
      marshal_ToRadio = sample_marshal_ToRadio,
      marshal_AdminMessage = (\<lambda>_. Some [7]),
      e_writer = buffer_writer, e_client_order = (\<lambda>xs. xs), e_pending_order = (\<lambda>m. m)\<rparr>"

lemma env_ok_sample [simp]: "env_ok sample_env"
  by (simp add: env_ok_def sample_env_def)

lemma sample_fields [simp]:
  "unmarshal_FromRadio sample_env = sample_unmarshal_FromRadio"
  "unmarshal_ToRadio sample_env = sample_unmarshal_ToRadio"
  "unmarshal_AdminMessage sample_env = sample_unmarshal_Admin"
  "marshal_FromRadio sample_env = sample_marshal_FromRadio"
  "marshal_ToRadio sample_env = sample_marshal_ToRadio"
  "marshal_AdminMessage sample_env = (\<lambda>_. Some [7])"
  "e_writer sample_env = buffer_writer" "e_client_order sample_env = (\<lambda>xs. xs)"
  "e_pending_order sample_env = (\<lambda>m. m)"
  by (simp_all add: sample_env_def)

text \<open>A broker with two clients, the first of them the primary.\<close>

definition sample_broker :: "bool \<Rightarrow> broker" where
  "sample_broker readOnly =
     snd (AddClient sample_env ''b'' (snd (AddClient sample_env ''a''
       (New readOnly False 0 [RandOk 0, RandOk 9, RandOk 11]))))"

lemma sample_broker_eq:
  "sample_broker ro =
     (New ro False 0 [RandOk 0, RandOk 9, RandOk 11])\<lparr>
       b_heap := ((\<lambda>_. newClient '''')(0 := newClient ''a''))(1 := newClient ''b''), b_next := 2,
       b_clients := [0, 1], b_primary := Some 0\<rparr>"
  by (simp add: sample_broker_def AddClient_def Let_def PublishStatus_def New_def)

lemma sample_broker_inv [simp]: "broker_inv (sample_broker ro)"
  unfolding sample_broker_def by (intro inv_AddClient broker_inv_New)

lemma sample_broker_fields [simp]:
  "b_clients (sample_broker ro) = [0, 1]" "b_primary (sample_broker ro) = Some 0"
  "b_next (sample_broker ro) = 2" "b_serial_out (sample_broker ro) = []"
  "b_cache (sample_broker ro) = newConfigCache" "b_done (sample_broker ro) = False"
  "b_pendingConfig (sample_broker ro) = []" "b_outboundByPacket (sample_broker ro) = []"
  "b_readOnlyClients (sample_broker ro) = ro" "b_observability (sample_broker ro) = False"
  "b_rand (sample_broker ro) = [RandOk 0, RandOk 9, RandOk 11]" "b_now (sample_broker ro) = 0"
  "b_cannedWaiters (sample_broker ro) = []"
  "the_client (sample_broker ro) 0 = newClient ''a''"
  "the_client (sample_broker ro) 1 = newClient ''b''"
  "the_client (sample_broker ro) (Suc 0) = newClient ''b''"
  by (simp_all add: sample_broker_eq New_def)

lemma newClient_fields [simp]:
  "\<not> cl_done (newClient a)" "send_room (newClient a)" "client_queue (newClient a) = []"
  by (simp_all add: newClient_def send_room_def make_chan_def clientSendBuffer_def)

end
