(* ===== verification/BrokerProps.thy ===== *)
theory BrokerProps
  imports Sample
begin

text \<open>
  The properties of the broker: the invariant and the delivery order in every run of
  the system, and what each handler does to the serial link, to the clients' queues and
  to the broker's tables. Every property with hypotheses is followed by an instance on
  the environment and the broker of \<open>Sample\<close>.
\<close>

section \<open>Runs\<close>



text \<open>
  C1: a client receives what was queued for it, in the order it was queued, with no
  loss, no duplicate and no reordering, whatever else runs: along every run, as long as
  its write loop is alive, the payloads delivered followed by the queue only ever
  extend at the end, and its connection carries exactly their frames.
\<close>

theorem delivery_in_order:
  assumes "env_ok E" and "initial s0" and "(sys_step E)\<^sup>*\<^sup>* s0 s" and "(sys_step E)\<^sup>*\<^sup>* s t"
    and "live s cl" and "s_writer t cl"
  shows "prefix (s_delivered s cl @ queue_of (s_broker s) cl)
      (s_delivered t cl @ queue_of (s_broker t) cl) \<and>
    s_wire t cl = concat (map encode_frame (s_delivered t cl))"
proof -
  have "sys_inv t"
    using run_ok [OF _ assms(1)] assms(2-4) broker_sys.inv_reachable rtranclp_trans by metis
  then show ?thesis
    using run_streams [OF assms(4,5)] assms(6) by (simp add: sys_inv_def stream_def)
qed

definition sample_start :: sys where
  "sample_start = (sys_init (New False False 0 []))\<lparr>s_broker :=
     snd (AddClient sample_env ''a'' (New False False 0 []))\<rparr>"

lemma sample_start_reached: "(sys_step sample_env)\<^sup>*\<^sup>* (sys_init (New False False 0 [])) sample_start"
proof -
  have "sys_step sample_env (sys_init (New False False 0 []))
     ((sys_init (New False False 0 []))\<lparr>s_broker :=
        snd (AddClient sample_env ''a'' (s_broker (sys_init (New False False 0 []))))\<rparr>)"
    by (rule Accept)
  then show ?thesis by (simp add: sample_start_def sys_init_def r_into_rtranclp)
qed

lemma sample_start_fields [simp]:
  "s_broker sample_start = snd (AddClient sample_env ''a'' (New False False 0 []))"
  "s_writer sample_start = (\<lambda>_. True)" "s_reader sample_start = (\<lambda>_. RIdle)"
  "s_delivered sample_start = (\<lambda>_. [])" "s_wire sample_start = (\<lambda>_. [])"
  by (simp_all add: sample_start_def sys_init_def)

lemma AddClient_New_fields [simp]:
  "b_next (snd (AddClient E a (New ro obs now rnd))) = 1"
  "the_client (snd (AddClient E a (New ro obs now rnd))) 0 = newClient a"
  by (simp_all add: AddClient_def Let_def New_def)

theorem delivery_in_order_witness:
  "\<exists>t. (sys_step sample_env)\<^sup>*\<^sup>* sample_start t \<and>
     prefix (s_delivered sample_start 0 @ queue_of (s_broker sample_start) 0)
       (s_delivered t 0 @ queue_of (s_broker t) 0) \<and>
     s_wire t 0 = concat (map encode_frame (s_delivered t 0))"
proof -
  have "sys_step sample_env sample_start (sample_start\<lparr>s_broker := PublishStatus sample_env (s_broker sample_start)\<rparr>)"
    by (rule Publish)
  then have run: "(sys_step sample_env)\<^sup>*\<^sup>* sample_start
      (sample_start\<lparr>s_broker := PublishStatus sample_env (s_broker sample_start)\<rparr>)" by blast
  have "initial (sys_init (New False False 0 []))" by (auto simp: initial_def)
  from delivery_in_order [OF env_ok_sample this sample_start_reached run, of 0] run
  show ?thesis by (intro exI conjI) auto
qed

text \<open>
  C5: a client that asks for the configuration while the cache is ready can be served
  entirely from the cache: the handler changes nothing in the broker but the
  observations it reports (the radio is not asked), and there is a run in which the client's stream grows by exactly the cached
  frames in replay order followed by \<open>ConfigCompleteId\<close> with the client's own id,
  however many frames there are.
\<close>

theorem cached_config_replayed:
  assumes "broker_inv (s_broker s)" and "live s cl" and "s_reader s cl = RIdle" and "s_writer s cl"
    and "frame_ok p" and "unmarshal_ToRadio E p = Some m"
    and "ToRadio_Variant m = Some (ToRadio_WantConfigId oid)"
    and "cache_ready (b_cache (s_broker s))"
    and "marshal_FromRadio E (mk_FromRadio (FromRadio_ConfigCompleteId oid)) = Some d"
    and "ps = snapshot_payloads (cache_snapshot (b_cache (s_broker s))) @ [d]"
    and "\<forall>q \<in> set (queue_of (s_broker s) cl @ ps). length q \<le> MaxSize"
  shows "(\<exists>h. readLoop_frame E cl p (s_broker s) = Some ((s_broker s)\<lparr>b_hub := h\<rparr>, ps)) \<and>
    (\<exists>t. (sys_step E)\<^sup>*\<^sup>* s t \<and> s_reader t cl = RIdle \<and> stream t cl = stream s cl @ ps)"
proof -
  from logDecodedPayload_hub obtain h where
    h: "logDecodedPayload ''client -> broker'' (cl_addr (the_client (s_broker s) cl)) p
      payloadToRadio (s_broker s) = (s_broker s)\<lparr>b_hub := h\<rparr>" by blast
  have rl: "readLoop_frame E cl p (s_broker s) = Some ((s_broker s)\<lparr>b_hub := h\<rparr>, ps)"
    using assms(6-10)
    by (simp add: readLoop_frame_def h handleClientPayload_def handleWantConfig_def sendCachedConfig_def)
  let ?s = "s\<lparr>s_broker := (s_broker s)\<lparr>b_hub := h\<rparr>, s_reader := (s_reader s)(cl := replay_pc ps)\<rparr>"
  have step: "sys_step E s ?s" using assms(2,3,5) rl by (rule ClientFrame)
  have "\<exists>t. (sys_step E)\<^sup>*\<^sup>* ?s t \<and> s_reader t cl = RIdle \<and> s_writer t cl \<and>
      stream t cl = stream ?s cl @ ps \<and>
      cl_done (the_client (s_broker t) cl) = cl_done (the_client (s_broker ?s) cl)"
    by (rule replay_completes) (use assms(1-4,11) inv_client_ok in auto)
  then show ?thesis
    using step rl by (auto simp: stream_def intro: converse_rtranclp_into_rtranclp)
qed

theorem cached_config_witness:
  "\<exists>s t. (sys_step sample_env)\<^sup>*\<^sup>* s t \<and> stream t 0 = stream s 0 @ [[1, 42], [3, 5]]"
proof -
  let ?c = "newConfigCache\<lparr>cc_myInfo := Some [1, 42]\<rparr>"
  let ?b = "(sample_broker False)\<lparr>b_cache := ?c\<rparr>"
  have p: "snapshot_payloads (cache_snapshot ?c) = [[1, 42]]" by code_simp
  have i: "broker_inv ?b"
    by (rule broker_inv_cache) (simp_all add: cache_ok_def newConfigCache_def)
  have "(\<exists>h. readLoop_frame sample_env 0 [1, 5] (s_broker (sys_init ?b)) =
      Some ((s_broker (sys_init ?b))\<lparr>b_hub := h\<rparr>, [[1, 42], [3, 5]])) \<and>
    (\<exists>t. (sys_step sample_env)\<^sup>*\<^sup>* (sys_init ?b) t \<and> s_reader t 0 = RIdle \<and>
      stream t 0 = stream (sys_init ?b) 0 @ [[1, 42], [3, 5]])"
    by (rule cached_config_replayed [where oid = 5 and d = "[3, 5]" and m = "mk_ToRadio (ToRadio_WantConfigId 5)"])
      (use i in \<open>simp_all add: p sys_init_def frame_ok_def MaxSize_def sample_unmarshal_ToRadio_def
        sample_marshal_FromRadio_def mk_FromRadio_def mk_ToRadio_def cache_ready_def\<close>)
  then show ?thesis by blast
qed

section \<open>The configuration handshake\<close>

text \<open>
  C2: the handshake with a cold cache. A client's \<open>WantConfigId\<close> puts one frame on the
  serial link, the client's own message with its id replaced by a fresh non-zero nonce;
  the nonce is the client's only pending request. When the radio answers with that
  nonce, the client, and no other, is sent \<open>ConfigCompleteId\<close> with its original id,
  the request is gone, and a repeated answer changes nothing.
\<close>

theorem config_handshake:
  assumes "env_ok E" and "broker_inv b" and "cl \<in> set (b_clients b)"
    and "send_room (the_client b cl)" and "\<not> cache_ready (b_cache b)"
    and "unmarshal_ToRadio E p = Some m" and "ToRadio_Variant m = Some (ToRadio_WantConfigId oid)"
    and "handleClientPayload E cl p b = Some (b1, ps)" and "\<not> b_done b1"
    and "marshal_FromRadio E (mk_FromRadio (FromRadio_ConfigCompleteId oid)) = Some d"
  shows "\<exists>nonce w b2. ps = [] \<and> nonce \<noteq> 0 \<and>
    marshal_ToRadio E (m\<lparr>ToRadio_Variant := Some (ToRadio_WantConfigId nonce)\<rparr>) = Some w \<and>
    b_serial_out b1 = b_serial_out b @ encode_frame w \<and>
    filter (\<lambda>kr. cr_client (snd kr) = Some cl) (b_pendingConfig b1) =
      [(nonce, \<lparr>cr_client = Some cl, cr_originalID = oid\<rparr>)] \<and>
    b2 = handleConfigComplete E nonce b1 \<and>
    (\<forall>c. queue_of b2 c = (if c = cl then queue_of b c @ [d] else queue_of b c)) \<and>
    b_serial_out b2 = b_serial_out b1 \<and>
    map_of (b_pendingConfig b2) = (map_of (b_pendingConfig b1))(nonce := None) \<and>
    handleConfigComplete E nonce b2 = b2"
proof -
  from assms(6-8) have "handleWantConfig E cl m oid b = Some (b1, ps)"
    by (simp add: handleClientPayload_def)
  from handleWantConfig_cold [OF assms(1,2,5) this assms(9)] obtain nonce w where
    n: "ps = []" "nonce \<noteq> 0" "nonce \<notin> fst ` set (b_pendingConfig (dropPendingForClient cl b))"
    "marshal_ToRadio E (m\<lparr>ToRadio_Variant := Some (ToRadio_WantConfigId nonce)\<rparr>) = Some w"
    "b_serial_out b1 = b_serial_out b @ encode_frame w" "b_heap b1 = b_heap b"
    and pend: "b_pendingConfig b1 = b_pendingConfig (dropPendingForClient cl b) @
      [(nonce, \<lparr>cr_client = Some cl, cr_originalID = oid\<rparr>)]" by blast
  have own: "filter (\<lambda>kr. cr_client (snd kr) = Some cl) (b_pendingConfig b1) =
      [(nonce, \<lparr>cr_client = Some cl, cr_originalID = oid\<rparr>)]"
    by (auto simp: pend dropPendingForClient_def filter_empty_conv)
  have look: "map_of (b_pendingConfig b1) nonce = Some \<lparr>cr_client = Some cl, cr_originalID = oid\<rparr>"
    using n(3) [folded map_of_eq_None_iff] by (simp add: pend map_add_def)
  have lt: "cl < b_next b" and alive: "\<not> cl_done (the_client b cl)"
    using assms(2,3) by (auto simp: broker_inv_def clients_inv_def)
  have inv1: "broker_inv b1"
    using inv_handleClientPayload [OF assms(8,1,2) lt] .
  have h: "\<not> cl_done (the_client b1 cl)" "send_room (the_client b1 cl)"
    using alive assms(4) n(6) by simp_all
  note c = handleConfigComplete_pending [OF assms(1) inv1 look assms(10) h]
  have "handleConfigComplete E nonce (handleConfigComplete E nonce b1) = handleConfigComplete E nonce b1"
    by (rule handleConfigComplete_unknown) (simp add: c(2))
  with n own c show ?thesis by (intro exI conjI) auto
qed

theorem config_handshake_witness:
  "\<exists>b1 b2. handleClientPayload sample_env 1 [1, 5] (sample_broker True) = Some (b1, []) \<and>
     b_serial_out b1 = encode_frame [1, 9] \<and> handleConfigComplete sample_env 9 b1 = b2 \<and>
     queue_of b2 1 = [[3, 5]] \<and> queue_of b2 0 = [] \<and> b_pendingConfig b2 = []"
proof -
  let ?b1 = "(sample_broker True)\<lparr>b_serial_out := encode_frame [1, 9], b_rand := [RandOk 11],
     b_pendingConfig := [(9, \<lparr>cr_client = Some 1, cr_originalID = 5\<rparr>)]\<rparr>"
  have r: "handleClientPayload sample_env 1 [1, 5] (sample_broker True) = Some (?b1, [])"
    by (simp add: handleClientPayload_def handleWantConfig_def sample_unmarshal_ToRadio_def
        mk_ToRadio_def dropPendingForClient_def reserveConfigRequest_def draw_id_def
        forward_or_fail_def forwardToSerial_def sample_marshal_ToRadio_def writeSerial_def
        logDecodedPayload_def MaxSize_def)
  from config_handshake [OF env_ok_sample sample_broker_inv, of 1 True "[1, 5]"
      "mk_ToRadio (ToRadio_WantConfigId 5)" 5 ?b1 "[]" "[3, 5]"]
  have "\<exists>nonce w b2. nonce \<noteq> 0 \<and>
    filter (\<lambda>kr. cr_client (snd kr) = Some 1) (b_pendingConfig ?b1) =
      [(nonce, \<lparr>cr_client = Some 1, cr_originalID = 5\<rparr>)] \<and>
    b2 = handleConfigComplete sample_env nonce ?b1 \<and>
    (\<forall>c. queue_of b2 c = (if c = 1 then queue_of (sample_broker True) c @ [[3, 5]]
      else queue_of (sample_broker True) c)) \<and>
    map_of (b_pendingConfig b2) = (map_of (b_pendingConfig ?b1))(nonce := None)"
    using r by (auto simp: sample_unmarshal_ToRadio_def mk_ToRadio_def sample_marshal_FromRadio_def
        mk_FromRadio_def)
  then obtain b2 where b2: "b2 = handleConfigComplete sample_env 9 ?b1"
    "queue_of b2 1 = [[3, 5]]" "queue_of b2 0 = []" "map_of (b_pendingConfig b2) = Map.empty"
    by auto
  have "b_pendingConfig b2 = []" using b2(4) by simp
  with r b2 show ?thesis by (intro exI [of _ ?b1] exI [of _ b2]) simp
qed

text \<open>
  C7: a reboot of the radio reaches no client. The cache is cleared, every pending
  request whose owner still lives is asked again under a new nonce and keeps its owner
  and original id, requests of closed clients are dropped, and the serial link gets
  exactly one \<open>WantConfigId\<close> per request kept, in order.
\<close>

theorem reboot_reissues:
  assumes "env_ok E" and "unmarshal_FromRadio E p = Some msg"
    and "FromRadio_Variant msg = Some (FromRadio_Rebooted flag)"
    and "handleSerialPayload E p b = Some b'" and "\<not> b_done b'"
  shows "(\<forall>c. the_client b' c = the_client b c) \<and> b_clients b' = b_clients b \<and>
    b_cache b' = newConfigCache \<and>
    map snd (b_pendingConfig b') =
      map snd (filter (owner_alive b) (e_pending_order E (b_pendingConfig b))) \<and>
    b_serial_out b' = b_serial_out b @ concat (map (\<lambda>kr. want_frame E (fst kr)) (b_pendingConfig b'))"
proof -
  let ?b = "after_cache p msg b"
  have "routeFromRadio E msg ?b = map_option (\<lambda>b1. (True, b1)) (handleRebooted E ?b)"
    using assms(3) by (simp add: routeFromRadio_def)
  with assms(2,4) have r: "handleRebooted E ?b = Some b'"
    by (auto simp: handleSerialPayload_decoded split: option.splits bool.splits)
  have o: "owner_alive ?b = owner_alive b"
    by (auto simp: owner_alive_def intro!: ext split: option.split)
  from handleRebooted_effect [OF assms(1) r assms(5)] show ?thesis by (simp add: o)
qed

theorem reboot_reissues_witness:
  "\<exists>b'. handleSerialPayload sample_env [4] ((sample_broker False)\<lparr>b_pendingConfig :=
       [(7, \<lparr>cr_client = Some 1, cr_originalID = 5\<rparr>)]\<rparr>) = Some b' \<and>
     b_pendingConfig b' = [(9, \<lparr>cr_client = Some 1, cr_originalID = 5\<rparr>)] \<and>
     b_serial_out b' = want_frame sample_env 9"
proof -
  let ?b = "(sample_broker False)\<lparr>b_pendingConfig := [(7, \<lparr>cr_client = Some 1, cr_originalID = 5\<rparr>)]\<rparr>"
  let ?b' = "(sample_broker False)\<lparr>b_pendingConfig := [(9, \<lparr>cr_client = Some 1, cr_originalID = 5\<rparr>)],
    b_rand := [RandOk 11], b_serial_out := encode_frame [1, 9], b_cache := newConfigCache\<rparr>"
  have r: "handleSerialPayload sample_env [4] ?b = Some ?b'"
    by (simp add: handleSerialPayload_def sample_unmarshal_FromRadio_def mk_FromRadio_def
        logDecodedPayload_def routeFromRadio_def handleRebooted_def isClosed_def
        reserveConfigRequest_def draw_id_def forwardToSerial_def mk_ToRadio_def
        sample_marshal_ToRadio_def writeSerial_def MaxSize_def cache_reset_new)
  with reboot_reissues [OF env_ok_sample, of "[4]" "mk_FromRadio (FromRadio_Rebooted True)" True ?b ?b']
  show ?thesis
    by (auto simp: sample_unmarshal_FromRadio_def mk_FromRadio_def)
qed

section \<open>Traffic from clients\<close>

lemma announcePacket_effect:
  assumes "env_ok E" and "broker_inv b" and "cl < b_next b"
    and "marshal_FromRadio E (mk_FromRadio (FromRadio_Packet (Some pkt))) = Some d"
  shows "queue_of (announcePacket E cl (Some pkt) b) c =
      (if c \<in> set (b_clients b) \<and> c \<noteq> cl \<and> send_room (the_client b c) then queue_of b c @ [d] else queue_of b c)"
    and "set (b_clients (announcePacket E cl (Some pkt) b)) = {c \<in> set (b_clients b). c = cl \<or> send_room (the_client b c)}"
    and "MeshPacket_Id pkt \<noteq> 0 \<Longrightarrow> map_of (b_outboundByPacket (announcePacket E cl (Some pkt) b)) (MeshPacket_Id pkt) =
      Some \<lparr>oe_client = Some cl, oe_until = b_now b + outboundEchoSuppress\<rparr>"
proof -
  have eq: "announcePacket E cl (Some pkt) b = broadcastExcept E d (Some cl) (noteOutboundPacket cl (Some pkt) b)"
    using assms(4) by (simp add: announcePacket_def)
  have "broker_inv (noteOutboundPacket cl (Some pkt) b)" using assms(2,3) by (rule inv_noteOutbound)
  note e = broadcastExcept_effect [OF assms(1) this, where p = d and ex = "Some cl"]
  show "queue_of (announcePacket E cl (Some pkt) b) c =
      (if c \<in> set (b_clients b) \<and> c \<noteq> cl \<and> send_room (the_client b c) then queue_of b c @ [d] else queue_of b c)"
    using e(1) [of c] by (auto simp: eq)
  show "set (b_clients (announcePacket E cl (Some pkt) b)) = {c \<in> set (b_clients b). c = cl \<or> send_room (the_client b c)}"
    using e(2) by (auto simp: eq)
  show "MeshPacket_Id pkt \<noteq> 0 \<Longrightarrow> map_of (b_outboundByPacket (announcePacket E cl (Some pkt) b)) (MeshPacket_Id pkt) =
      Some \<lparr>oe_client = Some cl, oe_until = b_now b + outboundEchoSuppress\<rparr>"
    using noteOutbound_lookup [of pkt cl b] by (simp add: eq)
qed

text \<open>
  C3: a packet from a client that may write (the primary, or anyone unless clients are
  read-only) goes to the serial link as one frame and, as a \<open>FromRadio\<close> packet, exactly
  once to every other live client that has room; a client without room is disconnected,
  the sender gets no copy, and the packet is remembered for thirty seconds as the
  sender's.
\<close>

theorem client_packet_fans_out:
  assumes "env_ok E" and "broker_inv b" and "cl < b_next b"
    and "isPrimary cl b \<or> \<not> b_readOnlyClients b"
    and "unmarshal_ToRadio E p = Some m" and "ToRadio_Variant m = Some (ToRadio_Packet (Some pkt))"
    and "handleClientPayload E cl p b = Some (b', ps)" and "\<not> b_done b'"
    and "marshal_FromRadio E (mk_FromRadio (FromRadio_Packet (Some pkt))) = Some d"
  shows "(\<exists>w. marshal_ToRadio E m = Some w \<and> b_serial_out b' = b_serial_out b @ encode_frame w) \<and>
    (\<forall>c. queue_of b' c = (if c \<in> set (b_clients b) \<and> c \<noteq> cl \<and> send_room (the_client b c)
       then queue_of b c @ [d] else queue_of b c)) \<and>
    set (b_clients b') = {c \<in> set (b_clients b). c = cl \<or> send_room (the_client b c)} \<and>
    (MeshPacket_Id pkt \<noteq> 0 \<longrightarrow> map_of (b_outboundByPacket b') (MeshPacket_Id pkt) =
       Some \<lparr>oe_client = Some cl, oe_until = b_now b + outboundEchoSuppress\<rparr>)"
proof -
  have b': "b' = handleClientPacket E cl m (Some pkt) b"
    using assms(5-7) by (simp add: handleClientPayload_def)
  from handleClientPacket_ok [OF assms(1,4) assms(8) [unfolded b']] obtain w h where
    w: "marshal_ToRadio E m = Some w" and eq: "b' = announcePacket E cl (Some pkt)
      (b\<lparr>b_hub := h, b_serial_out := b_serial_out b @ encode_frame w\<rparr>)"
    by (auto simp: b')
  let ?b1 = "b\<lparr>b_hub := h, b_serial_out := b_serial_out b @ encode_frame w\<rparr>"
  have "broker_inv ?b1" "cl < b_next ?b1" using assms(2,3) by simp_all
  note e = announcePacket_effect [OF assms(1) this assms(9)]
  have "b_serial_out b' = b_serial_out ?b1" by (simp add: eq)
  with w e show ?thesis by (simp add: eq)
qed

theorem client_packet_witness:
  "\<exists>b'. handleClientPayload sample_env 0 [2, 8, 1] (sample_broker True) = Some (b', []) \<and>
     b_serial_out b' = encode_frame [2, 8, 1] \<and> queue_of b' 1 = [[2, 8, 1]] \<and> queue_of b' 0 = [] \<and>
     map_of (b_outboundByPacket b') 8 = Some \<lparr>oe_client = Some 0, oe_until = 30000000000\<rparr>"
proof -
  let ?m = "mk_ToRadio (ToRadio_Packet (Some (sample_packet 8 1)))"
  have u: "sample_unmarshal_ToRadio [2, 8, 1] = Some ?m" by (simp add: sample_unmarshal_ToRadio_def)
  have mt: "sample_marshal_ToRadio ?m = Some [2, 8, 1]"
    and mf: "sample_marshal_FromRadio (mk_FromRadio (FromRadio_Packet (Some (sample_packet 8 1)))) = Some [2, 8, 1]"
    by code_simp+
  have id: "MeshPacket_Id (sample_packet 8 1) = 8" by code_simp
  have v: "ToRadio_Variant ?m = Some (ToRadio_Packet (Some (sample_packet 8 1)))"
    by (simp add: mk_ToRadio_def)
  obtain b' where b': "handleClientPayload sample_env 0 [2, 8, 1] (sample_broker True) = Some (b', [])"
    and nd: "\<not> b_done b'"
    by (simp add: handleClientPayload_def u v handleClientPacket_def announcePacket_def isPrimary_def forwardToSerial_def
        mt mf writeSerial_def logDecodedPayload_def MaxSize_def Let_def)
  have "isPrimary 0 (sample_broker True) \<or> \<not> b_readOnlyClients (sample_broker True)"
    by (simp add: isPrimary_def)
  from client_packet_fans_out [OF env_ok_sample sample_broker_inv _ this _ v b' nd, of "[2, 8, 1]"]
  show ?thesis using b' by (auto simp: u mt mf id outboundEchoSuppress_def)
qed



text \<open>
  A client's \<open>Disconnect\<close> never reaches the radio. The client is closed and
  forgotten (not registered, no pending request, not the primary), every other client
  keeps its queue and its registration, and a bridge that still has clients still has a
  primary.
\<close>

lemma disconnect_stays_local:
  assumes "env_ok E" and "broker_inv b" and "unmarshal_ToRadio E p = Some m"
    and "ToRadio_Variant m = Some (ToRadio_Disconnect v)"
    and "handleClientPayload E cl p b = Some (b', ps)"
  shows "b_serial_out b' = b_serial_out b \<and> cl_done (the_client b' cl) \<and>
    set (b_clients b') = set (b_clients b) - {cl} \<and> b_primary b' \<noteq> Some cl \<and>
    (\<forall>kr \<in> set (b_pendingConfig b'). cr_client (snd kr) \<noteq> Some cl) \<and>
    (\<forall>c. c \<noteq> cl \<longrightarrow> the_client b' c = the_client b c) \<and>
    (b_clients b' \<noteq> [] \<longrightarrow> (\<exists>c \<in> set (b_clients b'). b_primary b' = Some c))"
proof -
  have b': "b' = removeClient E cl b"
    using assms(3-5) by (simp add: handleClientPayload_def)
  have "clients_inv b'" and d: "distinct (b_clients b)"
    using inv_removeClient [OF assms(1,2), of cl] assms(2)
    by (simp_all add: b' broker_inv_def clients_inv_def)
  then have "cl \<notin> set (b_clients b')" and
    prim: "b_clients b' \<noteq> [] \<longrightarrow> (\<exists>c \<in> set (b_clients b'). b_primary b' = Some c)"
      "b_primary b' = Some c \<Longrightarrow> c \<in> set (b_clients b')" for c
    unfolding clients_inv_def using d by (auto simp: b')
  then show ?thesis using d by (auto simp: b')
qed

lemma disconnect_witness:
  "\<exists>b'. handleClientPayload sample_env 0 [3] (sample_broker False) = Some (b', []) \<and>
     b_serial_out b' = [] \<and> cl_done (the_client b' 0) \<and> b_primary b' = Some 1"
proof -
  have r: "handleClientPayload sample_env 0 [3] (sample_broker False) =
      Some (removeClient sample_env 0 (sample_broker False), [])"
    by (simp add: handleClientPayload_def sample_unmarshal_ToRadio_def mk_ToRadio_def)
  from disconnect_stays_local [OF env_ok_sample sample_broker_inv _ _ r] r show ?thesis
    by (auto simp: sample_unmarshal_ToRadio_def mk_ToRadio_def)
qed

section \<open>Traffic from the radio\<close>

text \<open>
  C11: the radio's echo of a packet that a live client sent within the last thirty
  seconds goes to nobody else. For the chat ports the sender is spared it too; on every
  other port the sender, if it has room, gets exactly one copy. The memory of the packet is
  used up, so the next frame with that id is broadcast.
\<close>

theorem echo_goes_to_sender_only:
  assumes "env_ok E" and "broker_inv b" and "frame_ok p"
    and "unmarshal_FromRadio E p = Some msg" and "FromRadio_GetPacket msg = Some pkt"
    and "extractCannedFromPacket E (Some pkt) = None" and "MeshPacket_Id pkt \<noteq> 0"
    and "map_of (b_outboundByPacket b) (MeshPacket_Id pkt) = Some \<lparr>oe_client = Some cl, oe_until = u\<rparr>"
    and "b_now b \<le> u" and "\<not> cl_done (the_client b cl)" and "send_room (the_client b cl)"
  shows "\<exists>b'. handleSerialPayload E p b = Some b' \<and>
    (\<forall>c. queue_of b' c = (if c = cl \<and> \<not> packetSuppressesOriginEcho (Some pkt)
       then queue_of b c @ [p] else queue_of b c)) \<and>
    b_clients b' = b_clients b \<and> b_serial_out b' = b_serial_out b \<and>
    map_of (b_outboundByPacket b') (MeshPacket_Id pkt) = None"
proof -
  let ?b1 = "(after_cache p msg b)\<lparr>b_outboundByPacket := AList.delete (MeshPacket_Id pkt) (b_outboundByPacket b)\<rparr>"
  have c: "consumeOutboundOrigin (Some pkt) (after_cache p msg b) = (Some cl, ?b1)"
    using assms(7-10) by (subst consume_own_echo) simp_all
  have h: "handleSerialPayload E p b =
      Some (if packetSuppressesOriginEcho (Some pkt) then ?b1 else sendToClient E cl p ?b1)"
    using assms(4-6) by (simp add: handleSerialPayload_packet c)
  have a: "fst (enqueue p (the_client b cl))"
    using assms(10,11) inv_client_ok [OF assms(2)] by (simp add: enqueue_fst)
  then have "b_clients (sendToClient E cl p ?b1) = b_clients b"
    by (cases "enqueue p (the_client b cl)") (simp add: sendToClient_def)
  then show ?thesis using h a by (simp add: queue_sendToClient)
qed

theorem echo_witness:
  "\<exists>b'. handleSerialPayload sample_env [2, 8, 67] ((sample_broker False)\<lparr>b_outboundByPacket :=
       [(8, \<lparr>oe_client = Some 1, oe_until = 5\<rparr>)]\<rparr>) = Some b' \<and>
     queue_of b' 0 = [] \<and> queue_of b' 1 = [[2, 8, 67]] \<and> map_of (b_outboundByPacket b') 8 = None"
proof -
  let ?b = "(sample_broker False)\<lparr>b_outboundByPacket := [(8, \<lparr>oe_client = Some 1, oe_until = 5\<rparr>)]\<rparr>"
  have I: "broker_inv ?b"
    using sample_broker_inv [of False]
    by (simp add: broker_inv_def inv_defs gomap_ok_def outboundEchoSuppress_def)
  have id: "MeshPacket_Id (sample_packet 8 67) = 8"
    and ex: "extractCannedFromPacket sample_env (Some (sample_packet 8 67)) = None"
    and su: "\<not> packetSuppressesOriginEcho (Some (sample_packet 8 67))"
    by code_simp+
  have g: "FromRadio_GetPacket (mk_FromRadio (FromRadio_Packet (Some (sample_packet 8 67)))) =
      Some (sample_packet 8 67)" by (simp add: FromRadio_GetPacket_def mk_FromRadio_def)
  have u: "unmarshal_FromRadio sample_env [2, 8, 67] =
      Some (mk_FromRadio (FromRadio_Packet (Some (sample_packet 8 67))))"
    by (simp add: sample_unmarshal_FromRadio_def)
  have f: "frame_ok [2, 8, 67]" by (simp add: frame_ok_def MaxSize_def)
  from echo_goes_to_sender_only [OF env_ok_sample I f u g ex, of 1 5] show ?thesis
    by (auto simp: id su)
qed

lemma radio_frame_effect:
  assumes "env_ok E" and "broker_inv b" and "frame_ok p"
    and "unmarshal_FromRadio E p = Some msg" and "\<not> routed msg"
    and "\<forall>pkt. FromRadio_GetPacket msg = Some pkt \<longrightarrow>
      map_of (b_cannedWaiters b) (MeshPacket_Id pkt) = None \<and>
      map_of (b_outboundByPacket b) (MeshPacket_Id pkt) = None"
  shows "\<exists>b'. handleSerialPayload E p b = Some b' \<and>
    b_cache b' = cache_update msg p (b_cache b) \<and> b_serial_out b' = b_serial_out b \<and>
    (\<forall>c. queue_of b' c = (if c \<in> set (b_clients b) \<and> send_room (the_client b c)
       then queue_of b c @ [p] else queue_of b c)) \<and>
    set (b_clients b') = {c \<in> set (b_clients b). send_room (the_client b c)}"
proof -
  let ?b = "after_cache p msg b"
  have "handleSerialPayload E p b = Some (broadcast E p ?b)"
  proof (cases "FromRadio_GetPacket msg")
    case None
    with assms(4,5) show ?thesis by (simp add: handleSerialPayload_plain)
  next
    case (Some pkt)
    with assms(4,6) show ?thesis
      by (simp add: handleSerialPayload_packet consume_foreign)
  qed
  moreover have "broker_inv ?b"
    using assms(2,3) by (intro after_cache_inv) (simp_all add: frame_ok_def)
  note e = broadcastExcept_effect [OF assms(1) this, where p = p and ex = None]
  have "queue_of (broadcast E p ?b) c = (if c \<in> set (b_clients b) \<and> send_room (the_client b c)
       then queue_of b c @ [p] else queue_of b c)" for c
    using e(1) [of c] by (simp add: broadcast_def)
  moreover have "set (b_clients (broadcast E p ?b)) = {c \<in> set (b_clients b). send_room (the_client b c)}"
    using e(2) by (simp add: broadcast_def)
  ultimately show ?thesis by simp
qed

text \<open>
  C19: every other frame of the radio (no packet, or a packet nobody is waiting for and
  no client has just sent) is stored in the cache if it belongs there and reaches every
  live client that has room exactly once, byte for byte; a client without room is
  disconnected rather than left with a gap.
\<close>

theorem radio_frame_broadcast:
  assumes "env_ok E" and "broker_inv b" and "frame_ok p"
    and "unmarshal_FromRadio E p = Some msg" and "\<not> routed msg"
    and "\<forall>pkt. FromRadio_GetPacket msg = Some pkt \<longrightarrow>
      map_of (b_cannedWaiters b) (MeshPacket_Id pkt) = None \<and>
      map_of (b_outboundByPacket b) (MeshPacket_Id pkt) = None"
  shows "\<exists>b'. handleSerialPayload E p b = Some b' \<and>
    b_cache b' = cache_update msg p (b_cache b) \<and> b_serial_out b' = b_serial_out b \<and>
    (\<forall>c. queue_of b' c = (if c \<in> set (b_clients b) \<and> send_room (the_client b c)
       then queue_of b c @ [p] else queue_of b c)) \<and>
    set (b_clients b') = {c \<in> set (b_clients b). send_room (the_client b c)}"
  using assms by (rule radio_frame_effect)

theorem radio_frame_witness:
  "\<exists>b'. handleSerialPayload sample_env [5] (sample_broker True) = Some b' \<and>
     cc_metadata (b_cache b') = Some [5] \<and> queue_of b' 0 = [[5]] \<and> queue_of b' 1 = [[5]]"
proof -
  have u: "unmarshal_FromRadio sample_env [5] = Some (mk_FromRadio (FromRadio_Metadata []))"
    by (simp add: sample_unmarshal_FromRadio_def)
  have f: "frame_ok [5]" by (simp add: frame_ok_def MaxSize_def)
  from radio_frame_broadcast [OF env_ok_sample sample_broker_inv [of True] f u] show ?thesis
    by (auto simp: routed_def mk_FromRadio_def FromRadio_GetPacket_def cache_update_def)
qed

text \<open>
  A frame of the radio that does not decode, and a \<open>ConfigCompleteId\<close> nobody
  asked for, change no queue, no table and no client and send nothing to the radio; the
  only trace is the observation reported to the hub.
\<close>

lemma radio_garbage_dropped:
  assumes "unmarshal_FromRadio E p = None \<or>
    (\<exists>msg v. unmarshal_FromRadio E p = Some msg \<and>
      FromRadio_Variant msg = Some (FromRadio_ConfigCompleteId v) \<and>
      map_of (b_pendingConfig b) v = None)"
  shows "\<exists>h. handleSerialPayload E p b = Some (b\<lparr>b_hub := h\<rparr>)"
proof -
  from logDecodedPayload_hub obtain h where
    h: "logDecodedPayload ''serial -> broker'' '''' p payloadFromRadio b = b\<lparr>b_hub := h\<rparr>" by blast
  have "cache_update msg p c = c"
    if "FromRadio_Variant msg = Some (FromRadio_ConfigCompleteId v)" for msg v c
    using that by (simp add: cache_update_def Let_def)
  with assms show ?thesis
    by (intro exI [of _ h]) (auto simp: handleSerialPayload_def h Let_def routeFromRadio_def
        handleConfigComplete_unknown)
qed

lemma radio_garbage_witness:
  "\<exists>h. handleSerialPayload sample_env [3, 77] (sample_broker True) = Some ((sample_broker True)\<lparr>b_hub := h\<rparr>)"
  by (rule radio_garbage_dropped) (simp add: sample_unmarshal_FromRadio_def mk_FromRadio_def)

text \<open>
  C21: the serial reader handles exactly the frames of the stream, in order. Bytes
  without a magic prefix between frames and headers with length zero are skipped, and
  the end of the stream is reported as \<open>ErrSerialClosed\<close>, unless the broker stopped
  before.
\<close>

theorem readSerial_handles_frames:
  assumes "list_all link_item_ok items" and "serial_loop E (link_payloads items) b = Some b'"
    and "\<not> b_done b'"
  shows "readSerial E (concat (map link_bytes items), e) b = Some (b', Some ErrSerialClosed, ([], e))"
  using assms by (rule readSerial_items)

theorem readSerial_witness:
  "\<exists>b'. readSerial sample_env (concat (map link_bytes [Noise [1, 2], EmptyFrame, Whole [3, 77], Noise [9]]),
       EOF) (sample_broker True) = Some (b', Some ErrSerialClosed, ([], EOF)) \<and>
     b_clients b' = [0, 1]"
proof -
  have "serial_loop sample_env (link_payloads [Noise [1, 2], EmptyFrame, Whole [3, 77], Noise [9]])
      (sample_broker True) = Some ((sample_broker True)\<lparr>b_cache := newConfigCache\<rparr>)"
    by (simp add: handleSerialPayload_def sample_unmarshal_FromRadio_def logDecodedPayload_def
        mk_FromRadio_def cache_update_def routeFromRadio_def handleConfigComplete_unknown)
  from readSerial_handles_frames [OF _ this, of EOF] show ?thesis
    by (auto simp: Magic0_def frame_ok_def MaxSize_def)
qed

section \<open>Nonces, errors, text messages and canned messages\<close>

text \<open>
  C22: the search for a nonce ends. If the random source yields more distinct non-zero
  values than there are pending requests, \<open>reserveConfigRequest\<close> returns, the nonce is
  neither zero nor in use, and the other requests keep their entries.
\<close>

theorem reserve_terminates:
  assumes "length (b_pendingConfig b) < card (draw_id ` set (b_rand b) - {0})"
  shows "\<exists>nonce b1. reserveConfigRequest cl oid b = Some (nonce, b1) \<and> nonce \<noteq> 0 \<and>
    map_of (b_pendingConfig b) nonce = None \<and>
    map_of (b_pendingConfig b1) =
      (map_of (b_pendingConfig b))(nonce \<mapsto> \<lparr>cr_client = cl, cr_originalID = oid\<rparr>)"
proof -
  from pick_nonce_enough [OF assms] obtain nonce rest where
    n: "pick_nonce (b_rand b) (b_pendingConfig b) = Some (nonce, rest)" by auto
  from pick_nonce_fresh [OF n] n show ?thesis
    by (auto simp: reserveConfigRequest_def map_of_eq_None_iff)
qed

theorem reserve_witness:
  "\<exists>nonce b1. reserveConfigRequest (Some 1) 5 ((sample_broker True)\<lparr>b_pendingConfig :=
       [(9, \<lparr>cr_client = None, cr_originalID = 1\<rparr>)]\<rparr>) = Some (nonce, b1) \<and> nonce \<noteq> 0"
proof -
  have "length (b_pendingConfig ((sample_broker True)\<lparr>b_pendingConfig := [(9, \<lparr>cr_client = None, cr_originalID = 1\<rparr>)]\<rparr>)) <
      card (draw_id ` set (b_rand ((sample_broker True)\<lparr>b_pendingConfig := [(9, \<lparr>cr_client = None, cr_originalID = 1\<rparr>)]\<rparr>)) - {0})"
    by (simp add: draw_id_def insert_Diff_if)
  from reserve_terminates [OF this] show ?thesis by blast
qed

text \<open>
  The first failure decides. However many goroutines report an error, the broker
  stops with the first one, a missing error counts as \<open>ErrSerialClosed\<close>, and nothing
  else of the state is touched; once stopped, nothing is written to the serial link.
\<close>

lemma first_failure_wins:
  assumes "\<not> b_done b"
  shows "fold fail (e # es) b =
      b\<lparr>b_err := Some (case e of None \<Rightarrow> ErrSerialClosed | Some x \<Rightarrow> x), b_done := True\<rparr> \<and>
    writeSerial E p (fold fail (e # es) b) = (Some ErrSerialClosed, fold fail (e # es) b)"
proof -
  have later: "fold fail es c = c" if "b_done c" for c
    using that by (induction es) (simp_all add: fail_def)
  have "fold fail (e # es) b =
      b\<lparr>b_err := Some (case e of None \<Rightarrow> ErrSerialClosed | Some x \<Rightarrow> x), b_done := True\<rparr>"
    using assms by (simp add: fail_def later)
  then show ?thesis by (simp add: writeSerial_def del: fold_simps)
qed

lemma first_failure_witness:
  "b_err (fold fail [None, Some ErrMarshal] (sample_broker True)) = Some ErrSerialClosed"
  using first_failure_wins [of "sample_broker True" None "[Some ErrMarshal]" sample_env "[]"]
  by simp

definition text_refusal :: "bool \<Rightarrow> string \<Rightarrow> i32 \<Rightarrow> bool \<Rightarrow> go_error option" where
  "text_refusal stopped body ch known =
     (if stopped then Some ErrSerialNotReady
      else if body = '''' then Some ErrEmptyMessage
      else if 200 < length body then Some (ErrMessageTooLong (length body))
      else if sint ch < 0 then Some (ErrInvalidChannel (sint ch))
      else if \<not> known then Some ErrNodeIDUnknown else None)"

lemma SendText_unfold:
  assumes "text_refusal (b_done b) (TrimSpace input) ch (snd (LocalNodeNum E b)) = None"
    and "b_rand b = RandOk v # ds" and "pktID = (if v = 0 then 1 else v)"
    and "pkt = text_packet (fst (LocalNodeNum E b)) dest ch pktID (TrimSpace input)"
    and "forwardToSerial E (mk_ToRadio (ToRadio_Packet (Some pkt))) (b\<lparr>b_rand := ds\<rparr>) = (e, b2)"
  shows "SendTextMessage E ch dest input b =
    (case e of Some err \<Rightarrow> Some (Inl err, b2)
     | None \<Rightarrow> Some (Inr pktID,
         case marshal_FromRadio E (mk_FromRadio (FromRadio_Packet (Some pkt))) of
           None \<Rightarrow> b2 | Some d \<Rightarrow> broadcast E d b2))"
  using assms
  by (cases "LocalNodeNum E b"; cases e)
    (auto simp: SendTextMessage_def text_refusal_def maxTextLen_def nextPacketID_def Let_def
      split: if_splits option.split)

text \<open>
  C23: a text message from the web UI. It is refused, with the state unchanged, when
  the broker has stopped, the trimmed text is empty or longer than 200 bytes, the
  channel index is negative or the radio's own number is not known, in this order.
  Otherwise the call returns: an error of the serial link with every queue as it was,
  or a non-zero packet id, and then the serial link got one frame with the packet and
  every live client with room one copy. The packet is never remembered as outbound: the
  radio's echo of it will be broadcast as if it were new.
\<close>

theorem SendTextMessage_outcome:
  assumes "env_ok E" and "broker_inv b" and "b_rand b = RandOk v # ds"
    and "body = TrimSpace input" and "LocalNodeNum E b = (src, known)"
    and "pktID = (if v = 0 then 1 else v)" and "pkt = text_packet src dest ch pktID body"
    and "marshal_FromRadio E (mk_FromRadio (FromRadio_Packet (Some pkt))) = Some d"
  shows "case text_refusal (b_done b) body ch known of
      Some err \<Rightarrow> SendTextMessage E ch dest input b = Some (Inl err, b)
    | None \<Rightarrow> \<exists>r b'. SendTextMessage E ch dest input b = Some (r, b') \<and>
        b_outboundByPacket b' = b_outboundByPacket b \<and>
        (case r of
           Inl _ \<Rightarrow> b_heap b' = b_heap b \<and> b_clients b' = b_clients b
         | Inr i \<Rightarrow> i = pktID \<and> i \<noteq> 0 \<and>
             (\<exists>w. marshal_ToRadio E (mk_ToRadio (ToRadio_Packet (Some pkt))) = Some w \<and>
               b_serial_out b' = b_serial_out b @ encode_frame w) \<and>
             (\<forall>c. queue_of b' c = (if c \<in> set (b_clients b) \<and> send_room (the_client b c)
                then queue_of b c @ [d] else queue_of b c)))"
proof (cases "text_refusal (b_done b) body ch known")
  case (Some err)
  then show ?thesis
    using assms(4,5)
    by (auto simp: text_refusal_def SendTextMessage_def maxTextLen_def Let_def split: if_splits)
next
  case None
  note go = None
  let ?t = "mk_ToRadio (ToRadio_Packet (Some pkt))"
  let ?b1 = "b\<lparr>b_rand := ds\<rparr>"
  obtain e b2 where f: "forwardToSerial E ?t ?b1 = (e, b2)" by fastforce
  note s = SendText_unfold [of b input ch E v ds pktID pkt dest e b2]
  show ?thesis
  proof (cases e)
    case (Some err)
    with s f assms go forward_fields [of E ?t ?b1] show ?thesis by simp
  next
    case None
    note e = None
    have b': "SendTextMessage E ch dest input b = Some (Inr pktID, broadcast E d b2)"
      using s f assms go e by simp
    from forward_ok [OF writer_of_env [OF assms(1)] f [unfolded e]] obtain w h where
      w: "marshal_ToRadio E ?t = Some w"
      and b2: "b2 = ?b1\<lparr>b_hub := h, b_serial_out := b_serial_out ?b1 @ encode_frame w\<rparr>" by blast
    have "broker_inv b2" using assms(2) inv_forward [of E ?t ?b1] f by simp
    from broadcastExcept_effect(1) [OF assms(1) this, where p = d and ex = None]
    have "queue_of (broadcast E d b2) c = (if c \<in> set (b_clients b) \<and> send_room (the_client b c)
        then queue_of b c @ [d] else queue_of b c)" for c
      by (simp add: broadcast_def) (simp add: b2)
    with b' w go assms(6) show ?thesis by (simp add: b2)
  qed
qed

theorem SendTextMessage_witness:
  "\<exists>b'. SendTextMessage sample_env 0 BroadcastNode ''hi'' ((sample_broker True)\<lparr>b_cache :=
       newConfigCache\<lparr>cc_myInfo := Some [1, 42]\<rparr>, b_rand := [RandOk 8]\<rparr>) = Some (Inr 8, b') \<and>
     b_serial_out b' = encode_frame [2, 8, 1] \<and> queue_of b' 0 = [[2, 8, 1]]"
proof -
  let ?b = "(sample_broker True)\<lparr>b_cache := newConfigCache\<lparr>cc_myInfo := Some [1, 42]\<rparr>, b_rand := [RandOk 8]\<rparr>"
  let ?pkt = "text_packet 42 BroadcastNode 0 8 ''hi''"
  have l: "LocalNodeNum sample_env ?b = (42, True)"
    by (simp add: LocalNodeNum_def localNodeNum_def sample_env_def codec.truncate_def
        sample_unmarshal_FromRadio_def mk_FromRadio_def FromRadio_GetMyInfo_def
        MyNodeInfo_GetMyNodeNum_def)
  have t: "TrimSpace ''hi'' = ''hi''"
    and f: "sample_marshal_FromRadio (mk_FromRadio (FromRadio_Packet (Some ?pkt))) = Some [2, 8, 1]"
    and r: "sample_marshal_ToRadio (mk_ToRadio (ToRadio_Packet (Some ?pkt))) = Some [2, 8, 1]"
    and n: "text_refusal False ''hi'' 0 True = None"
    by code_simp+
  have I: "broker_inv ?b"
    using broker_inv_cache [OF sample_broker_inv [of True], of "newConfigCache\<lparr>cc_myInfo := Some [1, 42]\<rparr>"]
    by (simp add: cache_ok_def newConfigCache_def broker_inv_def inv_defs)
  have s: "SendTextMessage sample_env 0 BroadcastNode ''hi'' ?b = Some (Inr 8, broadcast sample_env [2, 8, 1]
      ((?b\<lparr>b_rand := []\<rparr>)\<lparr>b_serial_out := encode_frame [2, 8, 1]\<rparr>))"
    by (subst SendText_unfold [where v = 8 and ds = "[]" and pktID = 8 and pkt = ?pkt and e = None
          and ?b2.0 = "(?b\<lparr>b_rand := []\<rparr>)\<lparr>b_serial_out := encode_frame [2, 8, 1]\<rparr>"])
      (simp_all add: l t n f forwardToSerial_def r writeSerial_def logDecodedPayload_def MaxSize_def)
  from SendTextMessage_outcome [OF env_ok_sample I, of 8 "[]" "''hi''" "''hi''" 42 True 8 ?pkt BroadcastNode 0 "[2, 8, 1]"]
  show ?thesis using s by (auto simp: l t n f r)
qed

text \<open>
  C24: fetching the predefined messages. The answer of the radio to the fetch's own
  packet id is taken from the stream (no client sees it), the waiting fetch returns the
  parsed messages and unregisters, and for two minutes a further fetch is answered from
  the cache without asking the radio.
\<close>

theorem canned_fetch_answered:
  assumes "FetchCanned_begin E b = Some (FetchWaiting pktID ch, b1)"
    and "unmarshal_FromRadio E p = Some msg" and "FromRadio_GetPacket msg = Some pkt"
    and "MeshPacket_Id pkt = pktID" and "extractCannedFromPacket E (Some pkt) = Some raw"
    and "ParseCannedMessages raw \<noteq> []" and "0 \<le> dt" and "dt \<le> 120 * 1000000000"
  shows "\<exists>b2 b3. handleSerialPayload E p b1 = Some b2 \<and> b_heap b2 = b_heap b1 \<and>
    fetch_enabled FetchResponse ch b2 \<and>
    FetchCanned_end FetchResponse pktID ch b2 = (Inr (ParseCannedMessages raw), b3) \<and>
    map_of (b_cannedWaiters b3) pktID = None \<and>
    FetchCanned_begin E (b3\<lparr>b_now := b_now b3 + dt\<rparr>) =
      Some (FetchDone (Inr (ParseCannedMessages raw)), b3\<lparr>b_now := b_now b3 + dt\<rparr>)"
proof -
  let ?ms = "ParseCannedMessages raw"
  let ?a = "after_cache p msg b1"
  let ?b2 = "?a\<lparr>b_chans := (b_chans ?a)(ch := \<lparr>chan_buf = [?ms], chan_cap = 1, chan_closed = False\<rparr>),
       b_cannedCache := ?ms, b_cannedCacheAt := b_now ?a\<rparr>"
  have ac: "b_chans ?a = b_chans b1" by (simp add: after_cache_def Let_def)
  have "tryDeliverCanned E (Some pkt) ?a = (True, ?b2)"
    using FetchBegin_waiting [OF assms(1)] assms(4,5)
    by (intro tryDeliver_waiting) (auto simp: ac)
  moreover have "\<not> routed msg" using assms(3) by (intro packet_not_routed) simp
  ultimately have h: "handleSerialPayload E p b1 = Some ?b2"
    using assms(2,3) by (simp add: handleSerialPayload_decoded routeFromRadio_not_routed)
  let ?b3 = "unregisterCannedWait pktID (?b2\<lparr>b_chans := (b_chans ?b2)(ch :=
      \<lparr>chan_buf = [], chan_cap = 1, chan_closed = False\<rparr>)\<rparr>)"
  have "FetchCanned_end FetchResponse pktID ch ?b2 = (Inr ?ms, ?b3)"
    using assms(6) by (simp add: FetchCanned_end_def chan_recv_def)
  moreover have "FetchCanned_begin E (?b3\<lparr>b_now := b_now ?b3 + dt\<rparr>) =
      Some (FetchDone (Inr ?ms), ?b3\<lparr>b_now := b_now ?b3 + dt\<rparr>)"
    using assms(6-8) by (simp add: FetchCanned_begin_def cachedCanned_def unregisterCannedWait_def)
  ultimately show ?thesis
    using h by (intro exI [of _ ?b2] exI [of _ ?b3])
      (simp add: fetch_enabled_def unregisterCannedWait_def)
qed

theorem canned_fetch_witness:
  "\<exists>b1 b2 b3. FetchCanned_begin sample_env ((sample_broker True)\<lparr>b_cache :=
         newConfigCache\<lparr>cc_myInfo := Some [1, 42]\<rparr>, b_rand := [RandOk 8]\<rparr>) = Some (FetchWaiting 8 0, b1) \<and>
     handleSerialPayload sample_env [2, 8, 6] b1 = Some b2 \<and>
     FetchCanned_end FetchResponse 8 0 b2 = (Inr [''ok'', ''bye''], b3)"
proof -
  let ?b = "(sample_broker True)\<lparr>b_cache := newConfigCache\<lparr>cc_myInfo := Some [1, 42]\<rparr>, b_rand := [RandOk 8]\<rparr>"
  have l: "LocalNodeNum sample_env ?b = (42, True)"
    by (simp add: LocalNodeNum_def localNodeNum_def sample_env_def codec.truncate_def
        sample_unmarshal_FromRadio_def mk_FromRadio_def FromRadio_GetMyInfo_def
        MyNodeInfo_GetMyNodeNum_def)
  have cc: "cachedCanned ?b = ([], ?b)" "b_nextchan (sample_broker True) = 0"
    by (simp_all add: cachedCanned_def sample_broker_eq New_def)
  obtain b1 where b1: "FetchCanned_begin sample_env ?b = Some (FetchWaiting 8 0, b1)"
    by (simp add: FetchCanned_begin_def l cc nextPacketID_def registerCannedWait_def Let_def
        forwardToSerial_def sample_marshal_ToRadio_def mk_ToRadio_def writeSerial_def
        logDecodedPayload_def MaxSize_def)
  have p: "ParseCannedMessages ''ok|bye'' = [''ok'', ''bye'']" by code_simp
  have id: "MeshPacket_Id (sample_packet 8 6) = 8"
    and ex: "extractCannedFromPacket sample_env (Some (sample_packet 8 6)) = Some ''ok|bye''"
    by code_simp+
  from canned_fetch_answered [OF b1, of "[2, 8, 6]" "mk_FromRadio (FromRadio_Packet (Some (sample_packet 8 6)))"
      "sample_packet 8 6" "''ok|bye''" 0] b1
  show ?thesis
    by (auto simp: p id ex sample_unmarshal_FromRadio_def FromRadio_GetPacket_def mk_FromRadio_def)
qed

text \<open>
  A serial error while sending a text message is returned to the web UI and
  nothing else: the broker goes on, although part of a frame may be on the wire, while
  the same error on a client's packet stops it.
\<close>

lemma text_error_keeps_broker:
  assumes "SendTextMessage E ch dest input b = Some (Inl err, b')"
  shows "b_done b' = b_done b \<and> b_err b' = b_err b"
proof -
  have "b_done b1 = b_done b \<and> b_err b1 = b_err b" if "nextPacketID b = Some (i, b1)" for i b1
    using that by (auto simp: nextPacketID_def split: list.splits rand_draw.splits)
  moreover have "b_done b2 = b_done b1 \<and> b_err b2 = b_err b1"
    if "forwardToSerial E t b1 = (e, b2)" for t e b1 b2
    using that forward_fields(9,10) [of E t b1] by simp
  ultimately show ?thesis
    using assms by (fastforce simp: SendTextMessage_def Let_def split: if_splits prod.splits option.splits)
qed

text \<open>A device that reports an error after the first byte of the payload.\<close>

definition torn_env :: env where
  "torn_env = sample_env\<lparr>e_writer :=
     (\<lambda>out buf. if length out = 4 then (min 1 (int (length buf)), Some (OtherErr ''io''))
                else (int (length buf), None))\<rparr>"

lemma text_error_witness:
  "\<exists>b'. SendTextMessage torn_env 0 BroadcastNode ''hi'' ((sample_broker True)\<lparr>b_cache :=
       newConfigCache\<lparr>cc_myInfo := Some [1, 42]\<rparr>, b_rand := [RandOk 8]\<rparr>) = Some (Inl ErrSerialClosed, b') \<and>
     \<not> b_done b' \<and>
     ReadFrame (b_serial_out (snd (writeSerial torn_env [4] b')), EOF) = (Inr [2, 0x94, 0xC3], ([0, 1, 4], EOF))"
proof -
  let ?b = "(sample_broker True)\<lparr>b_cache := newConfigCache\<lparr>cc_myInfo := Some [1, 42]\<rparr>, b_rand := [RandOk 8]\<rparr>"
  let ?pkt = "text_packet 42 BroadcastNode 0 8 ''hi''"
  let ?b' = "?b\<lparr>b_rand := [], b_serial_out := [0x94, 0xC3, 0, 3, 2]\<rparr>"
  have l: "LocalNodeNum torn_env ?b = (42, True)"
    by (simp add: LocalNodeNum_def localNodeNum_def torn_env_def sample_env_def codec.truncate_def
        sample_unmarshal_FromRadio_def mk_FromRadio_def FromRadio_GetMyInfo_def
        MyNodeInfo_GetMyNodeNum_def)
  have t: "TrimSpace ''hi'' = ''hi''"
    and r: "sample_marshal_ToRadio (mk_ToRadio (ToRadio_Packet (Some ?pkt))) = Some [2, 8, 1]"
    and n: "text_refusal False ''hi'' 0 True = None"
    by code_simp+
  have w: "e_writer torn_env = (\<lambda>out buf. if length out = 4 then (min 1 (int (length buf)), Some (OtherErr ''io''))
      else (int (length buf), None))" and m: "marshal_ToRadio torn_env = sample_marshal_ToRadio"
    by (simp_all add: torn_env_def)
  have fw: "forwardToSerial torn_env (mk_ToRadio (ToRadio_Packet (Some ?pkt))) (?b\<lparr>b_rand := []\<rparr>) =
      (Some ErrSerialClosed, ?b')"
    by (simp add: forwardToSerial_def m r writeSerial_def logDecodedPayload_def w WriteFrame_def MaxSize_def
        writeAll.simps frame_header_def be_put_uint16_def Magic0_def Magic1_def)
  have s: "SendTextMessage torn_env 0 BroadcastNode ''hi'' ?b = Some (Inl ErrSerialClosed, ?b')"
    by (subst SendText_unfold [where v = 8 and ds = "[]" and pktID = 8 and pkt = ?pkt
          and e = "Some ErrSerialClosed" and ?b2.0 = ?b']) (use fw in \<open>simp_all add: l t n\<close>)
  have o: "b_serial_out (snd (writeSerial torn_env [4] ?b')) = [0x94, 0xC3, 0, 3, 2] @ [0x94, 0xC3, 0, 1, 4]"
    by (simp add: writeSerial_def logDecodedPayload_def w WriteFrame_def MaxSize_def
        writeAll.simps frame_header_def be_put_uint16_def Magic0_def Magic1_def)
  have "ReadFrame (b_serial_out (snd (writeSerial torn_env [4] ?b')), EOF) = (Inr [2, 0x94, 0xC3], ([0, 1, 4], EOF))"
    unfolding o by (simp add: ReadFrame_magic [unfolded Magic0_def Magic1_def] read_body_cases be_uint16_def)
  with s text_error_keeps_broker [OF s] show ?thesis by (intro exI [of _ ?b']) simp
qed

end
