(* ===== verification/EchoRace.thy ===== *)
theory EchoRace
  imports BrokerProps
begin

text \<open>
  The window between forwarding a client's packet and noting who sent it: the radio may answer first.
  The steps are \<open>PacketForward\<close>, \<open>SerialFrame\<close> and \<open>PacketAnnounce\<close> of \<open>sys_step\<close>.
\<close>

lemma room_left:
  assumes "broker_inv b"
  shows "send_room (the_client b c) \<longleftrightarrow> length (queue_of b c) < clientSendBuffer"
  using inv_client_ok [OF assms, of c] by (simp add: send_room_def client_ok_def)

text \<open>
  C12: an echo that comes early is not recognised. When the radio answers a packet after it was forwarded and before its sender
  is noted, the answer goes to every client: the sender gets its own packet back, a text message
  included, every other client gets the packet twice, and the note, made after the echo has passed,
  waits thirty seconds for a frame of that number that will be withheld from the others.
\<close>

theorem early_echo_duplicates:
  assumes "env_ok E" and "sys_inv s" and "live s cl" and "s_reader s cl = RAnnounce (Some pkt)" and "s_serial_reader s"
    and "frame_ok p" and "unmarshal_FromRadio E p = Some msg" and "FromRadio_GetPacket msg = Some pkt"
    and "MeshPacket_Id pkt \<noteq> 0" and "map_of (b_cannedWaiters (s_broker s)) (MeshPacket_Id pkt) = None"
    and "map_of (b_outboundByPacket (s_broker s)) (MeshPacket_Id pkt) = None"
    and "marshal_FromRadio E (mk_FromRadio (FromRadio_Packet (Some pkt))) = Some d"
    and "\<forall>c \<in> set (b_clients (s_broker s)). length (queue_of (s_broker s) c) + 2 \<le> clientSendBuffer"
  shows "\<exists>t. (sys_step E)\<^sup>*\<^sup>* s t \<and> set (b_clients (s_broker t)) = set (b_clients (s_broker s)) \<and>
    (\<forall>c \<in> set (b_clients (s_broker s)).
       queue_of (s_broker t) c = queue_of (s_broker s) c @ (if c = cl then [p] else [p, d])) \<and>
    map_of (b_outboundByPacket (s_broker t)) (MeshPacket_Id pkt) =
      Some \<lparr>oe_client = Some cl, oe_until = b_now (s_broker t) + outboundEchoSuppress\<rparr>"
proof -
  let ?b = "s_broker s"
  have i: "broker_inv ?b" using assms(2) by (simp add: sys_inv_def)
  have "\<not> routed msg" using assms(8)
    by (auto simp: routed_def FromRadio_GetPacket_def split: option.splits FromRadio_PayloadVariant.splits)
  from radio_frame_effect [OF assms(1) i assms(6,7) this] assms(8,10,11) obtain b1 where
    b1: "handleSerialPayload E p ?b = Some b1"
    and q: "\<And>c. queue_of b1 c = (if c \<in> set (b_clients ?b) \<and> send_room (the_client ?b c) then queue_of ?b c @ [p] else queue_of ?b c)"
    and c: "set (b_clients b1) = {c \<in> set (b_clients ?b). send_room (the_client ?b c)}"
    by auto
  have r: "\<forall>c \<in> set (b_clients ?b). send_room (the_client ?b c)"
    using assms(13) by (auto simp: room_left [OF i])
  let ?s1 = "s\<lparr>s_broker := b1\<rparr>"
  have s1: "sys_step E s ?s1" using assms(5,6) b1 by (rule SerialFrame)
  have i1: "broker_inv b1" using sys_step_broker_inv [OF s1 assms(1) i] by simp
  have l: "live ?s1 cl"
    using grow_handleSerialPayload [OF b1] assms(3) by (simp add: queues_grow_def)
  let ?b2 = "announcePacket E cl (Some pkt) b1"
  let ?s2 = "?s1\<lparr>s_broker := ?b2, s_reader := (s_reader ?s1)(cl := RIdle)\<rparr>"
  have s2: "sys_step E ?s1 ?s2" using PacketAnnounce [OF l, of "Some pkt" E] assms(4) by simp
  have r1: "\<forall>c \<in> set (b_clients ?b). send_room (the_client b1 c)"
    using assms(13) q r by (auto simp: room_left [OF i1])
  note e = announcePacket_effect [OF assms(1) i1 _ assms(12)]
  have "(sys_step E)\<^sup>*\<^sup>* s ?s2" using s1 s2 by (meson converse_rtranclp_into_rtranclp r_into_rtranclp)
  moreover have "set (b_clients ?b2) = set (b_clients ?b)" using e(2) [of cl] l c r r1 by auto
  moreover have "queue_of ?b2 k = queue_of ?b k @ (if k = cl then [p] else [p, d])" if "k \<in> set (b_clients ?b)" for k
    using e(1) [of cl k] l that q [of k] c r r1 by (cases "k = cl") simp_all
  moreover have "map_of (b_outboundByPacket ?b2) (MeshPacket_Id pkt) =
      Some \<lparr>oe_client = Some cl, oe_until = b_now ?b2 + outboundEchoSuppress\<rparr>"
    using e(3) [of cl] l assms(9) by simp
  ultimately show ?thesis by (intro exI [of _ ?s2]) simp
qed

text \<open>A text message, which the sender would be spared.\<close>

theorem early_echo_witness:
  "\<exists>s t. (sys_step sample_env)\<^sup>*\<^sup>* (sys_init (sample_broker False)) s \<and> s_reader s 0 = RAnnounce (Some (sample_packet 8 1)) \<and>
     (sys_step sample_env)\<^sup>*\<^sup>* s t \<and> packetSuppressesOriginEcho (Some (sample_packet 8 1)) \<and>
     queue_of (s_broker t) 0 = [[2, 8, 1]] \<and> queue_of (s_broker t) 1 = [[2, 8, 1], [2, 8, 1]]"
proof -
  let ?p = "[2, 8, 1] :: bytes" and ?pkt = "sample_packet 8 1"
  let ?init = "sys_init (sample_broker False)"
  have u: "sample_unmarshal_ToRadio ?p = Some (mk_ToRadio (ToRadio_Packet (Some ?pkt)))"
    "ToRadio_Variant (mk_ToRadio (ToRadio_Packet (Some ?pkt))) = Some (ToRadio_Packet (Some ?pkt))"
    by (simp_all add: sample_unmarshal_ToRadio_def mk_ToRadio_def)
  have mt: "sample_marshal_ToRadio (mk_ToRadio (ToRadio_Packet (Some ?pkt))) = Some ?p"
    and mf: "sample_marshal_FromRadio (mk_FromRadio (FromRadio_Packet (Some ?pkt))) = Some ?p"
    and id: "MeshPacket_Id ?pkt = 8" and su: "packetSuppressesOriginEcho (Some ?pkt)"
    by code_simp+
  obtain b where f: "readLoop_forward sample_env 0 ?p (sample_broker False) = Some (Some ?pkt, b)"
    and b: "b = (sample_broker False)\<lparr>b_serial_out := encode_frame ?p\<rparr>"
    by (simp add: readLoop_forward_def u isPrimary_def forwardToSerial_def mt writeSerial_def
        logDecodedPayload_def MaxSize_def Let_def)
  let ?s = "?init\<lparr>s_broker := b, s_reader := (s_reader ?init)(0 := RAnnounce (Some ?pkt))\<rparr>"
  have fk: "frame_ok ?p" by (simp add: frame_ok_def MaxSize_def)
  have st: "sys_step sample_env ?init ?s"
    by (rule PacketForward [OF _ _ fk]) (use f in \<open>simp_all add: sys_init_def\<close>)
  have "sys_inv ?init" by (simp add: sys_inv_def sys_init_def)
  from sys_inv_step [OF this st env_ok_sample] have i: "sys_inv ?s" .
  have v: "unmarshal_FromRadio sample_env ?p = Some (mk_FromRadio (FromRadio_Packet (Some ?pkt)))"
    "FromRadio_GetPacket (mk_FromRadio (FromRadio_Packet (Some ?pkt))) = Some ?pkt"
    by (simp_all add: sample_unmarshal_FromRadio_def FromRadio_GetPacket_def mk_FromRadio_def)
  have "\<exists>t. (sys_step sample_env)\<^sup>*\<^sup>* ?s t \<and> set (b_clients (s_broker t)) = set (b_clients (s_broker ?s)) \<and>
    (\<forall>c \<in> set (b_clients (s_broker ?s)).
       queue_of (s_broker t) c = queue_of (s_broker ?s) c @ (if c = 0 then [?p] else [?p, ?p])) \<and>
    map_of (b_outboundByPacket (s_broker t)) (MeshPacket_Id ?pkt) =
      Some \<lparr>oe_client = Some 0, oe_until = b_now (s_broker t) + outboundEchoSuppress\<rparr>"
    by (rule early_echo_duplicates [OF env_ok_sample i _ _ _ fk v(1,2)])
      (simp_all add: sys_init_def b id mf clientSendBuffer_def)
  then obtain t where "(sys_step sample_env)\<^sup>*\<^sup>* ?s t" "queue_of (s_broker t) 0 = [?p]" "queue_of (s_broker t) 1 = [?p, ?p]"
    by (auto simp: b)
  with st su show ?thesis by (intro exI [of _ ?s] exI [of _ t]) auto
qed

end
