(* ===== verification/Topic.thy ===== *)
theory Topic
  imports Channels
begin

text \<open>
  The publish/subscribe pattern the hub of \<open>internal/webui\<close> uses three times (events,
  chat messages, node lists): subscribers are buffered channels in a set; a publisher
  copies the set under the lock and, after releasing it, offers the value to every
  channel without blocking; unsubscribing removes the channel under the lock and closes
  it after. A send on a closed channel panics, and so does closing it again; the model
  records that in a flag. The
  locale \<open>bounded_log\<close> is the contract of the hub's two bounded histories.
\<close>

section \<open>Topics\<close>

record 'a topic =
  tp_chans :: "nat \<Rightarrow> 'a chan"
  tp_subs :: "nat list"
  tp_next :: nat
  tp_panic :: bool

definition new_topic :: "'a topic" where
  "new_topic = \<lparr>tp_chans = (\<lambda>_. make_chan 0), tp_subs = [], tp_next = 0, tp_panic = False\<rparr>"

definition topic_subscribe :: "nat \<Rightarrow> 'a topic \<Rightarrow> nat \<times> 'a topic" where
  "topic_subscribe buffer t =
     (tp_next t,
      t\<lparr>tp_chans := (tp_chans t)(tp_next t := make_chan buffer), tp_subs := tp_subs t @ [tp_next t],
        tp_next := Suc (tp_next t)\<rparr>)"

definition topic_remove :: "nat \<Rightarrow> 'a topic \<Rightarrow> 'a topic" where
  "topic_remove i t = t\<lparr>tp_subs := remove1 i (tp_subs t)\<rparr>"

definition topic_close :: "nat \<Rightarrow> 'a topic \<Rightarrow> 'a topic" where
  "topic_close i t =
     (if chan_closed (tp_chans t i) then t\<lparr>tp_panic := True\<rparr>
      else t\<lparr>tp_chans := (tp_chans t)(i := chan_close (tp_chans t i))\<rparr>)"

definition topic_unsub :: "nat \<Rightarrow> 'a topic \<Rightarrow> 'a topic" where
  "topic_unsub i t = topic_close i (topic_remove i t)"

definition topic_offer :: "'a \<Rightarrow> nat \<Rightarrow> 'a topic \<Rightarrow> 'a topic" where
  "topic_offer x i t =
     (case chan_try_send x (tp_chans t i) of
        (SendPanic, _) \<Rightarrow> t\<lparr>tp_panic := True\<rparr>
      | (_, ch) \<Rightarrow> t\<lparr>tp_chans := (tp_chans t)(i := ch)\<rparr>)"

definition topic_send :: "'a \<Rightarrow> nat list \<Rightarrow> 'a topic \<Rightarrow> 'a topic" where
  "topic_send x ns t = fold (topic_offer x) ns t"

definition topic_publish :: "'a \<Rightarrow> 'a topic \<Rightarrow> 'a topic" where
  "topic_publish x t = topic_send x (tp_subs t) t"

definition topic_receive :: "nat \<Rightarrow> 'a topic \<Rightarrow> 'a recv_result \<times> 'a topic" where
  "topic_receive i t =
     (case chan_recv (tp_chans t i) of (r, ch) \<Rightarrow> (r, t\<lparr>tp_chans := (tp_chans t)(i := ch)\<rparr>))"

definition topic_ok :: "'a topic \<Rightarrow> bool" where
  "topic_ok t \<longleftrightarrow>
     distinct (tp_subs t) \<and> (\<forall>i \<in> set (tp_subs t). i < tp_next t \<and> \<not> chan_closed (tp_chans t i)) \<and>
     (\<forall>i. chan_ok (tp_chans t i)) \<and> \<not> tp_panic t"

lemma topic_ok_new [simp]: "topic_ok new_topic"
  by (simp add: topic_ok_def new_topic_def)

lemma topic_ok_subscribe [simp]: "topic_ok t \<Longrightarrow> topic_ok (snd (topic_subscribe n t))"
  by (auto simp: topic_ok_def topic_subscribe_def make_chan_def chan_ok_def less_Suc_eq)

lemma topic_ok_unsub [simp]: "topic_ok t \<Longrightarrow> i \<in> set (tp_subs t) \<Longrightarrow> topic_ok (topic_unsub i t)"
  by (auto simp: topic_ok_def topic_unsub_def topic_remove_def topic_close_def chan_close_def chan_ok_def)

lemma topic_ok_receive [simp]: "topic_ok t \<Longrightarrow> topic_ok (snd (topic_receive i t))"
  using chan_ok_recv [of "tp_chans t i"]
  by (auto simp: topic_ok_def topic_receive_def chan_recv_def split: list.splits)

text \<open>Offering to open channels: the queue of each grows by the value if it has room.\<close>

definition grown :: "'a \<Rightarrow> 'a chan \<Rightarrow> 'a chan" where
  "grown x ch = (if length (chan_buf ch) < chan_cap ch then ch\<lparr>chan_buf := chan_buf ch @ [x]\<rparr> else ch)"

lemma topic_offer_open:
  "\<not> chan_closed (tp_chans t i) \<Longrightarrow>
     topic_offer x i t = t\<lparr>tp_chans := (tp_chans t)(i := grown x (tp_chans t i))\<rparr>"
  by (simp add: topic_offer_def chan_try_send_def grown_def)

lemma topic_send_open:
  assumes "distinct ns" and "\<forall>i \<in> set ns. \<not> chan_closed (tp_chans t i)"
  shows "topic_send x ns t =
    t\<lparr>tp_chans := (\<lambda>i. if i \<in> set ns then grown x (tp_chans t i) else tp_chans t i)\<rparr>"
  using assms
proof (induction ns arbitrary: t)
  case (Cons i ns)
  let ?t = "t\<lparr>tp_chans := (tp_chans t)(i := grown x (tp_chans t i))\<rparr>"
  have o: "topic_offer x i t = ?t" using Cons.prems by (simp add: topic_offer_open)
  have "topic_send x (i # ns) t = topic_send x ns ?t" by (simp add: topic_send_def o)
  also have "\<dots> = ?t\<lparr>tp_chans := (\<lambda>j. if j \<in> set ns then grown x (tp_chans ?t j) else tp_chans ?t j)\<rparr>"
    using Cons.prems by (intro Cons.IH) auto
  finally show ?case using Cons.prems by (auto intro!: arg_cong [where f = "\<lambda>f. t\<lparr>tp_chans := f\<rparr>"])
qed (simp add: topic_send_def)

text \<open>So the order in which a \<open>range\<close> loop visits the subscribers does not matter.\<close>

lemma topic_send_order:
  assumes "topic_ok t" and "mset ns = mset (tp_subs t)"
  shows "topic_send x ns t = topic_publish x t"
proof -
  have s: "set ns = set (tp_subs t)" using assms(2) by (metis set_mset_mset)
  have d: "distinct ns" using assms by (metis mset_eq_imp_distinct_iff topic_ok_def)
  have "topic_send x ns t = topic_send x (tp_subs t) t"
    using assms(1) d s by (simp add: topic_send_open topic_ok_def)
  then show ?thesis by (simp add: topic_publish_def)
qed

lemma topic_publish_open:
  assumes "topic_ok t"
  shows "topic_publish x t =
    t\<lparr>tp_chans := (\<lambda>i. if i \<in> set (tp_subs t) then grown x (tp_chans t i) else tp_chans t i)\<rparr>"
  using assms by (simp add: topic_publish_def topic_send_open topic_ok_def)

lemma topic_ok_publish [simp]: "topic_ok t \<Longrightarrow> topic_ok (topic_publish x t)"
  by (subst topic_publish_open) (auto simp: topic_ok_def grown_def chan_ok_def)

section \<open>Bounded histories\<close>

definition keep_last :: "nat \<Rightarrow> 'a list \<Rightarrow> 'a list" where
  "keep_last n xs = (if n < length xs then drop (length xs - n) xs else xs)"

lemma keep_last_drop: "keep_last n xs = drop (length xs - n) xs"
  by (simp add: keep_last_def)

lemma keep_last_keep: "keep_last n (keep_last n xs @ ys) = keep_last n (xs @ ys)"
  by (simp add: keep_last_drop) (metis (no_types) add_diff_cancel_right drop_append drop_drop
      diff_diff_cancel diff_le_self le_add_diff_inverse2 length_drop nat_le_linear diff_is_0_eq drop0
      append_Nil diff_diff_left add.commute)

locale bounded_log =
  fixes push :: "'a \<Rightarrow> 's \<Rightarrow> 's"
    and entries :: "'s \<Rightarrow> 'a list"
    and limit :: "'s \<Rightarrow> nat"
  assumes push_entries: "entries (push x s) = keep_last (limit s) (entries s @ [x])"
    and push_limit: "limit (push x s) = limit s"
begin

lemma push_bounded: "length (entries (push x s)) \<le> limit s"
  by (simp add: push_entries keep_last_drop)

lemma fold_limit: "limit (fold push xs s) = limit s"
  by (induction xs arbitrary: s) (simp_all add: push_limit)

text \<open>After any history the log is the end of it.\<close>

lemma log_history:
  "length (entries s) \<le> limit s \<Longrightarrow> entries (fold push xs s) = keep_last (limit s) (entries s @ xs)"
proof (induction xs rule: rev_induct)
  case Nil
  then show ?case by (simp add: keep_last_def)
next
  case (snoc x xs)
  then show ?case by (simp add: push_entries fold_limit keep_last_keep)
qed

end

end
