(* ===== verification/Hub.thy ===== *)
theory Hub
  imports Topic BrokerState
begin

text \<open>
  The web UI's hub (\<open>internal/webui/hub.go\<close>, \<open>nodes.go\<close>): the bounded event log, the
  channel table, the node table, the status, and the subscribers. Time is an argument
  of the operations that read the clock, in nanoseconds of Unix time; a zero
  \<open>time.Time\<close> is \<^const>\<open>None\<close>. Names of enumeration values and the JSON text of messages
  come from the protobuf library and are fields of an environment.

  \<open>Record\<close> is split where the source releases the lock: a first part that stores the
  event and copies the subscribers, a second part that offers it to them.
\<close>

section \<open>State\<close>

type_synonym gotime = "int option"

record Event =
  ev_Time :: gotime
  ev_Direction :: string
  ev_Addr :: string
  ev_Variant :: string
  ev_Category :: string
  ev_ChannelIndex :: "i32 option"
  ev_ChannelName :: string
  ev_Summary :: string
  ev_JSON :: string

record ChannelInfo =
  ci_Index :: i32
  ci_Name :: string
  ci_Role :: string
  ci_Updated :: gotime

text \<open>
  Latitude and longitude are kept as the integer number of 1e-7 degrees of the
  message; the source stores the product as a \<open>float64\<close>.
\<close>

record NodeView =
  nv_Num :: u32
  nv_UserID :: string
  nv_LongName :: string
  nv_ShortName :: string
  nv_HwModel :: string
  nv_Role :: string
  nv_Snr :: f32
  nv_LastHeard :: u32
  nv_LastActivity :: gotime
  nv_HopsAway :: "u32 option"
  nv_ViaMqtt :: bool
  nv_IsFavorite :: bool
  nv_IsIgnored :: bool
  nv_IsLocal :: bool
  nv_BatteryLevel :: "u32 option"
  nv_Latitude :: "i32 option"
  nv_Longitude :: "i32 option"
  nv_Altitude :: "i32 option"
  nv_Online :: bool
  nv_Updated :: gotime

definition zero_NodeView :: NodeView where
  "zero_NodeView = \<lparr>nv_Num = 0, nv_UserID = '''', nv_LongName = '''', nv_ShortName = '''',
     nv_HwModel = '''', nv_Role = '''', nv_Snr = 0, nv_LastHeard = 0, nv_LastActivity = None,
     nv_HopsAway = None, nv_ViaMqtt = False, nv_IsFavorite = False, nv_IsIgnored = False,
     nv_IsLocal = False, nv_BatteryLevel = None, nv_Latitude = None, nv_Longitude = None,
     nv_Altitude = None, nv_Online = False, nv_Updated = None\<rparr>"

record ChatMessage =
  cm_Time :: gotime
  cm_Text :: string
  cm_From :: u32
  cm_To :: u32
  cm_Channel :: i32
  cm_ChannelName :: string
  cm_Outgoing :: bool
  cm_PacketID :: u32
  cm_ProtoJSON :: string

definition defaultMaxEvents :: nat where "defaultMaxEvents = 1000"
definition defaultMaxChat :: nat where "defaultMaxChat = 500"

definition zero_Status :: Status where
  "zero_Status = \<lparr>st_SerialConnected = False, st_ClientCount = 0, st_PrimaryAddr = '''',
     st_CacheReady = False, st_CacheSummary = '''', st_LocalNodeNum = 0\<rparr>"

record hub =
  h_events :: "Event list"
  h_maxEvents :: nat
  h_chats :: "ChatMessage list"
  h_maxChat :: nat
  h_packetProtos :: "(u32, string) gomap"
  h_channels :: "(i32, ChannelInfo) gomap"
  h_nodes :: "(u32, NodeView) gomap"
  h_localNodeNum :: u32
  h_status :: Status
  h_subscribers :: "Event topic"
  h_chatSubs :: "ChatMessage topic"
  h_nodeSubs :: "(NodeView list) topic"

definition NewHub :: hub where
  "NewHub = \<lparr>h_events = [], h_maxEvents = defaultMaxEvents, h_chats = [],
     h_maxChat = defaultMaxChat, h_packetProtos = [], h_channels = [], h_nodes = [],
     h_localNodeNum = 0, h_status = zero_Status, h_subscribers = new_topic,
     h_chatSubs = new_topic, h_nodeSubs = new_topic\<rparr>"

section \<open>Events, channels and subscriptions\<close>

definition channel_name :: "i32 \<Rightarrow> hub \<Rightarrow> string \<Rightarrow> string" where
  "channel_name i h dflt = (case map_of (h_channels h) i of Some ch \<Rightarrow> ci_Name ch | None \<Rightarrow> dflt)"

definition complete_event :: "int \<Rightarrow> Event \<Rightarrow> hub \<Rightarrow> Event" where
  "complete_event now ev h =
     (let ev1 = (if ev_Time ev = None then ev\<lparr>ev_Time := Some now\<rparr> else ev)
      in case ev_ChannelIndex ev1 of
           Some i \<Rightarrow>
             if ev_ChannelName ev1 = '''' then ev1\<lparr>ev_ChannelName := channel_name i h ''''\<rparr> else ev1
         | None \<Rightarrow> ev1)"

definition store_event :: "Event \<Rightarrow> hub \<Rightarrow> hub" where
  "store_event ev h = h\<lparr>h_events := keep_last (h_maxEvents h) (h_events h @ [ev])\<rparr>"

definition Record_begin :: "int \<Rightarrow> Event \<Rightarrow> hub \<Rightarrow> (Event \<times> nat list) \<times> hub" where
  "Record_begin now ev h =
     (let ev1 = complete_event now ev h; h1 = store_event ev1 h
      in ((ev1, tp_subs (h_subscribers h1)), h1))"

definition Record_end :: "Event \<times> nat list \<Rightarrow> hub \<Rightarrow> hub" where
  "Record_end es h = h\<lparr>h_subscribers := topic_send (fst es) (snd es) (h_subscribers h)\<rparr>"

definition Record :: "int \<Rightarrow> Event \<Rightarrow> hub \<Rightarrow> hub" where
  "Record now ev h = (case Record_begin now ev h of (es, h1) \<Rightarrow> Record_end es h1)"

definition UpdateChannel :: "int \<Rightarrow> i32 \<Rightarrow> string \<Rightarrow> string \<Rightarrow> hub \<Rightarrow> hub" where
  "UpdateChannel now index name role h =
     h\<lparr>h_channels := AList.update index
         \<lparr>ci_Index = index, ci_Name = name, ci_Role = role, ci_Updated = Some now\<rparr> (h_channels h)\<rparr>"

definition Snapshot :: "hub \<Rightarrow> Event list \<times> ChannelInfo list \<times> Status" where
  "Snapshot h = (h_events h, map snd (h_channels h), h_status h)"

definition buffer_size :: "int \<Rightarrow> nat \<Rightarrow> nat" where
  "buffer_size buffer dflt = (if buffer \<le> 0 then dflt else nat buffer)"

definition Subscribe :: "int \<Rightarrow> hub \<Rightarrow> nat \<times> hub" where
  "Subscribe buffer h =
     (case topic_subscribe (buffer_size buffer 64) (h_subscribers h) of
        (i, t) \<Rightarrow> (i, h\<lparr>h_subscribers := t\<rparr>))"

definition SubscribeChat :: "int \<Rightarrow> hub \<Rightarrow> nat \<times> hub" where
  "SubscribeChat buffer h =
     (case topic_subscribe (buffer_size buffer 64) (h_chatSubs h) of
        (i, t) \<Rightarrow> (i, h\<lparr>h_chatSubs := t\<rparr>))"

definition SubscribeNodes :: "int \<Rightarrow> hub \<Rightarrow> nat \<times> hub" where
  "SubscribeNodes buffer h =
     (case topic_subscribe (buffer_size buffer 16) (h_nodeSubs h) of
        (i, t) \<Rightarrow> (i, h\<lparr>h_nodeSubs := t\<rparr>))"

definition Unsubscribe :: "nat \<Rightarrow> hub \<Rightarrow> hub" where
  "Unsubscribe i h = h\<lparr>h_subscribers := topic_unsub i (h_subscribers h)\<rparr>"

definition UnsubscribeChat :: "nat \<Rightarrow> hub \<Rightarrow> hub" where
  "UnsubscribeChat i h = h\<lparr>h_chatSubs := topic_unsub i (h_chatSubs h)\<rparr>"

definition UnsubscribeNodes :: "nat \<Rightarrow> hub \<Rightarrow> hub" where
  "UnsubscribeNodes i h = h\<lparr>h_nodeSubs := topic_unsub i (h_nodeSubs h)\<rparr>"

section \<open>Nodes\<close>

definition nodeOnlineWindow :: int where "nodeOnlineWindow = 2 * 3600 * 1000000000"

text \<open>\<open>uint32(t.Unix())\<close> wraps.\<close>

definition activityUnix :: "NodeView \<Rightarrow> u32" where
  "activityUnix n =
     (case nv_LastActivity n of
        Some t \<Rightarrow> word_of_int (t div 1000000000)
      | None \<Rightarrow> nv_LastHeard n)"

definition nodeOnline :: "NodeView \<Rightarrow> int \<Rightarrow> bool" where
  "nodeOnline n now =
     (let ts = activityUnix n in
      if ts \<noteq> 0 then now - uint ts * 1000000000 \<le> nodeOnlineWindow else False)"

definition SnapshotNodes :: "int \<Rightarrow> hub \<Rightarrow> NodeView list" where
  "SnapshotNodes now h =
     map (\<lambda>(k, n). let n1 = n\<lparr>nv_IsLocal := (nv_Num n = h_localNodeNum h)\<rparr>
                   in n1\<lparr>nv_Online := nodeOnline n1 now\<rparr>) (h_nodes h)"

definition notifyNodes :: "int \<Rightarrow> hub \<Rightarrow> hub" where
  "notifyNodes now h = h\<lparr>h_nodeSubs := topic_publish (SnapshotNodes now h) (h_nodeSubs h)\<rparr>"

definition SetStatus :: "int \<Rightarrow> Status \<Rightarrow> hub \<Rightarrow> hub" where
  "SetStatus now st h =
     (let h1 = h\<lparr>h_status := st\<rparr>;
          h2 = (if st_LocalNodeNum st \<noteq> 0 then h1\<lparr>h_localNodeNum := st_LocalNodeNum st\<rparr> else h1)
      in if st_LocalNodeNum st \<noteq> 0 then notifyNodes now h2 else h2)"

definition SetLocalNodeNum :: "int \<Rightarrow> u32 \<Rightarrow> hub \<Rightarrow> hub" where
  "SetLocalNodeNum now num h =
     (if num = 0 then h
      else
        let h1 = h\<lparr>h_localNodeNum := num\<rparr>;
            h2 = (case map_of (h_nodes h1) num of
                    Some n \<Rightarrow> h1\<lparr>h_nodes := AList.update num (n\<lparr>nv_IsLocal := True\<rparr>) (h_nodes h1)\<rparr>
                  | None \<Rightarrow> h1)
        in notifyNodes now h2)"

definition the_node :: "u32 \<Rightarrow> hub \<Rightarrow> NodeView" where
  "the_node num h = (case map_of (h_nodes h) num of Some n \<Rightarrow> n | None \<Rightarrow> zero_NodeView)"

record names =
  nm_HwModel :: "i32 \<Rightarrow> string"
  nm_Role :: "i32 \<Rightarrow> string"
  nm_ChannelRole :: "i32 \<Rightarrow> string"
  nm_PortNum :: "i32 \<Rightarrow> string"

definition node_with_user :: "'a names_scheme \<Rightarrow> User \<Rightarrow> NodeView \<Rightarrow> NodeView" where
  "node_with_user N u n =
     (let n1 = (if User_Id u \<noteq> '''' then n\<lparr>nv_UserID := User_Id u\<rparr> else n);
          n2 = (if User_LongName u \<noteq> '''' then n1\<lparr>nv_LongName := User_LongName u\<rparr> else n1);
          n3 = (if User_ShortName u \<noteq> '''' then n2\<lparr>nv_ShortName := User_ShortName u\<rparr> else n2);
          n4 = (if User_HwModel u \<noteq> 0 then n3\<lparr>nv_HwModel := nm_HwModel N (User_HwModel u)\<rparr> else n3)
      in n4\<lparr>nv_Role := nm_Role N (User_Role u)\<rparr>)"

definition node_with_position :: "Position \<Rightarrow> NodeView \<Rightarrow> NodeView" where
  "node_with_position pos n =
     (let n1 = (if Position_LatitudeI pos \<noteq> None then n\<lparr>nv_Latitude := Position_LatitudeI pos\<rparr> else n);
          n2 = (if Position_LongitudeI pos \<noteq> None then n1\<lparr>nv_Longitude := Position_LongitudeI pos\<rparr> else n1)
      in if Position_Altitude pos \<noteq> None then n2\<lparr>nv_Altitude := Position_Altitude pos\<rparr> else n2)"

definition node_from_info :: "'a names_scheme \<Rightarrow> int \<Rightarrow> u32 \<Rightarrow> NodeInfo \<Rightarrow> NodeView \<Rightarrow> NodeView" where
  "node_from_info N now localNode info n0 =
     (let num = NodeInfo_Num info;
          n1 = n0\<lparr>nv_Num := num, nv_Updated := Some now\<rparr>;
          n2 = (if nv_LastActivity n1 = None then n1\<lparr>nv_LastActivity := Some now\<rparr> else n1);
          n3 = (if NodeInfo_LastHeard info \<noteq> 0 then n2\<lparr>nv_LastHeard := NodeInfo_LastHeard info\<rparr> else n2);
          n4 = (if f32_nonzero (NodeInfo_Snr info) then n3\<lparr>nv_Snr := NodeInfo_Snr info\<rparr> else n3);
          n5 = n4\<lparr>nv_HopsAway := NodeInfo_HopsAway info, nv_ViaMqtt := NodeInfo_ViaMqtt info,
                  nv_IsFavorite := NodeInfo_IsFavorite info, nv_IsIgnored := NodeInfo_IsIgnored info,
                  nv_IsLocal := (num = localNode)\<rparr>;
          n6 = (case NodeInfo_User info of Some u \<Rightarrow> node_with_user N u n5 | None \<Rightarrow> n5);
          n7 = (case NodeInfo_Position info of Some pos \<Rightarrow> node_with_position pos n6 | None \<Rightarrow> n6);
          n8 = (case NodeInfo_DeviceMetrics info of
                  Some dm \<Rightarrow> (if DeviceMetrics_BatteryLevel dm \<noteq> None
                    then n7\<lparr>nv_BatteryLevel := DeviceMetrics_BatteryLevel dm\<rparr> else n7)
                | None \<Rightarrow> n7)
      in n8\<lparr>nv_Online := nodeOnline n8 now\<rparr>)"

definition UpdateNodeFromInfo :: "'a names_scheme \<Rightarrow> int \<Rightarrow> NodeInfo option \<Rightarrow> hub \<Rightarrow> hub" where
  "UpdateNodeFromInfo N now info h =
     (case info of
        None \<Rightarrow> h
      | Some i \<Rightarrow>
          if NodeInfo_Num i = 0 then h
          else notifyNodes now (h\<lparr>h_nodes := AList.update (NodeInfo_Num i)
                 (node_from_info N now (h_localNodeNum h) i (the_node (NodeInfo_Num i) h)) (h_nodes h)\<rparr>))"

definition touched_node :: "u32 \<Rightarrow> f32 \<Rightarrow> int \<Rightarrow> u32 \<Rightarrow> NodeView \<Rightarrow> NodeView" where
  "touched_node num snr at localNode n0 =
     (let n1 = (if nv_Num n0 = 0 then n0\<lparr>nv_Num := num\<rparr> else n0);
          n2 = n1\<lparr>nv_LastActivity := Some at, nv_Updated := Some at\<rparr>;
          n3 = (if f32_nonzero snr then n2\<lparr>nv_Snr := snr\<rparr> else n2);
          n4 = n3\<lparr>nv_IsLocal := (num = localNode)\<rparr>
      in n4\<lparr>nv_Online := nodeOnline n4 at\<rparr>)"

definition touchNodeActivity :: "int \<Rightarrow> u32 \<Rightarrow> f32 \<Rightarrow> int \<Rightarrow> hub \<Rightarrow> hub" where
  "touchNodeActivity now num snr at h =
     (if num = 0 \<or> num = 0xFFFFFFFF then h
      else notifyNodes now (h\<lparr>h_nodes := AList.update num
             (touched_node num snr at (h_localNodeNum h) (the_node num h)) (h_nodes h)\<rparr>))"

definition nodeInfoSummary :: "NodeInfo option \<Rightarrow> string" where
  "nodeInfoSummary info =
     (case info of
        None \<Rightarrow> ''NodeInfo''
      | Some i \<Rightarrow>
          let long = (case NodeInfo_User i of Some u \<Rightarrow> User_LongName u | None \<Rightarrow> '''');
              short = (case NodeInfo_User i of Some u \<Rightarrow> User_ShortName u | None \<Rightarrow> '''');
              name = (if long = '''' then short else long)
          in if name \<noteq> '''' then ''NodeInfo '' @ name else ''NodeInfo'')"

end
