(* ===== verification/Chat.thy ===== *)
theory Chat
  imports Hub
begin

text \<open>
  The chat history and the cache of packet texts (\<open>internal/webui/chat.go\<close>,
  \<open>packet_proto.go\<close>, \<open>marshalProtoJSONLimit\<close> of \<open>proto.go\<close>). The JSON text of a message
  is a parameter of the operations that need it: \<^const>\<open>None\<close> is an error of
  \<open>protojson\<close>. The order in which the eviction loop ranges over the map is a parameter
  as well.
\<close>

section \<open>JSON texts\<close>

definition maxEventJSON :: nat where "maxEventJSON = 2048"

definition marshalProtoJSONLimit :: "string option \<Rightarrow> nat \<Rightarrow> string" where
  "marshalProtoJSONLimit data maxLen =
     (case data of
        None \<Rightarrow> ''''
      | Some d \<Rightarrow>
          if 0 < maxLen \<and> maxLen < length d
          then take maxLen d @ '' ...(truncated '' @ Itoa (int (length d) - int maxLen) @ '' chars)''
          else d)"

definition marshalProtoJSON :: "string option \<Rightarrow> string" where
  "marshalProtoJSON data = marshalProtoJSONLimit data maxEventJSON"

definition marshalProtoJSONFull :: "string option \<Rightarrow> string" where
  "marshalProtoJSONFull data = marshalProtoJSONLimit data 0"

record webenv = names +
  w_json_FromRadio :: "FromRadio \<Rightarrow> string option"
  w_json_ToRadio :: "ToRadio \<Rightarrow> string option"
  w_json_MeshPacket :: "MeshPacket \<Rightarrow> string option"
  w_evict_order :: "u32 list \<Rightarrow> u32 list"

text \<open>A \<open>range\<close> loop visits every key once.\<close>

definition webenv_ok :: "'a webenv_scheme \<Rightarrow> bool" where
  "webenv_ok W \<longleftrightarrow> (\<forall>ks. mset (w_evict_order W ks) = mset ks)"

section \<open>The cache of packet texts\<close>

definition maxPacketProtoCache :: nat where "maxPacketProtoCache = 2048"

primrec evict :: "u32 list \<Rightarrow> (u32, string) gomap \<Rightarrow> (u32, string) gomap" where
  "evict [] m = m"
| "evict (k # ks) m =
     (let m1 = AList.delete k m in
      if length m1 \<le> maxPacketProtoCache div 2 then m1 else evict ks m1)"

definition cachePacketProto :: "'a webenv_scheme \<Rightarrow> MeshPacket option \<Rightarrow> hub \<Rightarrow> hub" where
  "cachePacketProto W pkt h =
     (case pkt of
        None \<Rightarrow> h
      | Some p \<Rightarrow>
          let i = MeshPacket_GetId pkt in
          if i = 0 then h
          else
            let json = marshalProtoJSONFull (w_json_MeshPacket W p) in
            if json = '''' then h
            else
              let m = AList.update i json (h_packetProtos h) in
              h\<lparr>h_packetProtos :=
                  (if maxPacketProtoCache < length m then evict (w_evict_order W (map fst m)) m else m)\<rparr>)"

definition protoJSONForPacket :: "'a webenv_scheme \<Rightarrow> MeshPacket option \<Rightarrow> hub \<Rightarrow> string" where
  "protoJSONForPacket W pkt h =
     (case pkt of
        None \<Rightarrow> ''''
      | Some p \<Rightarrow>
          (case (if MeshPacket_GetId pkt \<noteq> 0 then map_of (h_packetProtos h) (MeshPacket_GetId pkt)
                 else None) of
             Some s \<Rightarrow> s
           | None \<Rightarrow> marshalProtoJSONFull (w_json_MeshPacket W p)))"

definition lookupPacketProto :: "u32 \<Rightarrow> hub \<Rightarrow> string" where
  "lookupPacketProto i h =
     (if i = 0 then '''' else case map_of (h_packetProtos h) i of Some s \<Rightarrow> s | None \<Rightarrow> '''')"

section \<open>Duplicates\<close>

text \<open>Nanoseconds of a \<open>time.Time\<close>; the zero time is the first instant of year 1.\<close>

definition time_ns :: "gotime \<Rightarrow> int" where
  "time_ns t = (case t of Some n \<Rightarrow> n | None \<Rightarrow> - 62135596800 * 1000000000)"

definition duplicate_of :: "ChatMessage \<Rightarrow> ChatMessage \<Rightarrow> bool" where
  "duplicate_of msg prev \<longleftrightarrow>
     (cm_PacketID msg \<noteq> 0 \<and> cm_PacketID prev = cm_PacketID msg) \<or>
     (cm_Outgoing prev \<and> cm_Outgoing msg \<and> cm_Text prev = cm_Text msg \<and>
      cm_Channel prev = cm_Channel msg \<and>
      time_ns (cm_Time msg) - time_ns (cm_Time prev) < 2 * 1000000000)"

text \<open>
  \<open>for i := len(xs) - 1; i >= 0 && i >= len(xs) - k; i--\<close>: the last index among the
  last \<open>k\<close> at which the test holds; called with \<open>len(xs)\<close>.
\<close>

fun scan_back :: "('a \<Rightarrow> bool) \<Rightarrow> 'a list \<Rightarrow> nat \<Rightarrow> nat \<Rightarrow> nat option" where
  "scan_back P xs 0 k = None"
| "scan_back P xs (Suc i) 0 = None"
| "scan_back P xs (Suc i) (Suc k) = (if P (xs ! i) then Some i else scan_back P xs i k)"

definition find_duplicate :: "ChatMessage \<Rightarrow> hub \<Rightarrow> nat option" where
  "find_duplicate msg h = scan_back (duplicate_of msg) (h_chats h) (length (h_chats h)) 8"

definition mergeDuplicateChat :: "ChatMessage \<Rightarrow> hub \<Rightarrow> ChatMessage option \<times> hub" where
  "mergeDuplicateChat msg h =
     (case find_duplicate msg h of
        None \<Rightarrow> (None, h)
      | Some i \<Rightarrow>
          let prev = h_chats h ! i;
              own = cm_ProtoJSON msg \<noteq> '''' \<and> cm_ProtoJSON prev = '''';
              prev1 = (if own then prev\<lparr>cm_ProtoJSON := cm_ProtoJSON msg\<rparr> else prev);
              s = (if cm_ProtoJSON prev1 = '''' \<and> cm_PacketID msg \<noteq> 0
                   then lookupPacketProto (cm_PacketID msg) h else '''');
              prev2 = (if s \<noteq> '''' then prev1\<lparr>cm_ProtoJSON := s\<rparr> else prev1)
          in if own \<or> s \<noteq> '''' then (Some prev2, h\<lparr>h_chats := (h_chats h)[i := prev2]\<rparr>)
             else (None, h))"

definition isDuplicateChat :: "ChatMessage \<Rightarrow> hub \<Rightarrow> bool" where
  "isDuplicateChat msg h \<longleftrightarrow> find_duplicate msg h \<noteq> None"

section \<open>Recording and reading\<close>

definition notifyChat :: "ChatMessage \<Rightarrow> hub \<Rightarrow> hub" where
  "notifyChat msg h = h\<lparr>h_chatSubs := topic_publish msg (h_chatSubs h)\<rparr>"

definition store_chat :: "ChatMessage \<Rightarrow> hub \<Rightarrow> hub" where
  "store_chat msg h = h\<lparr>h_chats := keep_last (h_maxChat h) (h_chats h @ [msg])\<rparr>"

definition complete_chat :: "int \<Rightarrow> ChatMessage \<Rightarrow> hub \<Rightarrow> ChatMessage" where
  "complete_chat now msg h =
     (let msg1 = (if cm_Time msg = None then msg\<lparr>cm_Time := Some now\<rparr> else msg)
      in if cm_ChannelName msg1 = ''''
         then msg1\<lparr>cm_ChannelName := channel_name (cm_Channel msg1) h ''''\<rparr> else msg1)"

definition RecordChat :: "int \<Rightarrow> ChatMessage \<Rightarrow> hub \<Rightarrow> hub" where
  "RecordChat now msg h =
     (let msg1 = complete_chat now msg h in
      case mergeDuplicateChat msg1 h of
        (Some updated, h1) \<Rightarrow> notifyChat updated h1
      | (None, h1) \<Rightarrow>
          if isDuplicateChat msg1 h1 then h1 else notifyChat msg1 (store_chat msg1 h1))"

definition SnapshotChat :: "hub \<Rightarrow> ChatMessage list" where
  "SnapshotChat h =
     map (\<lambda>m. if cm_ProtoJSON m = '''' \<and> cm_PacketID m \<noteq> 0
              then (let s = lookupPacketProto (cm_PacketID m) h
                    in if s \<noteq> '''' then m\<lparr>cm_ProtoJSON := s\<rparr> else m)
              else m) (h_chats h)"

section \<open>Chat messages in packets\<close>

definition isChatPort :: "PortNum \<Rightarrow> bool" where
  "isChatPort p \<longleftrightarrow>
     p \<in> {PortNum_TEXT_MESSAGE_APP, PortNum_REPLY_APP, PortNum_DETECTION_SENSOR_APP, PortNum_ALERT_APP}"

text \<open>\<open>isUTF8\<close> of \<open>observer.go\<close>: no control characters but newline, return and tab.\<close>

definition isUTF8 :: "bytes \<Rightarrow> bool" where
  "isUTF8 bs \<longleftrightarrow> list_all (\<lambda>b. \<not> (b < 0x20 \<and> b \<noteq> 10 \<and> b \<noteq> 13 \<and> b \<noteq> 9)) bs"

definition chatTextFromData :: "Data \<Rightarrow> string" where
  "chatTextFromData d =
     (if Data_Payload d = [] then ''''
      else if isChatPort (Data_Portnum d) \<and> isUTF8 (Data_Payload d)
      then string_of_bytes (Data_Payload d) else '''')"

definition TryRecordChatFromPacket ::
  "'a webenv_scheme \<Rightarrow> int \<Rightarrow> MeshPacket option \<Rightarrow> u32 \<Rightarrow> hub \<Rightarrow> hub" where
  "TryRecordChatFromPacket W now pkt localNode h =
     (case MeshPacket_GetDecoded pkt of
        None \<Rightarrow> h
      | Some d \<Rightarrow>
          if \<not> isChatPort (Data_Portnum d) then h
          else
            let text = chatTextFromData d in
            if text = '''' then h
            else RecordChat now
              \<lparr>cm_Time = Some now, cm_Text = text, cm_From = MeshPacket_GetFrom pkt,
               cm_To = MeshPacket_GetTo pkt, cm_Channel = MeshPacket_GetChannel pkt,
               cm_ChannelName = '''',
               cm_Outgoing = (localNode \<noteq> 0 \<and> MeshPacket_GetFrom pkt = localNode),
               cm_PacketID = MeshPacket_GetId pkt, cm_ProtoJSON = protoJSONForPacket W pkt h\<rparr> h)"

definition chat_packet :: "u32 \<Rightarrow> u32 \<Rightarrow> i32 \<Rightarrow> u32 \<Rightarrow> string \<Rightarrow> MeshPacket" where
  "chat_packet from to channel i text =
     zero_MeshPacket\<lparr>MeshPacket_From := from, MeshPacket_To := to, MeshPacket_Channel := channel,
       MeshPacket_Id := i,
       MeshPacket_Variant := Some (MeshPacket_Decoded (Some (zero_Data\<lparr>
         Data_Portnum := PortNum_TEXT_MESSAGE_APP, Data_Payload := bytes_of_string text\<rparr>)))\<rparr>"

definition chatMeshPacketJSON ::
  "'a webenv_scheme \<Rightarrow> u32 \<Rightarrow> u32 \<Rightarrow> i32 \<Rightarrow> u32 \<Rightarrow> string \<Rightarrow> string" where
  "chatMeshPacketJSON W from to channel i text =
     marshalProtoJSONFull (w_json_MeshPacket W (chat_packet from to channel i text))"

definition webui_BroadcastNode :: u32 where "webui_BroadcastNode = 0xFFFFFFFF"

text \<open>The verb \<open>%08x\<close>.\<close>

definition hex08 :: "u32 \<Rightarrow> string" where
  "hex08 v = replicate (8 - length (hex_u32 v)) (CHR ''0'') @ hex_u32 v"

definition formatNodeID :: "u32 \<Rightarrow> string" where
  "formatNodeID n = (if n = webui_BroadcastNode then ''broadcast'' else CHR ''!'' # hex08 n)"

end
