(* ===== verification/HubInv.thy ===== *)
theory HubInv
  imports Chat
begin

text \<open>
  The invariant of the hub: the histories stay within their limits, the tables are
  keyed by the number each entry carries, packet ids do not repeat within eight chat
  messages, and no subscriber channel that is still registered is closed. Each
  operation keeps it.
\<close>

section \<open>The invariant\<close>

definition chats_spaced :: "ChatMessage list \<Rightarrow> bool" where
  "chats_spaced cs \<longleftrightarrow>
     (\<forall>j < length cs. \<forall>i < j. j \<le> i + 8 \<longrightarrow> cm_PacketID (cs ! j) \<noteq> 0 \<longrightarrow>
        cm_PacketID (cs ! i) \<noteq> cm_PacketID (cs ! j))"

definition hub_ok :: "hub \<Rightarrow> bool" where
  "hub_ok h \<longleftrightarrow>
     h_maxEvents h = defaultMaxEvents \<and> h_maxChat h = defaultMaxChat \<and>
     length (h_events h) \<le> h_maxEvents h \<and> length (h_chats h) \<le> h_maxChat h \<and>
     chats_spaced (h_chats h) \<and>
     gomap_ok (h_packetProtos h) \<and> length (h_packetProtos h) \<le> maxPacketProtoCache \<and>
     gomap_ok (h_channels h) \<and> (\<forall>(k, c) \<in> set (h_channels h). ci_Index c = k) \<and>
     gomap_ok (h_nodes h) \<and> (\<forall>(k, n) \<in> set (h_nodes h). nv_Num n = k \<and> k \<noteq> 0) \<and>
     topic_ok (h_subscribers h) \<and> topic_ok (h_chatSubs h) \<and> topic_ok (h_nodeSubs h)"

lemma hub_ok_New: "hub_ok NewHub"
  by (simp add: hub_ok_def NewHub_def chats_spaced_def)

section \<open>Histories\<close>

interpretation event_log: bounded_log store_event h_events h_maxEvents
  by unfold_locales (simp_all add: store_event_def)

interpretation chat_log: bounded_log store_chat h_chats h_maxChat
  by unfold_locales (simp_all add: store_chat_def)

lemma Record_eq:
  "Record now ev h = (let ev1 = complete_event now ev h; h1 = store_event ev1 h
     in h1\<lparr>h_subscribers := topic_publish ev1 (h_subscribers h1)\<rparr>)"
  by (simp add: Record_def Record_begin_def Record_end_def Let_def topic_publish_def)

lemma hub_ok_Record: "hub_ok h \<Longrightarrow> hub_ok (Record now ev h)"
  using event_log.push_bounded [of "complete_event now ev h" h]
  by (simp add: Record_eq Let_def hub_ok_def) (simp add: store_event_def)

lemma complete_event_frame:
  "h_channels h' = h_channels h \<Longrightarrow> complete_event now ev h' = complete_event now ev h"
  by (simp add: complete_event_def channel_name_def Let_def split: option.split)

lemma Record_fields [simp]:
  "h_events (Record now ev h) = keep_last (h_maxEvents h) (h_events h @ [complete_event now ev h])"
  "h_maxEvents (Record now ev h) = h_maxEvents h" "h_channels (Record now ev h) = h_channels h"
  "h_chats (Record now ev h) = h_chats h" "h_nodes (Record now ev h) = h_nodes h"
  "h_status (Record now ev h) = h_status h" "h_maxChat (Record now ev h) = h_maxChat h"
  "h_packetProtos (Record now ev h) = h_packetProtos h"
  "h_localNodeNum (Record now ev h) = h_localNodeNum h"
  by (simp_all add: Record_eq Let_def store_event_def)

lemma Record_history:
  "length (h_events h) \<le> h_maxEvents h \<Longrightarrow>
     h_events (fold (\<lambda>(now, ev). Record now ev) es h) =
       keep_last (h_maxEvents h) (h_events h @ map (\<lambda>(now, ev). complete_event now ev h) es)"
proof (induction es rule: rev_induct)
  case Nil
  then show ?case by (simp add: keep_last_def)
next
  case (snoc e es)
  have f: "h_channels (fold (\<lambda>(now, ev). Record now ev) es h) = h_channels h \<and>
      h_maxEvents (fold (\<lambda>(now, ev). Record now ev) es h) = h_maxEvents h"
    by (induction es arbitrary: h) (auto simp: split_def)
  obtain now ev where e: "e = (now, ev)" by fastforce
  show ?case
    using snoc f complete_event_frame [of "fold (\<lambda>(now, ev). Record now ev) es h" h now ev]
    by (simp add: e keep_last_keep)
qed

section \<open>Channels, status and subscriptions\<close>

lemma set_update_pred:
  "(\<forall>(k, x) \<in> set m. P k x) \<Longrightarrow> P i v \<Longrightarrow> (\<forall>(k, x) \<in> set (AList.update i v m). P k x)"
  by (induction m) (auto split: if_splits)

lemma hub_ok_UpdateChannel:
  assumes "hub_ok h"
  shows "hub_ok (UpdateChannel now i name role h)"
proof -
  have "\<forall>(k, c) \<in> set (AList.update i \<lparr>ci_Index = i, ci_Name = name, ci_Role = role,
      ci_Updated = Some now\<rparr> (h_channels h)). ci_Index c = k"
    using assms by (intro set_update_pred) (auto simp: hub_ok_def)
  then show ?thesis using assms by (simp add: hub_ok_def UpdateChannel_def)
qed

lemma hub_ok_subs:
  "hub_ok h \<Longrightarrow> topic_ok t \<Longrightarrow> hub_ok (h\<lparr>h_subscribers := t\<rparr>)"
  "hub_ok h \<Longrightarrow> topic_ok u \<Longrightarrow> hub_ok (h\<lparr>h_chatSubs := u\<rparr>)"
  "hub_ok h \<Longrightarrow> topic_ok v \<Longrightarrow> hub_ok (h\<lparr>h_nodeSubs := v\<rparr>)"
  by (simp_all add: hub_ok_def)

lemma hub_ok_topics:
  "hub_ok h \<Longrightarrow> topic_ok (h_subscribers h)" "hub_ok h \<Longrightarrow> topic_ok (h_chatSubs h)"
  "hub_ok h \<Longrightarrow> topic_ok (h_nodeSubs h)"
  by (simp_all add: hub_ok_def)

lemma hub_ok_Subscribe:
  "hub_ok h \<Longrightarrow> hub_ok (snd (Subscribe n h))" "hub_ok h \<Longrightarrow> hub_ok (snd (SubscribeChat n h))"
  "hub_ok h \<Longrightarrow> hub_ok (snd (SubscribeNodes n h))"
  using hub_ok_topics [of h]
  by (auto simp: Subscribe_def SubscribeChat_def SubscribeNodes_def split: prod.split
      intro!: hub_ok_subs) (metis snd_conv topic_ok_subscribe)+

lemma hub_ok_Unsubscribe:
  "hub_ok h \<Longrightarrow> i \<in> set (tp_subs (h_subscribers h)) \<Longrightarrow> hub_ok (Unsubscribe i h)"
  "hub_ok h \<Longrightarrow> i \<in> set (tp_subs (h_chatSubs h)) \<Longrightarrow> hub_ok (UnsubscribeChat i h)"
  "hub_ok h \<Longrightarrow> i \<in> set (tp_subs (h_nodeSubs h)) \<Longrightarrow> hub_ok (UnsubscribeNodes i h)"
  using topic_ok_unsub
  by (auto simp: Unsubscribe_def UnsubscribeChat_def UnsubscribeNodes_def hub_ok_def)

section \<open>Nodes\<close>

lemma hub_ok_notifyNodes: "hub_ok h \<Longrightarrow> hub_ok (notifyNodes now h)"
  using hub_ok_topics(3) [of h] by (simp add: notifyNodes_def hub_ok_subs)

lemma hub_ok_local: "hub_ok h \<Longrightarrow> hub_ok (h\<lparr>h_localNodeNum := n\<rparr>)"
  by (simp add: hub_ok_def)

lemma hub_ok_status: "hub_ok h \<Longrightarrow> hub_ok (h\<lparr>h_status := st\<rparr>)"
  by (simp add: hub_ok_def)

lemma hub_ok_SetStatus: "hub_ok h \<Longrightarrow> hub_ok (SetStatus now st h)"
  by (auto simp: SetStatus_def Let_def intro!: hub_ok_notifyNodes)
    (simp_all add: hub_ok_def)

lemma hub_ok_node:
  assumes "hub_ok h" and "nv_Num n = num" and "num \<noteq> 0"
  shows "hub_ok (h\<lparr>h_nodes := AList.update num n (h_nodes h)\<rparr>)"
proof -
  have "\<forall>(k, n) \<in> set (AList.update num n (h_nodes h)). nv_Num n = k \<and> k \<noteq> 0"
    using assms by (intro set_update_pred) (auto simp: hub_ok_def)
  then show ?thesis using assms(1) by (simp add: hub_ok_def)
qed

lemma the_node_num: "hub_ok h \<Longrightarrow> nv_Num (the_node num h) = 0 \<or> nv_Num (the_node num h) = num"
  by (auto simp: the_node_def zero_NodeView_def hub_ok_def split: option.split dest: map_of_SomeD)

lemma nv_Num_with [simp]:
  "nv_Num (node_with_user N u n) = nv_Num n" "nv_Num (node_with_position pos n) = nv_Num n"
  by (simp_all add: node_with_user_def node_with_position_def Let_def)

lemma nv_Num_from_info [simp]: "nv_Num (node_from_info N now l info n) = NodeInfo_Num info"
  by (simp add: node_from_info_def Let_def split: option.split)

lemma nv_Num_touched: "nv_Num n = 0 \<or> nv_Num n = num \<Longrightarrow> nv_Num (touched_node num snr at l n) = num"
  by (auto simp: touched_node_def Let_def)

lemma hub_ok_UpdateNodeFromInfo: "hub_ok h \<Longrightarrow> hub_ok (UpdateNodeFromInfo N now info h)"
  by (auto simp: UpdateNodeFromInfo_def intro!: hub_ok_notifyNodes hub_ok_node split: option.split)

lemma hub_ok_touchNodeActivity: "hub_ok h \<Longrightarrow> hub_ok (touchNodeActivity now num snr at h)"
  by (auto simp: touchNodeActivity_def intro!: hub_ok_notifyNodes hub_ok_node nv_Num_touched the_node_num)

lemma hub_ok_SetLocalNodeNum: "hub_ok h \<Longrightarrow> hub_ok (SetLocalNodeNum now num h)"
proof -
  assume h: "hub_ok h"
  have "nv_Num n = num" if "map_of (h_nodes h) num = Some n" for n
    using h map_of_SomeD [OF that] by (auto simp: hub_ok_def)
  with h show ?thesis
    by (auto simp: SetLocalNodeNum_def Let_def intro!: hub_ok_notifyNodes hub_ok_node
        [of "h\<lparr>h_localNodeNum := num\<rparr>", simplified] hub_ok_local split: option.split)
qed

section \<open>Chat history\<close>

lemma scan_back_Some:
  "scan_back P xs n k = Some i \<Longrightarrow> i < n \<and> n \<le> i + k \<and> P (xs ! i)"
  by (induction P xs n k rule: scan_back.induct) (auto split: if_splits)

lemma scan_back_None:
  "scan_back P xs n k = None \<Longrightarrow> i < n \<Longrightarrow> n \<le> i + k \<Longrightarrow> \<not> P (xs ! i)"
proof (induction P xs n k arbitrary: i rule: scan_back.induct)
  case (3 P xs m k)
  then show ?case by (cases "i = m") (auto split: if_splits)
qed auto

lemma chats_spaced_suffix: "chats_spaced cs \<Longrightarrow> chats_spaced (drop n cs)"
  unfolding chats_spaced_def
proof (intro allI impI)
  fix j i
  assume a: "\<forall>j<length cs. \<forall>i<j. j \<le> i + 8 \<longrightarrow> cm_PacketID (cs ! j) \<noteq> 0 \<longrightarrow>
      cm_PacketID (cs ! i) \<noteq> cm_PacketID (cs ! j)"
    and j: "j < length (drop n cs)" "i < j" "j \<le> i + 8" "cm_PacketID (drop n cs ! j) \<noteq> 0"
  then show "cm_PacketID (drop n cs ! i) \<noteq> cm_PacketID (drop n cs ! j)"
    using a [rule_format, of "n + j" "n + i"] by auto
qed

lemma chats_spaced_snoc:
  assumes "chats_spaced cs" and "scan_back (duplicate_of m) cs (length cs) 8 = None"
  shows "chats_spaced (cs @ [m])"
  unfolding chats_spaced_def
proof (intro allI impI)
  fix j i
  assume j: "j < length (cs @ [m])" "i < j" "j \<le> i + 8" "cm_PacketID ((cs @ [m]) ! j) \<noteq> 0"
  show "cm_PacketID ((cs @ [m]) ! i) \<noteq> cm_PacketID ((cs @ [m]) ! j)"
  proof (cases "j = length cs")
    case True
    with j scan_back_None [OF assms(2), of i] show ?thesis
      by (auto simp: nth_append duplicate_of_def)
  next
    case False
    with j assms(1) show ?thesis by (simp add: nth_append chats_spaced_def)
  qed
qed

lemma chats_spaced_update:
  assumes "chats_spaced cs" and "cm_PacketID m = cm_PacketID (cs ! i)"
  shows "chats_spaced (cs[i := m])"
proof -
  have "cm_PacketID (cs[i := m] ! k) = cm_PacketID (cs ! k)" if "k < length cs" for k
    using that assms(2) by (cases "k = i") auto
  with assms(1) show ?thesis by (simp add: chats_spaced_def)
qed

lemma hub_ok_chats:
  "hub_ok h \<Longrightarrow> chats_spaced cs \<Longrightarrow> length cs \<le> h_maxChat h \<Longrightarrow> hub_ok (h\<lparr>h_chats := cs\<rparr>)"
  by (simp add: hub_ok_def)

lemma hub_ok_notifyChat: "hub_ok h \<Longrightarrow> hub_ok (notifyChat m h)"
  using hub_ok_topics(2) [of h] by (simp add: notifyChat_def hub_ok_subs)

lemma hub_ok_merge: "hub_ok h \<Longrightarrow> hub_ok (snd (mergeDuplicateChat m h))"
  by (auto simp: mergeDuplicateChat_def Let_def split: option.split
      intro!: hub_ok_chats chats_spaced_update) (auto simp: hub_ok_def)

lemma merge_None_same: "mergeDuplicateChat m h = (None, h') \<Longrightarrow> h' = h"
  by (auto simp: mergeDuplicateChat_def Let_def split: option.splits if_splits)

lemma hub_ok_RecordChat:
  assumes "hub_ok h"
  shows "hub_ok (RecordChat now msg h)"
proof -
  define m where "m = complete_chat now msg h"
  obtain r h1 where r: "mergeDuplicateChat m h = (r, h1)" by fastforce
  have h1: "hub_ok h1" using hub_ok_merge [OF assms, of m] r by simp
  have "hub_ok (store_chat m h1)" if "\<not> isDuplicateChat m h1"
  proof -
    have "chats_spaced (h_chats h1 @ [m])"
      using that h1 by (intro chats_spaced_snoc) (auto simp: isDuplicateChat_def find_duplicate_def hub_ok_def)
    then have "chats_spaced (keep_last (h_maxChat h1) (h_chats h1 @ [m]))"
      unfolding keep_last_drop by (rule chats_spaced_suffix)
    then show ?thesis
      using h1 chat_log.push_bounded [of m h1] by (auto simp: store_chat_def intro!: hub_ok_chats)
  qed
  with h1 r show ?thesis
    by (auto simp: RecordChat_def Let_def m_def [symmetric] intro!: hub_ok_notifyChat split: option.split)
qed

lemma hub_ok_TryRecord: "hub_ok h \<Longrightarrow> hub_ok (TryRecordChatFromPacket W now pkt l h)"
  by (auto simp: TryRecordChatFromPacket_def Let_def intro!: hub_ok_RecordChat split: option.split)

section \<open>The cache of packet texts\<close>

lemma length_delete: "gomap_ok m \<Longrightarrow> k \<in> fst ` set m \<Longrightarrow> Suc (length (AList.delete k m)) = length m"
proof (induction m)
  case (Cons p m)
  then show ?case
    by (cases "fst p = k") (auto simp: gomap_ok_def delete_idem image_iff)
qed simp

lemma gomap_ok_evict: "gomap_ok m \<Longrightarrow> gomap_ok (evict ks m)"
  by (induction ks arbitrary: m) (simp_all add: Let_def)

lemma map_of_evict: "map_of (evict ks m) k = Some v \<Longrightarrow> map_of m k = Some v"
  by (induction ks arbitrary: m) (fastforce simp: Let_def split: if_splits)+

text \<open>When the loop visits the keys of an overfull map, exactly half the limit stays.\<close>

lemma length_evict:
  assumes "gomap_ok m" and "distinct ks" and "set ks \<subseteq> fst ` set m"
    and "maxPacketProtoCache div 2 < length m"
    and "length m \<le> maxPacketProtoCache div 2 + length ks"
  shows "length (evict ks m) = maxPacketProtoCache div 2"
  using assms
proof (induction ks arbitrary: m)
  case (Cons k ks)
  let ?m = "AList.delete k m"
  have l: "Suc (length ?m) = length m" using Cons.prems by (intro length_delete) auto
  show ?case
  proof (cases "length ?m \<le> maxPacketProtoCache div 2")
    case True
    with l Cons.prems(4) show ?thesis by simp
  next
    case False
    have "set ks \<subseteq> fst ` set ?m"
      using Cons.prems(2,3) by (fastforce simp: set_delete_conv image_iff)
    with False l Cons.prems show ?thesis by (simp add: Cons.IH)
  qed
qed simp

lemma length_update_le: "length (AList.update k v m) \<le> Suc (length m)"
  by (induction m) auto

lemma evict_all_keys:
  assumes "webenv_ok W" and "gomap_ok m" and "maxPacketProtoCache < length m"
  shows "length (evict (w_evict_order W (map fst m)) m) = maxPacketProtoCache div 2"
proof -
  let ?ks = "w_evict_order W (map fst m)"
  have e: "mset ?ks = mset (map fst m)" using assms(1) by (simp add: webenv_ok_def)
  have "distinct ?ks" using assms(2) e by (metis gomap_ok_def mset_eq_imp_distinct_iff)
  moreover have "set ?ks = fst ` set m" using e by (metis set_mset_mset set_map)
  moreover have "length ?ks = length m" using e by (metis length_map size_mset)
  ultimately show ?thesis
    using assms(2,3) by (intro length_evict) (auto simp: maxPacketProtoCache_def)
qed

lemma hub_ok_cachePacketProto:
  assumes "webenv_ok W" and "hub_ok h"
  shows "hub_ok (cachePacketProto W pkt h)"
proof -
  have "hub_ok (h\<lparr>h_packetProtos := m\<rparr>)" if "gomap_ok m" "length m \<le> maxPacketProtoCache" for m
    using assms(2) that by (simp add: hub_ok_def)
  moreover have "gomap_ok (h_packetProtos h)" using assms(2) by (simp add: hub_ok_def)
  ultimately show ?thesis
    using assms evict_all_keys [OF assms(1)]
    by (auto simp: cachePacketProto_def Let_def gomap_ok_evict not_less maxPacketProtoCache_def
        split: option.split)
qed


section \<open>The effect of recording a chat message\<close>

text \<open>An entry without the JSON text that a repetition may fill in later.\<close>

definition strip_json :: "ChatMessage \<Rightarrow> ChatMessage" where
  "strip_json m = m\<lparr>cm_ProtoJSON := ''''\<rparr>"

lemma strip_json_idem [simp]: "strip_json (m\<lparr>cm_ProtoJSON := s\<rparr>) = strip_json m"
  by (simp add: strip_json_def)

lemma keep_last_map: "map f (keep_last n xs) = keep_last n (map f xs)"
  by (simp add: keep_last_drop drop_map)

lemma RecordChat_new:
  assumes "find_duplicate (complete_chat now msg h) h = None"
  shows "RecordChat now msg h = notifyChat (complete_chat now msg h) (store_chat (complete_chat now msg h) h)"
  using assms by (simp add: RecordChat_def Let_def mergeDuplicateChat_def isDuplicateChat_def)

lemma RecordChat_old:
  assumes "find_duplicate (complete_chat now msg h) h = Some i" and "i < length (h_chats h)"
  shows "map strip_json (h_chats (RecordChat now msg h)) = map strip_json (h_chats h)"
proof -
  have upd: "map strip_json ((h_chats h)[i := (h_chats h ! i)\<lparr>cm_ProtoJSON := s\<rparr>]) = map strip_json (h_chats h)" for s
    using assms(2) by (simp add: map_update list_update_same_conv)
  have upd2: "map strip_json ((h_chats h)[i := (h_chats h ! i)\<lparr>cm_ProtoJSON := s, cm_ProtoJSON := t\<rparr>]) =
      map strip_json (h_chats h)" for s t
    using assms(2) by (simp add: map_update list_update_same_conv)
  show ?thesis
    using assms(1) upd upd2
    by (auto simp: RecordChat_def Let_def mergeDuplicateChat_def isDuplicateChat_def notifyChat_def)
qed

definition repeats :: "ChatMessage \<Rightarrow> hub \<Rightarrow> bool" where
  "repeats m h \<longleftrightarrow>
     (\<exists>i < length (h_chats h). length (h_chats h) \<le> i + 8 \<and> duplicate_of m (h_chats h ! i))"

lemma find_duplicate_iff: "find_duplicate m h = None \<longleftrightarrow> \<not> repeats m h"
proof (cases "find_duplicate m h")
  case None
  then show ?thesis using scan_back_None [OF None [unfolded find_duplicate_def]] by (auto simp: repeats_def)
next
  case (Some i)
  then show ?thesis using scan_back_Some [OF Some [unfolded find_duplicate_def]] by (auto simp: repeats_def)
qed

lemma RecordChat_strip:
  "map strip_json (h_chats (RecordChat now msg h)) =
    (if \<exists>i < length (h_chats h). length (h_chats h) \<le> i + 8 \<and>
          duplicate_of (complete_chat now msg h) (h_chats h ! i)
     then map strip_json (h_chats h)
     else keep_last (h_maxChat h) (map strip_json (h_chats h) @ [strip_json (complete_chat now msg h)]))"
proof (cases "find_duplicate (complete_chat now msg h) h")
  case None
  have "map strip_json (h_chats (RecordChat now msg h)) =
      keep_last (h_maxChat h) (map strip_json (h_chats h) @ [strip_json (complete_chat now msg h)])"
    by (simp add: RecordChat_new [OF None] notifyChat_def store_chat_def keep_last_map)
  with None [unfolded find_duplicate_iff repeats_def] show ?thesis by (simp only: if_False)
next
  case (Some i)
  from scan_back_Some [OF Some [unfolded find_duplicate_def]] have "i < length (h_chats h)" by simp
  from RecordChat_old [OF Some this] Some find_duplicate_iff [of "complete_chat now msg h" h]
  have "repeats (complete_chat now msg h) h"
    and "map strip_json (h_chats (RecordChat now msg h)) = map strip_json (h_chats h)"
    by auto
  then show ?thesis unfolding repeats_def by (simp only: if_True)
qed

end
