(* ===== verification/Observer.thy ===== *)
theory Observer
  imports HubInv
begin

text \<open>
  The observer of the web UI (\<open>internal/webui/observer.go\<close>, the labels of \<open>proto.go\<close>,
  \<open>SendChat\<close> and \<open>FetchCanned\<close> through the hub): every frame the broker handles is
  turned into an event, and into updates of the channel table, the node table, the
  packet texts and the chat history. The calls the broker queues in \<open>b_hub\<close> are
  applied here. The radio's own number, which the observer asks of the broker, is an
  argument.
\<close>

section \<open>Labels\<close>

text \<open>The verb \<open>%T\<close> on the wrapper types that have no label of their own.\<close>

fun FromRadio_type_name :: "FromRadio_PayloadVariant \<Rightarrow> string" where
  "FromRadio_type_name (FromRadio_Packet _) = ''*generated.FromRadio_Packet''"
| "FromRadio_type_name (FromRadio_MyInfo _) = ''*generated.FromRadio_MyInfo''"
| "FromRadio_type_name (FromRadio_NodeInfo _) = ''*generated.FromRadio_NodeInfo''"
| "FromRadio_type_name (FromRadio_Config _) = ''*generated.FromRadio_Config''"
| "FromRadio_type_name (FromRadio_LogRecord _) = ''*generated.FromRadio_LogRecord''"
| "FromRadio_type_name (FromRadio_ConfigCompleteId _) = ''*generated.FromRadio_ConfigCompleteId''"
| "FromRadio_type_name (FromRadio_Rebooted _) = ''*generated.FromRadio_Rebooted''"
| "FromRadio_type_name (FromRadio_ModuleConfig _) = ''*generated.FromRadio_ModuleConfig''"
| "FromRadio_type_name (FromRadio_Channel _) = ''*generated.FromRadio_Channel''"
| "FromRadio_type_name (FromRadio_QueueStatus _) = ''*generated.FromRadio_QueueStatus''"
| "FromRadio_type_name (FromRadio_XmodemPacket _) = ''*generated.FromRadio_XmodemPacket''"
| "FromRadio_type_name (FromRadio_Metadata _) = ''*generated.FromRadio_Metadata''"
| "FromRadio_type_name (FromRadio_MqttClientProxyMessage _) =
     ''*generated.FromRadio_MqttClientProxyMessage''"
| "FromRadio_type_name (FromRadio_FileInfo _) = ''*generated.FromRadio_FileInfo''"
| "FromRadio_type_name (FromRadio_ClientNotification _) = ''*generated.FromRadio_ClientNotification''"
| "FromRadio_type_name (FromRadio_DeviceuiConfig _) = ''*generated.FromRadio_DeviceuiConfig''"
| "FromRadio_type_name (FromRadio_LockdownStatus _) = ''*generated.FromRadio_LockdownStatus''"

fun ToRadio_type_name :: "ToRadio_PayloadVariant \<Rightarrow> string" where
  "ToRadio_type_name (ToRadio_Packet _) = ''*generated.ToRadio_Packet''"
| "ToRadio_type_name (ToRadio_WantConfigId _) = ''*generated.ToRadio_WantConfigId''"
| "ToRadio_type_name (ToRadio_Disconnect _) = ''*generated.ToRadio_Disconnect''"
| "ToRadio_type_name (ToRadio_XmodemPacket _) = ''*generated.ToRadio_XmodemPacket''"
| "ToRadio_type_name (ToRadio_MqttClientProxyMessage _) = ''*generated.ToRadio_MqttClientProxyMessage''"
| "ToRadio_type_name (ToRadio_Heartbeat _) = ''*generated.ToRadio_Heartbeat''"

definition webui_protoVariantLabel :: "FromRadio \<Rightarrow> string" where
  "webui_protoVariantLabel frame =
     (case FromRadio_Variant frame of
        Some (FromRadio_ConfigCompleteId i) \<Rightarrow> ''ConfigCompleteId=0x'' @ hex_u32 i
      | Some (FromRadio_Rebooted r) \<Rightarrow> ''rebooted='' @ show_bool r
      | Some (FromRadio_Packet p) \<Rightarrow> packet_label p
      | Some (FromRadio_Channel c) \<Rightarrow>
          (case c of Some ch \<Rightarrow> ''Channel index='' @ Itoa (sint (Channel_Index ch))
           | None \<Rightarrow> ''Channel'')
      | Some (FromRadio_Config _) \<Rightarrow> ''Config''
      | Some (FromRadio_ModuleConfig _) \<Rightarrow> ''ModuleConfig''
      | Some (FromRadio_MyInfo _) \<Rightarrow> ''MyInfo''
      | Some (FromRadio_NodeInfo _) \<Rightarrow> ''NodeInfo''
      | Some v \<Rightarrow> FromRadio_type_name v
      | None \<Rightarrow> '''')"

definition protoVariantLabelTo :: "ToRadio \<Rightarrow> string" where
  "protoVariantLabelTo frame =
     (case ToRadio_Variant frame of
        Some (ToRadio_WantConfigId i) \<Rightarrow> ''WantConfigId=0x'' @ hex_u32 i
      | Some (ToRadio_Disconnect _) \<Rightarrow> ''Disconnect''
      | Some (ToRadio_Packet p) \<Rightarrow> packet_label p
      | Some v \<Rightarrow> ToRadio_type_name v
      | None \<Rightarrow> '''')"

definition isTextPort :: "PortNum \<Rightarrow> bool" where
  "isTextPort p \<longleftrightarrow>
     p \<in> {PortNum_TEXT_MESSAGE_APP, PortNum_REPLY_APP, PortNum_DETECTION_SENSOR_APP, PortNum_ALERT_APP}"

definition packetSummary :: "'a names_scheme \<Rightarrow> Data \<Rightarrow> string" where
  "packetSummary N d =
     (let port = nm_PortNum N (Data_Portnum d) in
      if Data_Payload d = [] then port
      else if isTextPort (Data_Portnum d) \<and> isUTF8 (Data_Payload d)
      then port @ '': '' @ string_of_bytes (Data_Payload d)
      else port)"

section \<open>Observing a frame\<close>

definition new_event :: "string \<Rightarrow> string \<Rightarrow> string \<Rightarrow> string \<Rightarrow> Event" where
  "new_event direction addr variant json =
     \<lparr>ev_Time = None, ev_Direction = direction, ev_Addr = addr, ev_Variant = variant,
      ev_Category = '''', ev_ChannelIndex = None, ev_ChannelName = '''', ev_Summary = '''',
      ev_JSON = json\<rparr>"

definition enrichPacketEvent ::
  "'a webenv_scheme \<Rightarrow> int \<Rightarrow> Event \<Rightarrow> MeshPacket option \<Rightarrow> hub \<Rightarrow> Event \<times> hub" where
  "enrichPacketEvent W now ev pkt h =
     (case pkt of
        None \<Rightarrow> (ev, h)
      | Some _ \<Rightarrow>
          let idx = MeshPacket_GetChannel pkt;
              ev1 = ev\<lparr>ev_ChannelIndex := Some idx, ev_ChannelName := channel_name idx h (ev_ChannelName ev)\<rparr>;
              ev2 = (case MeshPacket_GetDecoded pkt of
                       Some d \<Rightarrow> ev1\<lparr>ev_Summary := packetSummary W d\<rparr> | None \<Rightarrow> ev1);
              at = (case ev_Time ev2 of Some t \<Rightarrow> t | None \<Rightarrow> now)
          in (ev2, touchNodeActivity now (MeshPacket_GetFrom pkt) (MeshPacket_GetRxSnr pkt) at h))"

definition tryRecordChatPacket ::
  "'a webenv_scheme \<Rightarrow> int \<Rightarrow> u32 \<Rightarrow> MeshPacket option \<Rightarrow> hub \<Rightarrow> hub" where
  "tryRecordChatPacket W now localNode pkt h =
     (if pkt = None then h else TryRecordChatFromPacket W now pkt localNode h)"

definition observe_packet ::
  "'a webenv_scheme \<Rightarrow> int \<Rightarrow> u32 \<Rightarrow> Event \<Rightarrow> MeshPacket option \<Rightarrow> hub \<Rightarrow> Event \<times> hub" where
  "observe_packet W now localNode ev pkt h =
     (case enrichPacketEvent W now (ev\<lparr>ev_Category := ''packet''\<rparr>) pkt h of
        (ev1, h1) \<Rightarrow> (ev1, tryRecordChatPacket W now localNode pkt (cachePacketProto W pkt h1)))"

definition observeFromRadio ::
  "'a webenv_scheme \<Rightarrow> int \<Rightarrow> u32 \<Rightarrow> string \<Rightarrow> string \<Rightarrow> FromRadio \<Rightarrow> hub \<Rightarrow> hub" where
  "observeFromRadio W now localNode direction addr frame h =
     (let ev = new_event direction addr (webui_protoVariantLabel frame)
                 (marshalProtoJSON (w_json_FromRadio W frame))
      in case (case FromRadio_Variant frame of
          Some (FromRadio_Channel (Some ch)) \<Rightarrow>
            let name = (case Channel_Settings ch of Some s \<Rightarrow> ChannelSettings_Name s | None \<Rightarrow> '''');
                role = nm_ChannelRole W (Channel_Role ch)
            in (ev\<lparr>ev_Category := ''channel'', ev_ChannelIndex := Some (Channel_Index ch),
                  ev_ChannelName := name, ev_Summary := ''channel definition''\<rparr>,
                UpdateChannel now (Channel_Index ch) name role h)
        | Some (FromRadio_Channel None) \<Rightarrow> (ev, h)
        | Some (FromRadio_Packet pkt) \<Rightarrow> observe_packet W now localNode ev pkt h
        | Some (FromRadio_NodeInfo (Some ni)) \<Rightarrow>
            (ev\<lparr>ev_Category := ''config'', ev_Summary := nodeInfoSummary (Some ni)\<rparr>,
             UpdateNodeFromInfo W now (Some ni) h)
        | Some (FromRadio_NodeInfo None) \<Rightarrow> (ev, h)
        | Some (FromRadio_MyInfo (Some mi)) \<Rightarrow>
            (ev\<lparr>ev_Category := ''config'', ev_Summary := ''MyInfo''\<rparr>,
             SetLocalNodeNum now (MyNodeInfo_MyNodeNum mi) h)
        | Some (FromRadio_MyInfo None) \<Rightarrow> (ev, h)
        | Some (FromRadio_Config _) \<Rightarrow> (ev\<lparr>ev_Category := ''config''\<rparr>, h)
        | Some (FromRadio_ModuleConfig _) \<Rightarrow> (ev\<lparr>ev_Category := ''config''\<rparr>, h)
        | Some (FromRadio_ConfigCompleteId _) \<Rightarrow> (ev\<lparr>ev_Category := ''config''\<rparr>, h)
        | Some (FromRadio_Metadata _) \<Rightarrow> (ev\<lparr>ev_Category := ''config''\<rparr>, h)
        | Some (FromRadio_DeviceuiConfig _) \<Rightarrow> (ev\<lparr>ev_Category := ''config''\<rparr>, h)
        | _ \<Rightarrow> (ev\<lparr>ev_Category := ''debug''\<rparr>, h))
        of (ev1, h1) \<Rightarrow> Record now ev1 h1)"

definition observeToRadio ::
  "'a webenv_scheme \<Rightarrow> int \<Rightarrow> u32 \<Rightarrow> string \<Rightarrow> string \<Rightarrow> ToRadio \<Rightarrow> hub \<Rightarrow> hub" where
  "observeToRadio W now localNode direction addr frame h =
     (let ev = new_event direction addr (protoVariantLabelTo frame)
                 (marshalProtoJSON (w_json_ToRadio W frame))
      in case (case ToRadio_Variant frame of
          Some (ToRadio_Packet pkt) \<Rightarrow> observe_packet W now localNode ev pkt h
        | Some (ToRadio_WantConfigId _) \<Rightarrow>
            (ev\<lparr>ev_Category := ''config'', ev_Summary := ''WantConfigId''\<rparr>, h)
        | _ \<Rightarrow> (ev\<lparr>ev_Category := ''debug''\<rparr>, h))
        of (ev1, h1) \<Rightarrow> Record now ev1 h1)"

definition ObservePayload ::
  "'a webenv_scheme \<Rightarrow> 'b codec_scheme \<Rightarrow> int \<Rightarrow> u32 \<Rightarrow> string \<Rightarrow> string \<Rightarrow> bytes \<Rightarrow> bool \<Rightarrow> hub \<Rightarrow> hub" where
  "ObservePayload W E now localNode direction addr payload fromRadio h =
     (if payload = [] then h
      else if fromRadio then
        (case unmarshal_FromRadio E payload of
           None \<Rightarrow> h | Some frame \<Rightarrow> observeFromRadio W now localNode direction addr frame h)
      else
        (case unmarshal_ToRadio E payload of
           None \<Rightarrow> h | Some frame \<Rightarrow> observeToRadio W now localNode direction addr frame h))"

text \<open>The calls of the broker, in the order it made them.\<close>

fun hub_apply :: "'a webenv_scheme \<Rightarrow> 'b codec_scheme \<Rightarrow> int \<Rightarrow> u32 \<Rightarrow> hub_call \<Rightarrow> hub \<Rightarrow> hub" where
  "hub_apply W E now localNode (HubObserve direction addr payload fromRadio) h =
     ObservePayload W E now localNode direction addr payload fromRadio h"
| "hub_apply W E now localNode (HubStatus st) h = SetStatus now st h"

section \<open>The invariant\<close>

lemma hub_ok_observe_packet:
  assumes "webenv_ok W" and "hub_ok h"
  shows "hub_ok (snd (observe_packet W now l ev pkt h))"
  using assms
  by (auto simp: observe_packet_def enrichPacketEvent_def tryRecordChatPacket_def Let_def
      intro!: hub_ok_TryRecord hub_ok_cachePacketProto hub_ok_touchNodeActivity split: option.split)

lemma hub_ok_observeFromRadio:
  assumes "webenv_ok W" and "hub_ok h"
  shows "hub_ok (observeFromRadio W now l direction addr frame h)"
proof -
  have "hub_ok h1" if "observe_packet W now l ev pkt h = (ev1, h1)" for ev pkt ev1 h1
    using hub_ok_observe_packet [OF assms, of now l ev pkt] that by simp
  then show ?thesis
    using assms(2) unfolding observeFromRadio_def Let_def
    by (auto intro!: hub_ok_Record intro: hub_ok_UpdateChannel hub_ok_UpdateNodeFromInfo
        hub_ok_SetLocalNodeNum split: prod.split option.splits FromRadio_PayloadVariant.splits)
qed

lemma hub_ok_observeToRadio:
  assumes "webenv_ok W" and "hub_ok h"
  shows "hub_ok (observeToRadio W now l direction addr frame h)"
proof -
  have "hub_ok h1" if "observe_packet W now l ev pkt h = (ev1, h1)" for ev pkt ev1 h1
    using hub_ok_observe_packet [OF assms, of now l ev pkt] that by simp
  then show ?thesis
    using assms(2) unfolding observeToRadio_def Let_def
    by (auto intro!: hub_ok_Record split: prod.split option.splits ToRadio_PayloadVariant.splits)
qed

lemma hub_ok_ObservePayload:
  "webenv_ok W \<Longrightarrow> hub_ok h \<Longrightarrow> hub_ok (ObservePayload W E now l direction addr payload fr h)"
  by (simp add: ObservePayload_def hub_ok_observeFromRadio hub_ok_observeToRadio split: option.split)

lemma hub_ok_apply: "webenv_ok W \<Longrightarrow> hub_ok h \<Longrightarrow> hub_ok (hub_apply W E now l c h)"
  by (cases c) (simp_all add: hub_ok_ObservePayload hub_ok_SetStatus)

end
