(* ===== verification/WebChat.thy ===== *)
theory WebChat
  imports Observer Sample
begin

text \<open>
  The hub's calls into the radio (\<open>SetRadioProvider\<close>, \<open>radio\<close>, \<open>SendChat\<close>, \<open>FetchCanned\<close>
  of \<open>internal/webui/chat.go\<close> and \<open>canned.go\<close>) and the broker's calls into the hub, put
  together. The provider that \<open>internal/server\<close> installs returns the current broker as an
  interface value, also when there is none: then the interface is not nil but holds a nil
  pointer, the test for nil does not see it, and the method call panics. The type
  \<open>radio_ref\<close> keeps the two kinds of nil apart.
\<close>

section \<open>The radio of the hub\<close>

datatype radio_ref = NilRadio | RadioOf "broker option"

text \<open>\<^term>\<open>provider\<close>: a broker has been installed at least once.\<close>

definition radio :: "bool \<Rightarrow> broker option \<Rightarrow> radio_ref" where
  "radio provider current = (if provider then RadioOf current else NilRadio)"

text \<open>The outcome of a call: a value, a panic, or still drawing random numbers.\<close>

datatype 'a call = Returned 'a | Panicked | Drawing

text \<open>The argument \<open>local\<close> of \<open>tryRecordChatPacket\<close>.\<close>

definition radio_local :: "'b env_scheme \<Rightarrow> radio_ref \<Rightarrow> u32 call" where
  "radio_local E r =
     (case r of
        NilRadio \<Rightarrow> Returned 0
      | RadioOf None \<Rightarrow> Panicked
      | RadioOf (Some b) \<Rightarrow> Returned (fst (LocalNodeNum E b)))"

text \<open>A call of the broker asks the radio exactly when the frame it shows carries a packet.\<close>

definition asks_radio :: "'b env_scheme \<Rightarrow> hub_call \<Rightarrow> bool" where
  "asks_radio E c =
     (case c of
        HubStatus _ \<Rightarrow> False
      | HubObserve direction addr payload fromRadio \<Rightarrow>
          payload \<noteq> [] \<and>
          (if fromRadio then
             (case unmarshal_FromRadio E payload of
                Some frame \<Rightarrow>
                  (case FromRadio_Variant frame of Some (FromRadio_Packet (Some _)) \<Rightarrow> True | _ \<Rightarrow> False)
              | None \<Rightarrow> False)
           else
             (case unmarshal_ToRadio E payload of
                Some frame \<Rightarrow>
                  (case ToRadio_Variant frame of Some (ToRadio_Packet (Some _)) \<Rightarrow> True | _ \<Rightarrow> False)
              | None \<Rightarrow> False)))"

definition hub_call_run ::
  "webenv \<Rightarrow> 'b env_scheme \<Rightarrow> int \<Rightarrow> radio_ref \<Rightarrow> hub_call \<Rightarrow> hub \<Rightarrow> hub call" where
  "hub_call_run W E now r c h =
     (if asks_radio E c then
        (case radio_local E r of
           Returned l \<Rightarrow> Returned (hub_apply W E now l c h)
         | Panicked \<Rightarrow> Panicked
         | Drawing \<Rightarrow> Drawing)
      else Returned (hub_apply W E now 0 c h))"

text \<open>Frames without a packet are observed without the radio's number.\<close>

lemma observeFromRadio_local:
  assumes "\<not> (case FromRadio_Variant frame of Some (FromRadio_Packet (Some _)) \<Rightarrow> True | _ \<Rightarrow> False)"
  shows "observeFromRadio W now l d a frame h = observeFromRadio W now l' d a frame h"
proof (cases "FromRadio_Variant frame")
  case (Some v)
  then show ?thesis using assms
    by (cases v) (auto simp: observeFromRadio_def observe_packet_def tryRecordChatPacket_def
        split: option.splits)
qed (simp add: observeFromRadio_def)

lemma observeToRadio_local:
  assumes "\<not> (case ToRadio_Variant frame of Some (ToRadio_Packet (Some _)) \<Rightarrow> True | _ \<Rightarrow> False)"
  shows "observeToRadio W now l d a frame h = observeToRadio W now l' d a frame h"
proof (cases "ToRadio_Variant frame")
  case (Some v)
  then show ?thesis using assms
    by (cases v) (auto simp: observeToRadio_def observe_packet_def tryRecordChatPacket_def
        split: option.splits)
qed (simp add: observeToRadio_def)

lemma hub_apply_local:
  assumes "\<not> asks_radio E c"
  shows "hub_apply W E now l c h = hub_apply W E now l' c h"
proof (cases c)
  case (HubObserve d a p fr)
  show ?thesis
  proof (cases fr)
    case True
    with assms HubObserve show ?thesis
      by (cases "unmarshal_FromRadio E p")
        (auto simp: asks_radio_def ObservePayload_def intro!: observeFromRadio_local)
  next
    case False
    with assms HubObserve show ?thesis
      by (cases "unmarshal_ToRadio E p")
        (auto simp: asks_radio_def ObservePayload_def intro!: observeToRadio_local)
  qed
qed simp

lemma hub_call_run_current:
  "hub_call_run W E now (RadioOf (Some b)) c h = Returned (hub_apply W E now (fst (LocalNodeNum E b)) c h)"
  by (cases "asks_radio E c")
    (simp_all add: hub_call_run_def radio_local_def hub_apply_local [of E c W now 0 h "fst (LocalNodeNum E b)"])

text \<open>The calls a broker operation makes, in their order.\<close>

definition new_calls :: "broker \<Rightarrow> broker \<Rightarrow> hub_call list" where
  "new_calls b b' = drop (length (b_hub b)) (b_hub b')"

definition hub_calls :: "webenv \<Rightarrow> 'b env_scheme \<Rightarrow> broker \<Rightarrow> hub_call list \<Rightarrow> hub \<Rightarrow> hub" where
  "hub_calls W E b cs h = fold (hub_apply W E (b_now b) (fst (LocalNodeNum E b))) cs h"

section \<open>Sending from the web UI\<close>

definition sent_chat ::
  "webenv \<Rightarrow> int \<Rightarrow> u32 \<Rightarrow> u32 \<Rightarrow> i32 \<Rightarrow> u32 \<Rightarrow> string \<Rightarrow> hub \<Rightarrow> ChatMessage" where
  "sent_chat W now from to channel pktID text h =
     \<lparr>cm_Time = Some now, cm_Text = text, cm_From = from, cm_To = to, cm_Channel = channel,
      cm_ChannelName = channel_name channel h '''', cm_Outgoing = True, cm_PacketID = pktID,
      cm_ProtoJSON = chatMeshPacketJSON W from to channel pktID text\<rparr>"

definition SendChat ::
  "webenv \<Rightarrow> 'b env_scheme \<Rightarrow> i32 \<Rightarrow> u32 \<Rightarrow> string \<Rightarrow> radio_ref \<Rightarrow> hub \<Rightarrow>
     ((go_error + ChatMessage) \<times> radio_ref \<times> hub) call" where
  "SendChat W E channel to text r h =
     (case r of
        NilRadio \<Rightarrow> Returned (Inl ErrRadioNotConnected, r, h)
      | RadioOf None \<Rightarrow> Panicked
      | RadioOf (Some b) \<Rightarrow>
          let text = TrimSpace text in
          (case SendTextMessage E channel to text b of
             None \<Rightarrow> Drawing
           | Some (res, b1) \<Rightarrow>
               let h1 = hub_calls W E b1 (new_calls b b1) h in
               (case res of
                  Inl err \<Rightarrow> Returned (Inl err, RadioOf (Some b1), h1)
                | Inr pktID \<Rightarrow>
                    let msg = sent_chat W (b_now b1) (fst (LocalNodeNum E b1)) to channel pktID text h1
                    in Returned (Inr msg, RadioOf (Some b1), RecordChat (b_now b1) msg h1))))"

text \<open>\<open>FetchCanned\<close> up to the \<open>select\<close> of the broker's fetch.\<close>

definition FetchCanned ::
  "webenv \<Rightarrow> 'b env_scheme \<Rightarrow> radio_ref \<Rightarrow> hub \<Rightarrow> (fetch_state \<times> radio_ref \<times> hub) call" where
  "FetchCanned W E r h =
     (case r of
        NilRadio \<Rightarrow> Returned (FetchDone (Inl ErrRadioNotConnected), r, h)
      | RadioOf None \<Rightarrow> Panicked
      | RadioOf (Some b) \<Rightarrow>
          (case FetchCanned_begin E b of
             None \<Rightarrow> Drawing
           | Some (st, b1) \<Rightarrow>
               Returned (st, RadioOf (Some b1), hub_calls W E b1 (new_calls b b1) h)))"

section \<open>Which calls a text message makes\<close>

definition shows_packet :: "'b env_scheme \<Rightarrow> MeshPacket \<Rightarrow> hub_call \<Rightarrow> bool" where
  "shows_packet E pkt c =
     (case c of
        HubStatus _ \<Rightarrow> True
      | HubObserve direction addr payload fromRadio \<Rightarrow>
          if fromRadio then unmarshal_FromRadio E payload = Some (mk_FromRadio (FromRadio_Packet (Some pkt)))
          else unmarshal_ToRadio E payload = Some (mk_ToRadio (ToRadio_Packet (Some pkt))))"

definition calls_only :: "(hub_call \<Rightarrow> bool) \<Rightarrow> broker \<Rightarrow> broker \<Rightarrow> bool" where
  "calls_only P b b' \<longleftrightarrow>
     (\<exists>cs. b_hub b' = b_hub b @ cs \<and> list_all P cs) \<and> b_now b' = b_now b \<and> b_cache b' = b_cache b"

lemma calls_only_refl [simp]: "calls_only P b b"
  by (simp add: calls_only_def)

lemma calls_only_trans: "calls_only P a b \<Longrightarrow> calls_only P b c \<Longrightarrow> calls_only P a c"
  by (force simp: calls_only_def)

lemma calls_only_log:
  assumes "kind = payloadFromRadio \<longrightarrow> P (HubObserve d a p True)"
    and "kind = payloadToRadio \<longrightarrow> P (HubObserve d a p False)"
  shows "calls_only P b (logDecodedPayload d a p kind b)"
  using assms by (cases kind) (auto simp: calls_only_def logDecodedPayload_def)

lemma calls_only_remove:
  assumes "\<And>st. P (HubStatus st)"
  shows "calls_only P b (removeClient E cl b)"
  using assms
  by (auto simp: calls_only_def removeClient_def Let_def PublishStatus_def dropPendingForClient_def
      set_client_def)

lemma calls_only_send:
  assumes "\<And>st. P (HubStatus st)" and "\<And>a. P (HubObserve ''broker -> client'' a p True)"
  shows "calls_only P b (sendToClient E cl p b)"
proof -
  have set: "calls_only P b (set_client cl c b)" for c by (simp add: calls_only_def set_client_def)
  have log: "calls_only P x (logDecodedPayload ''broker -> client'' a p payloadFromRadio x)" for a x
    using assms(2) by (intro calls_only_log) auto
  show ?thesis
    using calls_only_trans [OF set log] calls_only_trans [OF set calls_only_remove [where P = P, OF assms(1)]]
    by (auto simp: sendToClient_def disconnectSlowClient_def split: prod.split bool.split)
qed

lemma calls_only_broadcast:
  assumes "\<And>st. P (HubStatus st)" and "\<And>a. P (HubObserve ''broker -> client'' a p True)"
  shows "calls_only P b (broadcast E p b)"
proof -
  have "calls_only P b (send_each E p except cls b)" for except cls
    by (induction cls arbitrary: b)
      (auto intro: calls_only_trans [OF calls_only_send [where P = P, OF assms]])
  then show ?thesis by (simp add: broadcast_def broadcastExcept_def)
qed

lemma calls_only_forward:
  assumes "\<And>w. marshal_ToRadio E t = Some w \<Longrightarrow> P (HubObserve ''broker -> serial'' '''' w False)"
  shows "calls_only P b (snd (forwardToSerial E t b))"
  using assms
  by (auto simp: forwardToSerial_def writeSerial_def Let_def calls_only_def logDecodedPayload_def
      split: option.split prod.split)

lemma SendText_calls:
  assumes "SendTextMessage E ch dest input b = Some (Inr pktID, b')"
    and "pkt = text_packet (fst (LocalNodeNum E b)) dest ch pktID (TrimSpace input)"
    and "\<And>w. marshal_ToRadio E (mk_ToRadio (ToRadio_Packet (Some pkt))) = Some w \<Longrightarrow>
      unmarshal_ToRadio E w = Some (mk_ToRadio (ToRadio_Packet (Some pkt)))"
    and "\<And>d. marshal_FromRadio E (mk_FromRadio (FromRadio_Packet (Some pkt))) = Some d \<Longrightarrow>
      unmarshal_FromRadio E d = Some (mk_FromRadio (FromRadio_Packet (Some pkt)))"
  shows "calls_only (shows_packet E pkt) b b' \<and> pktID \<noteq> 0 \<and> snd (LocalNodeNum E b) \<and> TrimSpace input \<noteq> ''''"
proof -
  obtain src ok where l: "LocalNodeNum E b = (src, ok)" by fastforce
  from assms(1) l obtain b1 b2 where ok: "ok" "TrimSpace input \<noteq> ''''"
    and n: "nextPacketID b = Some (pktID, b1)"
    and f: "forwardToSerial E (mk_ToRadio (ToRadio_Packet (Some pkt))) b1 = (None, b2)"
    and b': "b' = (case marshal_FromRadio E (mk_FromRadio (FromRadio_Packet (Some pkt))) of
        None \<Rightarrow> b2 | Some data \<Rightarrow> broadcast E data b2)"
    by (auto simp: SendTextMessage_def Let_def assms(2) split: if_splits option.splits prod.splits)
  from n have c1: "calls_only (shows_packet E pkt) b b1" and nz: "pktID \<noteq> 0"
    by (auto simp: nextPacketID_def calls_only_def split: list.splits rand_draw.splits if_splits)
  have c2: "calls_only (shows_packet E pkt) b1 b2"
    using calls_only_forward [of E "mk_ToRadio (ToRadio_Packet (Some pkt))" "shows_packet E pkt" b1]
      assms(3) f by (simp add: shows_packet_def)
  have c3: "calls_only (shows_packet E pkt) b2 b'"
    unfolding b' using assms(4)
    by (auto split: option.split intro!: calls_only_broadcast simp: shows_packet_def)
  from calls_only_trans [OF calls_only_trans [OF c1 c2] c3] nz ok l show ?thesis by simp
qed

section \<open>Their effect on the chat history\<close>

lemma duplicate_strip [simp]: "duplicate_of (strip_json m) c = duplicate_of m c"
  "duplicate_of m (strip_json c) = duplicate_of m c"
  by (simp_all add: duplicate_of_def strip_json_def)

lemma strip_id: "strip_json a = strip_json b \<Longrightarrow> cm_PacketID a = cm_PacketID b"
  by (drule arg_cong [where f = cm_PacketID]) (simp add: strip_json_def)

lemma keep_last_snoc: "0 < n \<Longrightarrow> keep_last n (xs @ [x]) = keep_last (n - 1) xs @ [x]"
  by (cases n) (simp_all add: keep_last_drop)

lemma repeats_strip:
  "repeats m h \<longleftrightarrow> (\<exists>i < length (h_chats h). length (h_chats h) \<le> i + 8 \<and>
     duplicate_of m (map strip_json (h_chats h) ! i))"
  by (auto simp: repeats_def)

lemma repeats_cong:
  assumes "map strip_json (h_chats h) = map strip_json (h_chats h')" and "strip_json m = strip_json m'"
  shows "repeats m h = repeats m' h'"
proof -
  have "length (h_chats h) = length (h_chats h')" using assms(1) by (metis length_map)
  moreover have "duplicate_of m c = duplicate_of m' c" for c using assms(2) by (metis duplicate_strip(1))
  ultimately show ?thesis using assms(1) by (simp add: repeats_strip)
qed

text \<open>The histories in which at most \<^term>\<open>m\<close> has been added to that of \<^term>\<open>h0\<close>.\<close>

definition with_chat :: "hub \<Rightarrow> ChatMessage \<Rightarrow> ChatMessage list" where
  "with_chat h0 m = keep_last (h_maxChat h0) (map strip_json (h_chats h0) @ [strip_json m])"

definition at_most_added :: "hub \<Rightarrow> ChatMessage \<Rightarrow> hub \<Rightarrow> bool" where
  "at_most_added h0 m h \<longleftrightarrow>
     h_channels h = h_channels h0 \<and> h_maxChat h = h_maxChat h0 \<and>
     map strip_json (h_chats h) \<in> {map strip_json (h_chats h0), with_chat h0 m}"

lemma RecordChat_keeps [simp]:
  "h_channels (RecordChat now msg h) = h_channels h" "h_maxChat (RecordChat now msg h) = h_maxChat h"
  by (auto simp: RecordChat_def Let_def mergeDuplicateChat_def notifyChat_def store_chat_def
      split: option.split)

lemma record_adds:
  assumes "at_most_added h0 m h" and "strip_json (complete_chat now msg h) = strip_json m"
    and "\<not> repeats m h0" and "cm_PacketID m \<noteq> 0" and "0 < h_maxChat h0"
  shows "at_most_added h0 m (RecordChat now msg h) \<and>
    map strip_json (h_chats (RecordChat now msg h)) = with_chat h0 m"
proof (cases "map strip_json (h_chats h) = with_chat h0 m")
  case True
  have w: "with_chat h0 m = keep_last (h_maxChat h0 - 1) (map strip_json (h_chats h0)) @ [strip_json m]"
    using assms(5) by (simp add: with_chat_def keep_last_snoc)
  have ne: "h_chats h \<noteq> []" using True by (auto simp: w)
  have "strip_json (last (h_chats h)) = strip_json m"
    using True ne by (metis last_map last_snoc w)
  then have "duplicate_of (complete_chat now msg h) (last (h_chats h))"
    using strip_id [OF assms(2)] strip_id [of "last (h_chats h)" m] assms(4)
    by (simp add: duplicate_of_def)
  then have "repeats (complete_chat now msg h) h"
    using ne by (auto simp: repeats_def last_conv_nth intro!: exI [of _ "length (h_chats h) - 1"])
  then show ?thesis using assms(1) True RecordChat_strip [of now msg h]
    by (simp add: at_most_added_def repeats_def)
next
  case False
  then have a: "map strip_json (h_chats h) = map strip_json (h_chats h0)"
    using assms(1) by (auto simp: at_most_added_def)
  have "\<not> repeats (complete_chat now msg h) h"
    using repeats_cong [OF a assms(2)] assms(3) by simp
  then have "map strip_json (h_chats (RecordChat now msg h)) = with_chat h0 m"
    using RecordChat_strip [of now msg h] assms(1,2) a
    unfolding repeats_def by (simp only: if_False with_chat_def at_most_added_def)
  then show ?thesis using assms(1) by (simp add: at_most_added_def)
qed

lemma at_most_added_same:
  "at_most_added h0 m h \<Longrightarrow> h_channels h' = h_channels h \<Longrightarrow> h_maxChat h' = h_maxChat h \<Longrightarrow>
     h_chats h' = h_chats h \<Longrightarrow> at_most_added h0 m h'"
  by (simp add: at_most_added_def)

lemma chat_frame [simp]:
  "h_channels (cachePacketProto W p h) = h_channels h" "h_maxChat (cachePacketProto W p h) = h_maxChat h"
  "h_chats (cachePacketProto W p h) = h_chats h"
  "h_channels (touchNodeActivity now num snr at h) = h_channels h"
  "h_maxChat (touchNodeActivity now num snr at h) = h_maxChat h"
  "h_chats (touchNodeActivity now num snr at h) = h_chats h"
  "h_channels (Record now ev h) = h_channels h" "h_maxChat (Record now ev h) = h_maxChat h"
  "h_chats (Record now ev h) = h_chats h"
  "h_channels (SetStatus now st h) = h_channels h" "h_maxChat (SetStatus now st h) = h_maxChat h"
  "h_chats (SetStatus now st h) = h_chats h"
  by (auto simp: cachePacketProto_def touchNodeActivity_def notifyNodes_def SetStatus_def Record_eq
      store_event_def Let_def split: option.split)

lemma bytes_of_string_Nil: "bytes_of_string s = [] \<longleftrightarrow> s = ''''"
  by (simp add: bytes_of_string_def)

lemma text_packet_fields:
  "MeshPacket_GetFrom (Some (text_packet l dest ch i body)) = l"
  "MeshPacket_GetTo (Some (text_packet l dest ch i body)) = dest"
  "MeshPacket_GetChannel (Some (text_packet l dest ch i body)) = ch"
  "MeshPacket_GetId (Some (text_packet l dest ch i body)) = i"
  "MeshPacket_GetDecoded (Some (text_packet l dest ch i body)) =
     Some (zero_Data\<lparr>Data_Portnum := PortNum_TEXT_MESSAGE_APP, Data_Payload := bytes_of_string body\<rparr>)"
  by (simp_all add: text_packet_def MeshPacket_GetFrom_def MeshPacket_GetTo_def
      MeshPacket_GetChannel_def MeshPacket_GetId_def MeshPacket_GetDecoded_def)

lemma observe_text:
  assumes "at_most_added h0 m h" and "m = sent_chat W now l dest ch pktID body h0"
    and "pkt = text_packet l dest ch pktID body" and "l \<noteq> 0" and "pktID \<noteq> 0"
    and "\<not> repeats m h0" and "0 < h_maxChat h0"
  shows "at_most_added h0 m (snd (observe_packet W now l ev (Some pkt) h))"
proof -
  let ?ep = "enrichPacketEvent W now (ev\<lparr>ev_Category := ''packet''\<rparr>) (Some pkt) h"
  let ?h = "cachePacketProto W (Some pkt) (snd ?ep)"
  have h: "at_most_added h0 m ?h"
    using assms(1) by (rule at_most_added_same) (simp_all add: enrichPacketEvent_def Let_def)
  have "at_most_added h0 m (TryRecordChatFromPacket W now (Some pkt) l ?h)"
  proof (cases "body \<noteq> '''' \<and> isUTF8 (bytes_of_string body)")
    case True
    let ?msg = "\<lparr>cm_Time = Some now, cm_Text = body, cm_From = l, cm_To = dest, cm_Channel = ch,
      cm_ChannelName = '''', cm_Outgoing = True, cm_PacketID = pktID,
      cm_ProtoJSON = protoJSONForPacket W (Some pkt) ?h\<rparr>"
    have "TryRecordChatFromPacket W now (Some pkt) l ?h = RecordChat now ?msg ?h"
      using True assms(4)
      by (simp add: TryRecordChatFromPacket_def assms(3) text_packet_fields chatTextFromData_def
          isChatPort_def Let_def bytes_of_string_Nil)
    moreover have "strip_json (complete_chat now ?msg ?h) = strip_json m"
      using h by (simp add: complete_chat_def strip_json_def assms(2) sent_chat_def channel_name_def
          at_most_added_def)
    ultimately show ?thesis
      using record_adds [OF h, of now ?msg] assms(2,5-7) by (simp add: sent_chat_def)
  next
    case False
    then have "TryRecordChatFromPacket W now (Some pkt) l ?h = ?h"
      by (auto simp: TryRecordChatFromPacket_def assms(3) text_packet_fields chatTextFromData_def Let_def
          bytes_of_string_Nil)
    then show ?thesis using h by simp
  qed
  then show ?thesis by (simp add: observe_packet_def tryRecordChatPacket_def split_beta)
qed

lemma mk_variant:
  "FromRadio_Variant (mk_FromRadio v) = Some v" "ToRadio_Variant (mk_ToRadio u) = Some u"
  by (simp_all add: mk_FromRadio_def mk_ToRadio_def)

lemma hub_calls_added:
  assumes "m = sent_chat W now l dest ch pktID body h0"
    and "pkt = text_packet l dest ch pktID body" and "l \<noteq> 0" and "pktID \<noteq> 0"
    and "\<not> repeats m h0" and "0 < h_maxChat h0"
  shows "list_all (shows_packet E pkt) cs \<Longrightarrow> at_most_added h0 m h \<Longrightarrow>
    at_most_added h0 m (fold (hub_apply W E now l) cs h)"
proof (induction cs arbitrary: h)
  case (Cons c cs)
  have "at_most_added h0 m (hub_apply W E now l c h)"
  proof (cases c)
    case (HubStatus st)
    then show ?thesis using Cons.prems(2) by (auto intro: at_most_added_same)
  next
    case (HubObserve d a p fr)
    have o: "at_most_added h0 m (Record now ev1 h1)"
      if "observe_packet W now l ev (Some pkt) h = (ev1, h1)" for ev ev1 h1
      using observe_text [OF Cons.prems(2) assms, of ev] that by (auto intro: at_most_added_same)
    from HubObserve Cons.prems show ?thesis
      by (auto simp: shows_packet_def ObservePayload_def observeFromRadio_def observeToRadio_def Let_def
          mk_variant intro: o split: if_splits prod.split)
  qed
  with Cons show ?case by simp
qed simp

lemma SendTextMessage_trim: "SendTextMessage E ch dest (TrimSpace input) b = SendTextMessage E ch dest input b"
  by (simp add: SendTextMessage_def)

section \<open>Properties\<close>

text \<open>
  C25: a text message sent from the web UI and accepted by the broker appears exactly once
  in the chat history, as the entry the caller gets back, although the hub sees it several
  times: in the frame to the radio, in the frame to every client, and in \<open>SendChat\<close>'s
  own record. The calls into the hub come one at a time here. The hypotheses are that protobuf decodes what it encodes and that none
  of the last eight entries repeats the message.
\<close>

theorem send_chat_once:
  assumes "hub_ok h" and "SendTextMessage E ch dest input b = Some (Inr pktID, b')"
    and "pkt = text_packet (fst (LocalNodeNum E b)) dest ch pktID (TrimSpace input)"
    and "\<And>w. marshal_ToRadio E (mk_ToRadio (ToRadio_Packet (Some pkt))) = Some w \<Longrightarrow>
      unmarshal_ToRadio E w = Some (mk_ToRadio (ToRadio_Packet (Some pkt)))"
    and "\<And>d. marshal_FromRadio E (mk_FromRadio (FromRadio_Packet (Some pkt))) = Some d \<Longrightarrow>
      unmarshal_FromRadio E d = Some (mk_FromRadio (FromRadio_Packet (Some pkt)))"
    and "m = sent_chat W (b_now b) (fst (LocalNodeNum E b)) dest ch pktID (TrimSpace input) h"
    and "\<not> (\<exists>i < length (h_chats h). length (h_chats h) \<le> i + 8 \<and> duplicate_of m (h_chats h ! i))"
  shows "\<exists>h'. SendChat W E ch dest input (RadioOf (Some b)) h = Returned (Inr m, RadioOf (Some b'), h') \<and>
    map strip_json (h_chats h') =
      keep_last (h_maxChat h) (map strip_json (h_chats h) @ [strip_json m])"
proof -
  from SendText_calls [OF assms(2-5)] obtain cs where b': "b_hub b' = b_hub b @ cs"
      "list_all (shows_packet E pkt) cs" "b_now b' = b_now b" "b_cache b' = b_cache b"
    and nz: "pktID \<noteq> 0" "snd (LocalNodeNum E b)" by (auto simp: calls_only_def)
  have l: "LocalNodeNum E b' = LocalNodeNum E b" by (simp add: LocalNodeNum_def b')
  have l0: "fst (LocalNodeNum E b) \<noteq> 0"
    using nz(2) by (auto simp: LocalNodeNum_def localNodeNum_def Let_def split: if_splits option.splits)
  have nr: "\<not> repeats m h" using assms(7) unfolding repeats_def .
  have mx: "0 < h_maxChat h" using assms(1) by (simp add: hub_ok_def defaultMaxChat_def)
  let ?h1 = "hub_calls W E b' cs h"
  have h1: "at_most_added h m ?h1"
    unfolding hub_calls_def l b'
    by (rule hub_calls_added [OF assms(6) _ l0 nz(1) nr mx b'(2)])
      (simp_all add: assms(3) at_most_added_def)
  have m: "sent_chat W (b_now b') (fst (LocalNodeNum E b')) dest ch pktID (TrimSpace input) ?h1 = m"
    using h1 by (simp add: assms(6) sent_chat_def l b' at_most_added_def channel_name_def)
  have "complete_chat (b_now b) m ?h1 = m"
    using h1 by (simp add: complete_chat_def assms(6) sent_chat_def at_most_added_def channel_name_def Let_def)
  then have "map strip_json (h_chats (RecordChat (b_now b) m ?h1)) = with_chat h m"
    using record_adds [OF h1 _ nr _ mx] nz(1) by (simp add: assms(6) sent_chat_def)
  then show ?thesis
    using assms(2) m by (simp add: SendChat_def SendTextMessage_trim Let_def new_calls_def b' with_chat_def)
qed

definition text_sample :: MeshPacket where
  "text_sample = text_packet 42 webui_BroadcastNode 0 8 ''hi''"

definition text_env :: env where
  "text_env = sample_env\<lparr>
     unmarshal_FromRadio := (\<lambda>bs. if bs = [1, 42] then sample_unmarshal_FromRadio bs
       else Some (mk_FromRadio (FromRadio_Packet (Some text_sample)))),
     unmarshal_ToRadio := (\<lambda>_. Some (mk_ToRadio (ToRadio_Packet (Some text_sample))))\<rparr>"

definition text_broker :: broker where
  "text_broker = (New False True 0 [RandOk 8])\<lparr>b_cache := newConfigCache\<lparr>cc_myInfo := Some [1, 42]\<rparr>\<rparr>"

definition sample_web :: webenv where
  "sample_web = \<lparr>nm_HwModel = (\<lambda>_. ''hw''), nm_Role = (\<lambda>_. ''role''), nm_ChannelRole = (\<lambda>_. ''r''),
     nm_PortNum = (\<lambda>_. ''port''), w_json_FromRadio = (\<lambda>_. Some ''f''), w_json_ToRadio = (\<lambda>_. Some ''t''),
     w_json_MeshPacket = (\<lambda>_. Some ''p''), w_evict_order = (\<lambda>ks. ks)\<rparr>"

lemma webenv_ok_sample [simp]: "webenv_ok sample_web"
  by (simp add: webenv_ok_def sample_web_def)

theorem send_chat_once_witness:
  "\<exists>m b' h'. SendChat sample_web text_env 0 webui_BroadcastNode ''hi'' (RadioOf (Some text_broker)) NewHub =
     Returned (Inr m, RadioOf (Some b'), h') \<and> cm_Text m = ''hi'' \<and> cm_PacketID m = 8 \<and>
     map strip_json (h_chats h') = [strip_json m]"
proof -
  have t: "TrimSpace ''hi'' = ''hi''" by code_simp
  have l: "LocalNodeNum text_env text_broker = (42, True)"
    by (simp add: LocalNodeNum_def localNodeNum_def text_env_def text_broker_def codec.truncate_def
        sample_unmarshal_FromRadio_def mk_FromRadio_def FromRadio_GetMyInfo_def MyNodeInfo_GetMyNodeNum_def)
  have n: "nextPacketID text_broker = Some (8, text_broker\<lparr>b_rand := []\<rparr>)"
    by (simp add: nextPacketID_def text_broker_def New_def)
  let ?m = "sent_chat sample_web (b_now text_broker) (fst (LocalNodeNum text_env text_broker))
    webui_BroadcastNode 0 8 (TrimSpace ''hi'') NewHub"
  have "\<exists>b2. forwardToSerial text_env (mk_ToRadio (ToRadio_Packet (Some text_sample)))
      (text_broker\<lparr>b_rand := []\<rparr>) = (None, b2)"
    by (simp add: forwardToSerial_def writeSerial_def text_broker_def New_def text_env_def
        sample_marshal_ToRadio_def mk_variant logDecodedPayload_def MaxSize_def Let_def)
  then have "\<exists>b'. SendTextMessage text_env 0 webui_BroadcastNode ''hi'' text_broker = Some (Inr 8, b')"
    by (auto simp: SendTextMessage_def t l n maxTextLen_def Let_def text_sample_def)
      (auto simp: text_broker_def New_def)
  then obtain b' where "SendTextMessage text_env 0 webui_BroadcastNode ''hi'' text_broker = Some (Inr 8, b')"
    by blast
  note sent = this
  have ts: "text_packet (fst (LocalNodeNum text_env text_broker)) webui_BroadcastNode 0 8 (TrimSpace ''hi'') = text_sample"
    by (simp add: l t text_sample_def)
  have r: "unmarshal_ToRadio text_env w = Some (mk_ToRadio (ToRadio_Packet (Some text_sample)))" for w
    by (simp add: text_env_def)
  have f: "unmarshal_FromRadio text_env d = Some (mk_FromRadio (FromRadio_Packet (Some text_sample)))"
    if "marshal_FromRadio text_env (mk_FromRadio (FromRadio_Packet (Some text_sample))) = Some d" for d
    using that by (auto simp: text_env_def sample_marshal_FromRadio_def mk_variant)
  have "\<exists>h'. SendChat sample_web text_env 0 webui_BroadcastNode ''hi'' (RadioOf (Some text_broker)) NewHub =
      Returned (Inr ?m, RadioOf (Some b'), h') \<and> map strip_json (h_chats h') =
      keep_last (h_maxChat NewHub) (map strip_json (h_chats NewHub) @ [strip_json ?m])"
    by (rule send_chat_once [OF hub_ok_New sent ts [symmetric] r f refl]) (auto simp: NewHub_def)
  then show ?thesis by (auto simp: NewHub_def keep_last_def defaultMaxChat_def sent_chat_def t)
qed

text \<open>
  After the first connection, whenever no broker is current (the serial link is down,
  or the bridge is shutting down) a message sent from the web UI panics, whatever it is,
  and so does the observation of any frame with a packet; the answer "radio not
  connected" is only given before the first connection.
\<close>

lemma nil_broker_panics:
  assumes "asks_radio E c"
  shows "SendChat W E ch dest input (radio True None) h = Panicked \<and>
    FetchCanned W E (radio True None) h = Panicked \<and>
    hub_call_run W E now (radio True None) c h = Panicked \<and>
    SendChat W E ch dest input (radio False current) h = Returned (Inl ErrRadioNotConnected, NilRadio, h) \<and>
    hub_call_run W E now (radio False current) c h = Returned (hub_apply W E now 0 c h)"
  using assms
  by (simp add: SendChat_def FetchCanned_def hub_call_run_def radio_def radio_local_def)

lemma nil_broker_witness:
  "hub_call_run sample_web text_env 7 (radio True None) (HubObserve ''d'' ''a'' [2] False) NewHub = Panicked"
  using nil_broker_panics [of text_env "HubObserve ''d'' ''a'' [2] False" sample_web 0 0 "''hi''" NewHub 7 None]
  by (simp add: asks_radio_def text_env_def mk_variant)

end
