(* ===== verification/HubProps.thy ===== *)
theory HubProps
  imports WebChat
begin

text \<open>
  The properties of the hub: its invariant in every history of operations, the exact
  content of the bounded histories, what reaches the subscribers, and the windows the
  source leaves open between its critical sections.
\<close>

section \<open>Histories of hub operations\<close>

text \<open>Who takes a step: the broker's side, or the owner of a subscription.\<close>

datatype hub_actor = Publisher | EventReader nat | ChatReader nat | NodeReader nat

inductive hub_step :: "webenv \<Rightarrow> codec \<Rightarrow> hub_actor \<Rightarrow> hub \<Rightarrow> hub \<Rightarrow> bool" for W :: webenv and E :: codec where
  Call: "hub_step W E Publisher h (hub_apply W E now l c h)"
| ChatRecorded: "hub_step W E Publisher h (RecordChat now msg h)"
| SubEvents: "Subscribe n h = (i, h') \<Longrightarrow> hub_step W E (EventReader i) h h'"
| SubChat: "SubscribeChat n h = (i, h') \<Longrightarrow> hub_step W E (ChatReader i) h h'"
| SubNodes: "SubscribeNodes n h = (i, h') \<Longrightarrow> hub_step W E (NodeReader i) h h'"
| UnsubEvents: "i \<in> set (tp_subs (h_subscribers h)) \<Longrightarrow> hub_step W E (EventReader i) h (Unsubscribe i h)"
| UnsubChat: "i \<in> set (tp_subs (h_chatSubs h)) \<Longrightarrow> hub_step W E (ChatReader i) h (UnsubscribeChat i h)"
| UnsubNodes: "i \<in> set (tp_subs (h_nodeSubs h)) \<Longrightarrow> hub_step W E (NodeReader i) h (UnsubscribeNodes i h)"
| RecvEvents: "hub_step W E (EventReader i) h (h\<lparr>h_subscribers := snd (topic_receive i (h_subscribers h))\<rparr>)"
| RecvChat: "hub_step W E (ChatReader i) h (h\<lparr>h_chatSubs := snd (topic_receive i (h_chatSubs h))\<rparr>)"
| RecvNodes: "hub_step W E (NodeReader i) h (h\<lparr>h_nodeSubs := snd (topic_receive i (h_nodeSubs h))\<rparr>)"

definition hub_next :: "webenv \<Rightarrow> codec \<Rightarrow> hub \<Rightarrow> hub \<Rightarrow> bool" where
  "hub_next W E h h' \<longleftrightarrow> (\<exists>a. hub_step W E a h h')"

lemma hub_ok_step:
  assumes "hub_step W E a h h'" and "webenv_ok W" and "hub_ok h"
  shows "hub_ok h'"
  using assms
proof (induction rule: hub_step.induct)
  case (SubEvents n h i h')
  then show ?case using hub_ok_Subscribe(1) [of h n] by simp
next
  case (SubChat n h i h')
  then show ?case using hub_ok_Subscribe(2) [of h n] by simp
next
  case (SubNodes n h i h')
  then show ?case using hub_ok_Subscribe(3) [of h n] by simp
qed (auto intro: hub_ok_apply hub_ok_Unsubscribe hub_ok_RecordChat
      intro!: hub_ok_subs topic_ok_receive dest: hub_ok_topics)

interpretation hub_sys: invariant_system
  "\<lambda>h. h = NewHub" "\<lambda>h h'. webenv_ok W \<and> hub_next W E h h'" hub_ok for W E
  by unfold_locales (auto intro: hub_ok_New hub_ok_step simp: hub_next_def)

definition sample_codec :: codec where
  "sample_codec = \<lparr>unmarshal_FromRadio = (\<lambda>_. None), unmarshal_ToRadio = (\<lambda>_. None),
     unmarshal_AdminMessage = (\<lambda>_. None), marshal_FromRadio = (\<lambda>_. None),
     marshal_ToRadio = (\<lambda>_. None), marshal_AdminMessage = (\<lambda>_. None)\<rparr>"

lemma Subscribe_first: "Subscribe 5 NewHub = (0, snd (Subscribe 5 NewHub))"
  by (simp add: Subscribe_def topic_subscribe_def NewHub_def new_topic_def)

text \<open>
  C26: with every operation taken as one step, after any history of observed frames, status changes, recorded chats,
  subscriptions, receives and cancellations, the hub is well formed: at most 1000 events, 500 chat
  messages and 2048 packet texts, every channel and node filed under its own number, no
  packet id twice within eight chat messages, and no registered subscriber channel
  closed, so that publishing does not panic.
\<close>

theorem hub_invariant:
  assumes "webenv_ok W" and "(hub_next W E)\<^sup>*\<^sup>* NewHub h"
  shows "hub_ok h"
proof -
  have "(\<lambda>h h'. webenv_ok W \<and> hub_next W E h h')\<^sup>*\<^sup>* NewHub h" using assms by simp
  then show ?thesis by (rule hub_sys.inv_reachable [OF refl])
qed

theorem hub_invariant_witness: "hub_ok (snd (Subscribe 5 NewHub))"
  by (rule hub_invariant [of sample_web sample_codec]) (auto simp: hub_next_def intro!: r_into_rtranclp
      exI [of _ "EventReader 0"] SubEvents [OF Subscribe_first])

section \<open>Content of the histories\<close>

text \<open>
  The event log is exactly the last 1000 recorded events, in order, each with its
  time and channel name filled in.
\<close>

lemma event_log_is_suffix:
  assumes "webenv_ok W" and "(hub_next W E)\<^sup>*\<^sup>* NewHub h"
  shows "h_events (fold (\<lambda>(now, ev). Record now ev) es h) =
    keep_last (h_maxEvents h) (h_events h @ map (\<lambda>(now, ev). complete_event now ev h) es)"
proof -
  have "(\<lambda>h h'. webenv_ok W \<and> hub_next W E h h')\<^sup>*\<^sup>* NewHub h" using assms by simp
  then have "hub_ok h" by (rule hub_sys.inv_reachable [OF refl])
  then show ?thesis by (intro Record_history) (simp add: hub_ok_def)
qed

lemma event_log_witness:
  "h_events (fold (\<lambda>(now, ev). Record now ev) [(7, new_event ''d'' ''a'' ''v'' ''j'')] NewHub) =
     [(new_event ''d'' ''a'' ''v'' ''j'')\<lparr>ev_Time := Some 7\<rparr>]"
  using event_log_is_suffix [of sample_web sample_codec NewHub "[(7, new_event ''d'' ''a'' ''v'' ''j'')]"]
  by (simp add: complete_event_def new_event_def keep_last_def NewHub_def defaultMaxEvents_def)

text \<open>
  A recorded event reaches every registered subscriber whose buffer has room exactly
  once, behind what it already holds; a subscriber without room misses it without
  blocking the others, and nothing panics.
\<close>

lemma record_reaches_subscribers:
  assumes "hub_ok h" and "ev1 = complete_event now ev h" and "t = h_subscribers (Record now ev h)"
  shows "\<not> tp_panic t \<and>
    (\<forall>i. chan_buf (tp_chans t i) =
       (if i \<in> set (tp_subs (h_subscribers h)) \<and>
           length (chan_buf (tp_chans (h_subscribers h) i)) < chan_cap (tp_chans (h_subscribers h) i)
        then chan_buf (tp_chans (h_subscribers h) i) @ [ev1]
        else chan_buf (tp_chans (h_subscribers h) i)))"
proof -
  have "topic_ok (h_subscribers h)" using assms(1) by (simp add: hub_ok_def)
  then show ?thesis
    by (simp add: assms(2,3) Record_eq Let_def store_event_def topic_publish_open)
      (simp add: topic_ok_def grown_def)
qed

lemma record_reaches_witness:
  "chan_buf (tp_chans (h_subscribers (Record 7 (new_event ''d'' ''a'' ''v'' ''j'') (snd (Subscribe 5 NewHub)))) 0) =
     [(new_event ''d'' ''a'' ''v'' ''j'')\<lparr>ev_Time := Some 7\<rparr>]"
proof -
  have "hub_ok (snd (Subscribe 5 NewHub))" using hub_ok_Subscribe(1) hub_ok_New by blast
  from record_reaches_subscribers [OF this refl refl, of 7 "new_event ''d'' ''a'' ''v'' ''j''"]
  show ?thesis
    by (simp add: Subscribe_def topic_subscribe_def NewHub_def new_topic_def make_chan_def
        buffer_size_def complete_event_def new_event_def)
qed

text \<open>
  With \<open>RecordChat\<close> as one step, a message that repeats one of the last eight chat messages (the same packet id, or
  the same outgoing text on the same channel within two seconds) adds no entry and
  changes no entry but for its JSON text, whatever it carries. A message that repeats none is
  appended with its time and channel name filled in, the oldest falling out beyond the limit.
\<close>

lemma chat_recorded_once:
  assumes "m = complete_chat now msg h"
  shows "map strip_json (h_chats (RecordChat now msg h)) =
    (if \<exists>i < length (h_chats h). length (h_chats h) \<le> i + 8 \<and> duplicate_of m (h_chats h ! i)
     then map strip_json (h_chats h)
     else keep_last (h_maxChat h) (map strip_json (h_chats h) @ [strip_json m]))"
  unfolding assms by (rule RecordChat_strip)

definition sample_chat :: ChatMessage where
  "sample_chat = \<lparr>cm_Time = Some 1, cm_Text = ''hi'', cm_From = 1, cm_To = 2, cm_Channel = 0,
     cm_ChannelName = ''c'', cm_Outgoing = False, cm_PacketID = 5, cm_ProtoJSON = ''x''\<rparr>"

lemma chat_recorded_once_witness:
  "map strip_json (h_chats (RecordChat 2 sample_chat (NewHub\<lparr>h_chats := [sample_chat]\<rparr>))) =
     [strip_json sample_chat]"
  by (subst chat_recorded_once [OF refl])
    (auto simp: complete_chat_def sample_chat_def duplicate_of_def)

section \<open>Open windows\<close>

text \<open>An offer to a closed channel panics, and the flag stays.\<close>

lemma topic_send_closed:
  "i \<in> set ns \<Longrightarrow> chan_closed (tp_chans t i) \<Longrightarrow> tp_panic (topic_send x ns t)"
proof (induction ns arbitrary: t)
  case (Cons j ns)
  have keep: "tp_panic u \<Longrightarrow> tp_panic (topic_send x ks u)" for u ks
    by (induction ks arbitrary: u)
      (auto simp: topic_send_def topic_offer_def split: prod.split send_result.split)
  show ?case
  proof (cases "j = i")
    case True
    with Cons.prems have "tp_panic (topic_offer x j t)"
      by (simp add: topic_offer_def chan_try_send_def)
    with keep show ?thesis by (simp add: topic_send_def)
  next
    case False
    with Cons.prems have "chan_closed (tp_chans (topic_offer x j t) i)" "i \<in> set ns"
      by (auto simp: topic_offer_def chan_try_send_def)
    with Cons.IH show ?thesis by (simp add: topic_send_def)
  qed
qed simp

text \<open>
  The race between publishing and unsubscribing. If a subscriber cancels between the
  moment \<open>Record\<close> has copied the subscribers and the moment it offers the event, the
  offer goes to a closed channel and panics.
\<close>

lemma unsubscribe_race_panics:
  assumes "i \<in> set (tp_subs (h_subscribers h))" and "Record_begin now ev h = (es, h1)"
  shows "tp_panic (h_subscribers (Record_end es (Unsubscribe i h1)))"
proof -
  have es: "snd es = tp_subs (h_subscribers h)" and h1: "h_subscribers h1 = h_subscribers h"
    using assms(2) by (auto simp: Record_begin_def Let_def store_event_def)
  have "chan_closed (tp_chans (h_subscribers (Unsubscribe i h1)) i)"
    using assms(1) by (simp add: h1 Unsubscribe_def topic_unsub_def topic_close_def topic_remove_def
        chan_close_def Let_def)
  from topic_send_closed [OF assms(1) this] show ?thesis
    by (simp add: Record_end_def es split: prod.split)
qed

lemma unsubscribe_race_witness:
  "tp_panic (h_subscribers (Record_end (fst (Record_begin 7 (new_event ''d'' ''a'' ''v'' ''j'') (snd (Subscribe 5 NewHub))))
     (Unsubscribe 0 (snd (Record_begin 7 (new_event ''d'' ''a'' ''v'' ''j'') (snd (Subscribe 5 NewHub)))))))"
  by (rule unsubscribe_race_panics [where now = 7 and ev = "new_event ''d'' ''a'' ''v'' ''j''"
        and h = "snd (Subscribe 5 NewHub)"])
    (simp_all add: Subscribe_def topic_subscribe_def NewHub_def new_topic_def)

text \<open>
  The gap of the event stream. A browser is sent the snapshot first and subscribed
  after; an event recorded in between is in neither.
\<close>

lemma snapshot_gap:
  assumes "(es, cs, st) = Snapshot h" and "h1 = Record now ev h" and "(i, h2) = Subscribe n h1"
  shows "es = h_events h \<and> chan_buf (tp_chans (h_subscribers h2) i) = [] \<and>
    h_events h2 = keep_last (h_maxEvents h) (h_events h @ [complete_event now ev h])"
  using assms
  by (auto simp: Snapshot_def Subscribe_def topic_subscribe_def make_chan_def)

lemma snapshot_gap_witness:
  "\<exists>es cs st i h2. (es, cs, st) = Snapshot NewHub \<and>
     (i, h2) = Subscribe 128 (Record 7 (new_event ''d'' ''a'' ''v'' ''j'') NewHub) \<and>
     es = [] \<and> chan_buf (tp_chans (h_subscribers h2) i) = [] \<and> length (h_events h2) = 1"
proof -
  obtain es cs st where s: "(es, cs, st) = Snapshot NewHub" by (metis prod_cases3)
  obtain i h2 where i: "(i, h2) = Subscribe 128 (Record 7 (new_event ''d'' ''a'' ''v'' ''j'') NewHub)"
    by (metis surj_pair)
  have "h_events NewHub = []" "h_maxEvents NewHub = 1000"
    by (simp_all add: NewHub_def defaultMaxEvents_def)
  with snapshot_gap [OF s refl i]
  have "es = [] \<and> chan_buf (tp_chans (h_subscribers h2) i) = [] \<and> length (h_events h2) = 1"
    by (simp add: keep_last_def)
  with s i show ?thesis by blast
qed

end
