(* ===== verification/Publishing.thy ===== *)
theory Publishing
  imports HubProps
begin

text \<open>
  Publishing at the grain of the hub's locks. \<open>Record\<close> stores an event and copies the subscribers in one
  critical section, and offers the event to the copied channels after it, one at a time; \<open>Subscribe\<close>'s cancel
  function removes the channel in a critical section and closes it after. Any number of goroutines
  may be in the middle of this. \<open>pub_step\<close> has a step for each part; the rest of the hub may change in between.
\<close>

section \<open>State\<close>

definition Unsubscribe_remove :: "nat \<Rightarrow> hub \<Rightarrow> hub" where
  "Unsubscribe_remove i h = h\<lparr>h_subscribers := topic_remove i (h_subscribers h)\<rparr>"

definition Unsubscribe_close :: "nat \<Rightarrow> hub \<Rightarrow> hub" where
  "Unsubscribe_close i h = h\<lparr>h_subscribers := topic_close i (h_subscribers h)\<rparr>"

text \<open>The two parts make the whole.\<close>

lemma Unsubscribe_parts: "Unsubscribe i h = Unsubscribe_close i (Unsubscribe_remove i h)"
  by (simp add: Unsubscribe_def Unsubscribe_close_def Unsubscribe_remove_def topic_unsub_def)

record pub =
  pb_hub :: hub
  pb_flight :: "nat \<Rightarrow> (Event \<times> nat list) option"  \<comment> \<open>a goroutine's event and the channels still to offer it to\<close>
  pb_closing :: "nat list"                \<comment> \<open>removed channels that are still to be closed\<close>
  pb_got :: "nat \<Rightarrow> Event list"           \<comment> \<open>history: what the reader of a channel received\<close>
  pb_sent :: "(nat \<times> Event) list"         \<comment> \<open>history: the events stored, with their goroutines\<close>
  pb_from :: "nat \<Rightarrow> nat"                  \<comment> \<open>history: the events stored when a channel was made\<close>
  pb_in :: "nat \<Rightarrow> (nat \<times> Event) list"   \<comment> \<open>history: what a channel accepted\<close>

definition pub_init :: pub where
  "pub_init = \<lparr>pb_hub = NewHub, pb_flight = (\<lambda>_. None), pb_closing = [], pb_got = (\<lambda>_. []), pb_sent = [],
     pb_from = (\<lambda>_. 0), pb_in = (\<lambda>_. [])\<rparr>"

abbreviation subs :: "pub \<Rightarrow> nat list" where
  "subs s \<equiv> tp_subs (h_subscribers (pb_hub s))"

abbreviation channel :: "pub \<Rightarrow> nat \<Rightarrow> Event chan" where
  "channel s i \<equiv> tp_chans (h_subscribers (pb_hub s)) i"

abbreviation panicked :: "pub \<Rightarrow> bool" where
  "panicked s \<equiv> tp_panic (h_subscribers (pb_hub s))"

text \<open>One turn of the loop over the copied channels.\<close>

definition offer_next :: "nat \<Rightarrow> Event \<Rightarrow> nat \<Rightarrow> nat list \<Rightarrow> pub \<Rightarrow> pub" where
  "offer_next g ev i rest s =
     s\<lparr>pb_hub := (pb_hub s)\<lparr>h_subscribers := topic_offer ev i (h_subscribers (pb_hub s))\<rparr>,
       pb_flight := (pb_flight s)(g := Some (ev, rest)),
       pb_in := (pb_in s)(i := pb_in s i @ (if fst (chan_try_send ev (channel s i)) = SendOk then [(g, ev)] else []))\<rparr>"

inductive pub_step :: "pub \<Rightarrow> pub \<Rightarrow> bool" where
  Begin: "\<not> panicked s \<Longrightarrow> pb_flight s g = None \<Longrightarrow> Record_begin now ev (pb_hub s) = ((ev1, ns), h) \<Longrightarrow>
    mset is = mset ns \<Longrightarrow>
    pub_step s (s\<lparr>pb_hub := h, pb_flight := (pb_flight s)(g := Some (ev1, is)), pb_sent := pb_sent s @ [(g, ev1)]\<rparr>)"
| Offer: "\<not> panicked s \<Longrightarrow> pb_flight s g = Some (ev, i # rest) \<Longrightarrow> pub_step s (offer_next g ev i rest s)"
| Return: "\<not> panicked s \<Longrightarrow> pb_flight s g = Some (ev, []) \<Longrightarrow>
    pub_step s (s\<lparr>pb_flight := (pb_flight s)(g := None)\<rparr>)"
| Join: "\<not> panicked s \<Longrightarrow> Subscribe buffer (pb_hub s) = (i, h) \<Longrightarrow>
    pub_step s (s\<lparr>pb_hub := h, pb_from := (pb_from s)(i := length (pb_sent s))\<rparr>)"
| Leave: "\<not> panicked s \<Longrightarrow> i \<in> set (subs s) \<Longrightarrow>
    pub_step s (s\<lparr>pb_hub := Unsubscribe_remove i (pb_hub s), pb_closing := i # pb_closing s\<rparr>)"
| Close: "\<not> panicked s \<Longrightarrow> i \<in> set (pb_closing s) \<Longrightarrow>
    pub_step s (s\<lparr>pb_hub := Unsubscribe_close i (pb_hub s), pb_closing := remove1 i (pb_closing s)\<rparr>)"
| Receive: "\<not> panicked s \<Longrightarrow> topic_receive i (h_subscribers (pb_hub s)) = (RecvValue ev, t) \<Longrightarrow>
    pub_step s (s\<lparr>pb_hub := (pb_hub s)\<lparr>h_subscribers := t\<rparr>, pb_got := (pb_got s)(i := pb_got s i @ [ev])\<rparr>)"
| Other: "\<not> panicked s \<Longrightarrow> h_subscribers h = h_subscribers (pb_hub s) \<Longrightarrow> h_events h = h_events (pb_hub s) \<Longrightarrow>
    h_maxEvents h = h_maxEvents (pb_hub s) \<Longrightarrow> pub_step s (s\<lparr>pb_hub := h\<rparr>)"

section \<open>The invariant\<close>

definition by_publisher :: "nat \<Rightarrow> (nat \<times> Event) list \<Rightarrow> (nat \<times> Event) list" where
  "by_publisher g es = filter (\<lambda>(k, _). k = g) es"

lemma by_publisher_simps [simp]:
  "by_publisher g [] = []" "by_publisher g (es @ fs) = by_publisher g es @ by_publisher g fs"
  "by_publisher g [(k, ev)] = (if k = g then [(g, ev)] else [])"
  by (auto simp: by_publisher_def)

text \<open>The event a goroutine has stored and not yet offered to a channel.\<close>

definition pending :: "pub \<Rightarrow> nat \<Rightarrow> nat \<Rightarrow> (nat \<times> Event) list" where
  "pending s g i =
     (case pb_flight s g of Some (ev, ns) \<Rightarrow> if i \<in> set ns then [(g, ev)] else [] | None \<Rightarrow> [])"

definition channels_inv :: "pub \<Rightarrow> bool" where
  "channels_inv s \<longleftrightarrow>
     distinct (subs s) \<and> distinct (pb_closing s) \<and> set (subs s) \<inter> set (pb_closing s) = {} \<and>
     (\<forall>i. i \<in> set (subs s) \<union> set (pb_closing s) \<longrightarrow> i < tp_next (h_subscribers (pb_hub s))) \<and>
     (\<forall>i < tp_next (h_subscribers (pb_hub s)).
        chan_closed (channel s i) \<longleftrightarrow> i \<notin> set (subs s) \<union> set (pb_closing s)) \<and>
     (\<forall>g ev ns. pb_flight s g = Some (ev, ns) \<longrightarrow>
        distinct ns \<and> (\<forall>i \<in> set ns. i < tp_next (h_subscribers (pb_hub s))))"

definition streams_inv :: "pub \<Rightarrow> bool" where
  "streams_inv s \<longleftrightarrow>
     (\<forall>i. map snd (pb_in s i) = pb_got s i @ chan_buf (channel s i) \<and> pb_from s i \<le> length (pb_sent s) \<and>
        (tp_next (h_subscribers (pb_hub s)) \<le> i \<longrightarrow> pb_in s i = []) \<and>
        (\<forall>g. \<exists>ys. by_publisher g (drop (pb_from s i) (pb_sent s)) = ys @ pending s g i \<and>
           subseq (by_publisher g (pb_in s i)) ys))"

definition pub_inv :: "pub \<Rightarrow> bool" where
  "pub_inv s \<longleftrightarrow> channels_inv s \<and> streams_inv s \<and> h_maxEvents (pb_hub s) = defaultMaxEvents \<and>
     h_events (pb_hub s) = keep_last defaultMaxEvents (map snd (pb_sent s))"

lemma pub_inv_init: "pub_inv pub_init"
  by (auto simp: pub_inv_def channels_inv_def streams_inv_def pub_init_def NewHub_def new_topic_def make_chan_def
      pending_def keep_last_def)

lemma Record_begin_parts:
  assumes "Record_begin now ev h = ((ev1, ns), h1)"
  shows "ns = tp_subs (h_subscribers h)" and "h_subscribers h1 = h_subscribers h"
    and "h_events h1 = keep_last (h_maxEvents h) (h_events h @ [ev1])" and "h_maxEvents h1 = h_maxEvents h"
  using assms by (auto simp: Record_begin_def store_event_def Let_def)

lemma topic_offer_effect:
  "tp_subs (topic_offer x i t) = tp_subs t" "tp_next (topic_offer x i t) = tp_next t"
  "chan_closed (tp_chans (topic_offer x i t) j) = chan_closed (tp_chans t j)"
  "chan_buf (tp_chans (topic_offer x i t) j) = chan_buf (tp_chans t j) @
     (if j = i \<and> fst (chan_try_send x (tp_chans t i)) = SendOk then [x] else [])"
  "tp_panic (topic_offer x i t) \<longleftrightarrow> tp_panic t \<or> chan_closed (tp_chans t i)"
  by (auto simp: topic_offer_def chan_try_send_def)

lemma streams_inv_same:
  assumes "streams_inv s" and "\<And>i. map snd (pb_in t i) = pb_got t i @ chan_buf (channel t i)"
    and "pb_from t = pb_from s" "pb_sent t = pb_sent s" "pb_in t = pb_in s" "pb_flight t = pb_flight s"
    and "tp_next (h_subscribers (pb_hub t)) = tp_next (h_subscribers (pb_hub s))"
  shows "streams_inv t"
  using assms by (simp add: streams_inv_def pending_def)

lemma inv_Begin:
  assumes "pub_inv s" and "pb_flight s g = None" and "Record_begin now ev (pb_hub s) = ((ev1, ns), h)"
    and "mset ms = mset ns"
  shows "pub_inv (s\<lparr>pb_hub := h, pb_flight := (pb_flight s)(g := Some (ev1, ms)), pb_sent := pb_sent s @ [(g, ev1)]\<rparr>)"
    (is "pub_inv ?t")
proof -
  note p = Record_begin_parts [OF assms(3)]
  have m: "distinct ms" "set ms = set (subs s)"
    using assms(1,4) p(1) by (auto simp: pub_inv_def channels_inv_def dest: mset_eq_setD mset_eq_imp_distinct_iff)
  have c: "channels_inv ?t"
    using assms(1) m p(2) by (auto simp: pub_inv_def channels_inv_def)
  have "\<exists>ys. by_publisher k (drop (pb_from s i) (pb_sent s @ [(g, ev1)])) = ys @ pending ?t k i \<and>
      subseq (by_publisher k (pb_in s i)) ys" for i k
  proof -
    obtain ys where ys: "by_publisher k (drop (pb_from s i) (pb_sent s)) = ys @ pending s k i"
      "subseq (by_publisher k (pb_in s i)) ys" and l: "pb_from s i \<le> length (pb_sent s)"
      using assms(1) unfolding pub_inv_def streams_inv_def by blast
    show ?thesis
    proof (cases "k = g")
      case True
      then have "pending s k i = []" using assms(2) by (simp add: pending_def)
      with ys l True show ?thesis
        by (intro exI [of _ "if i \<in> set ms then ys else ys @ [(g, ev1)]"])
          (auto simp: pending_def intro: list_emb_prefix)
    next
      case False
      with ys l show ?thesis by (auto simp: pending_def)
    qed
  qed
  with assms(1) p(2) have "streams_inv ?t" by (simp add: pub_inv_def streams_inv_def le_SucI)
  with c assms(1) p(3,4) show ?thesis by (simp add: pub_inv_def keep_last_keep)
qed

lemma inv_Offer:
  assumes "pub_inv s" and "pb_flight s g = Some (ev, i # rest)"
  shows "pub_inv (offer_next g ev i rest s)" (is "pub_inv ?t")
proof -
  let ?a = "if fst (chan_try_send ev (channel s i)) = SendOk then [(g, ev)] else []"
  have r: "distinct (i # rest)" "\<forall>j \<in> set (i # rest). j < tp_next (h_subscribers (pb_hub s))"
    using assms unfolding pub_inv_def channels_inv_def by blast+
  have c: "channels_inv ?t"
    using assms(1) r by (auto simp: pub_inv_def channels_inv_def offer_next_def topic_offer_effect)
  have b: "map snd (pb_in ?t j) = pb_got ?t j @ chan_buf (channel ?t j)" for j
    using assms(1) by (simp add: pub_inv_def streams_inv_def offer_next_def topic_offer_effect)
  have "\<exists>ys. by_publisher k (drop (pb_from s j) (pb_sent s)) = ys @ pending ?t k j \<and>
      subseq (by_publisher k (pb_in ?t j)) ys" for j k
  proof -
    obtain ys where ys: "by_publisher k (drop (pb_from s j) (pb_sent s)) = ys @ pending s k j"
      "subseq (by_publisher k (pb_in s j)) ys"
      using assms(1) unfolding pub_inv_def streams_inv_def by blast
    show ?thesis
    proof (cases "k = g \<and> j = i")
      case True
      then have "pending s k j = [(g, ev)]" "pending ?t k j = []"
        using assms(2) r(1) by (simp_all add: pending_def offer_next_def)
      with ys True show ?thesis
        by (intro exI [of _ "ys @ [(g, ev)]"]) (auto simp: offer_next_def intro: list_emb_append_mono list_emb_prefix)
    next
      case False
      then have "pending ?t k j = pending s k j" "by_publisher k (pb_in ?t j) = by_publisher k (pb_in s j)"
        using assms(2) by (auto simp: pending_def offer_next_def split: option.split)
      with ys show ?thesis by simp
    qed
  qed
  moreover have "tp_next (h_subscribers (pb_hub s)) \<le> j \<longrightarrow> pb_in ?t j = []" for j
    using assms(1) r(2) by (auto simp: pub_inv_def streams_inv_def offer_next_def)
  ultimately have "streams_inv ?t"
    using assms(1) b by (simp add: pub_inv_def streams_inv_def offer_next_def topic_offer_effect(2))
  with c assms(1) show ?thesis by (simp add: pub_inv_def offer_next_def)
qed

lemma inv_Return:
  assumes "pub_inv s" and "pb_flight s g = Some (ev, [])"
  shows "pub_inv (s\<lparr>pb_flight := (pb_flight s)(g := None)\<rparr>)"
proof -
  have "pending (s\<lparr>pb_flight := (pb_flight s)(g := None)\<rparr>) k i = pending s k i" for k i
    using assms(2) by (simp add: pending_def)
  with assms show ?thesis by (auto simp: pub_inv_def channels_inv_def streams_inv_def)
qed

lemma inv_Join:
  assumes "pub_inv s" and "Subscribe buffer (pb_hub s) = (i, h)"
  shows "pub_inv (s\<lparr>pb_hub := h, pb_from := (pb_from s)(i := length (pb_sent s))\<rparr>)" (is "pub_inv ?t")
proof -
  have i: "i = tp_next (h_subscribers (pb_hub s))" and h: "h_events h = h_events (pb_hub s)"
    "h_maxEvents h = h_maxEvents (pb_hub s)"
    "h_subscribers h = snd (topic_subscribe (buffer_size buffer 64) (h_subscribers (pb_hub s)))"
    using assms(2) by (auto simp: Subscribe_def topic_subscribe_def)
  have "channels_inv ?t" using assms(1)
    by (fastforce simp: pub_inv_def channels_inv_def h(3) topic_subscribe_def make_chan_def less_Suc_eq)
  moreover have "pending s g i = []" for g
    using assms(1) i by (force simp: pub_inv_def channels_inv_def pending_def split: option.split)
  with assms(1) i have "streams_inv ?t"
    by (auto simp: pub_inv_def streams_inv_def h(3) topic_subscribe_def make_chan_def pending_def)
  ultimately show ?thesis using assms(1) h by (simp add: pub_inv_def)
qed

lemma inv_Leave:
  assumes "pub_inv s" and "i \<in> set (subs s)"
  shows "pub_inv (s\<lparr>pb_hub := Unsubscribe_remove i (pb_hub s), pb_closing := i # pb_closing s\<rparr>)" (is "pub_inv ?t")
proof -
  have "channels_inv ?t" using assms
    by (auto simp: pub_inv_def channels_inv_def Unsubscribe_remove_def topic_remove_def)
  moreover have "streams_inv ?t"
    by (rule streams_inv_same [of s]) (use assms(1) in \<open>simp_all add: pub_inv_def streams_inv_def
        Unsubscribe_remove_def topic_remove_def\<close>)
  ultimately show ?thesis using assms(1) by (simp add: pub_inv_def Unsubscribe_remove_def)
qed

lemma closing_open:
  "pub_inv s \<Longrightarrow> i \<in> set (pb_closing s) \<Longrightarrow> \<not> chan_closed (channel s i)"
  by (auto simp: pub_inv_def channels_inv_def)

lemma inv_Close:
  assumes "pub_inv s" and "i \<in> set (pb_closing s)"
  shows "pub_inv (s\<lparr>pb_hub := Unsubscribe_close i (pb_hub s), pb_closing := remove1 i (pb_closing s)\<rparr>)" (is "pub_inv ?t")
proof -
  have o: "\<not> chan_closed (channel s i)" using assms by (rule closing_open)
  have "channels_inv ?t" using assms o
    by (auto simp: pub_inv_def channels_inv_def Unsubscribe_close_def topic_close_def chan_close_def)
  moreover have "streams_inv ?t"
    by (rule streams_inv_same [of s]) (use assms(1) o in \<open>simp_all add: pub_inv_def streams_inv_def
        Unsubscribe_close_def topic_close_def chan_close_def\<close>)
  ultimately show ?thesis using assms(1) by (simp add: pub_inv_def Unsubscribe_close_def)
qed

lemma inv_Receive:
  assumes "pub_inv s" and "topic_receive i (h_subscribers (pb_hub s)) = (RecvValue ev, t)"
  shows "pub_inv (s\<lparr>pb_hub := (pb_hub s)\<lparr>h_subscribers := t\<rparr>, pb_got := (pb_got s)(i := pb_got s i @ [ev])\<rparr>)"
    (is "pub_inv ?t")
proof -
  obtain xs where x: "chan_buf (channel s i) = ev # xs"
    and t: "t = (h_subscribers (pb_hub s))\<lparr>tp_chans := (tp_chans (h_subscribers (pb_hub s)))(i := (channel s i)\<lparr>chan_buf := xs\<rparr>)\<rparr>"
    using assms(2) by (auto simp: topic_receive_def chan_recv_def split: list.splits if_splits)
  have "channels_inv ?t" using assms(1) by (auto simp: pub_inv_def channels_inv_def t)
  moreover have "streams_inv ?t"
    by (rule streams_inv_same [of s]) (use assms(1) x in \<open>simp_all add: pub_inv_def streams_inv_def t\<close>)
  ultimately show ?thesis using assms(1) by (simp add: pub_inv_def)
qed

lemma pub_inv_step: "pub_step s t \<Longrightarrow> pub_inv s \<Longrightarrow> pub_inv t"
proof (induction rule: pub_step.induct)
  case (Other s h)
  then show ?case by (simp add: pub_inv_def channels_inv_def streams_inv_def pending_def)
qed (auto intro: inv_Begin inv_Offer inv_Return inv_Join inv_Leave inv_Close inv_Receive)

interpretation pub_sys: invariant_system "\<lambda>s. s = pub_init" pub_step pub_inv
  by unfold_locales (auto simp: pub_inv_init intro: pub_inv_step)

section \<open>Two publishers\<close>

definition sample_event :: "string \<Rightarrow> Event" where
  "sample_event d = (new_event d ''a'' ''v'' ''j'')\<lparr>ev_Time := Some 7\<rparr>"

definition sample_begun :: "nat \<Rightarrow> string \<Rightarrow> pub \<Rightarrow> pub" where
  "sample_begun g d s =
     s\<lparr>pb_hub := store_event (sample_event d) (pb_hub s), pb_flight := (pb_flight s)(g := Some (sample_event d, subs s)),
       pb_sent := pb_sent s @ [(g, sample_event d)]\<rparr>"

lemma sample_begin:
  assumes "\<not> panicked s" and "pb_flight s g = None"
  shows "pub_step s (sample_begun g d s)"
proof -
  have "Record_begin 0 (sample_event d) (pb_hub s) = ((sample_event d, subs s), store_event (sample_event d) (pb_hub s))"
    by (simp add: Record_begin_def complete_event_def sample_event_def new_event_def store_event_def Let_def)
  from Begin [OF assms this refl] show ?thesis by (simp add: sample_begun_def)
qed

text \<open>One subscriber, and two goroutines between storing and offering.\<close>

lemma sample_flights:
  "\<exists>s. pub_step\<^sup>*\<^sup>* pub_init s \<and> pb_flight s 0 = Some (sample_event ''p'', [0]) \<and>
     pb_flight s 1 = Some (sample_event ''q'', [0]) \<and> map snd (pb_sent s) = [sample_event ''p'', sample_event ''q''] \<and>
     channel s 0 = make_chan 128 \<and> subs s = [0] \<and> \<not> panicked s \<and> pb_got s 0 = [] \<and> pb_closing s = []"
proof -
  obtain h where h: "Subscribe 128 NewHub = (0, h)" "h_subscribers h = snd (topic_subscribe 128 new_topic)"
    by (simp add: Subscribe_def topic_subscribe_def buffer_size_def) (simp add: NewHub_def new_topic_def)
  let ?a = "pub_init\<lparr>pb_hub := h, pb_from := (pb_from pub_init)(0 := length (pb_sent pub_init))\<rparr>"
  let ?b = "sample_begun 0 ''p'' ?a" and ?c = "sample_begun 1 ''q'' (sample_begun 0 ''p'' ?a)"
  have i: "\<not> panicked pub_init" "Subscribe 128 (pb_hub pub_init) = (0, h)"
    using h(1) by (simp_all add: pub_init_def) (simp add: NewHub_def new_topic_def)
  have a: "pub_step pub_init ?a" using i by (rule Join)
  have pa: "\<not> panicked ?a" "pb_flight ?a 0 = None" "pb_flight ?a 1 = None" "subs ?a = [0]"
    "channel ?a 0 = make_chan 128" "pb_sent ?a = []" "pb_got ?a 0 = []" "pb_closing ?a = []"
    using h(2) by (simp_all add: pub_init_def topic_subscribe_def new_topic_def)
  have b: "pub_step ?a ?b" using pa(1,2) by (rule sample_begin)
  have "pub_step ?b ?c" using pa by (intro sample_begin) (simp_all add: sample_begun_def store_event_def)
  with a b have "pub_step\<^sup>*\<^sup>* pub_init ?c" by (meson converse_rtranclp_into_rtranclp r_into_rtranclp)
  then show ?thesis using pa
    by (intro exI [of _ ?c]) (simp add: sample_begun_def store_event_def)
qed

text \<open>
  Events overtake each other between the log and a subscriber: the goroutine that stored its
  event second offers it first.
\<close>

lemma events_overtake:
  "\<exists>s. pub_step\<^sup>*\<^sup>* pub_init s \<and> h_events (pb_hub s) = [sample_event ''p'', sample_event ''q''] \<and>
     pb_got s 0 @ chan_buf (channel s 0) = [sample_event ''q'', sample_event ''p'']"
proof -
  obtain s where s: "pub_step\<^sup>*\<^sup>* pub_init s" "pb_flight s 0 = Some (sample_event ''p'', [0])"
    "pb_flight s 1 = Some (sample_event ''q'', [0])" "map snd (pb_sent s) = [sample_event ''p'', sample_event ''q'']"
    "channel s 0 = make_chan 128" "\<not> panicked s" "pb_got s 0 = []"
    using sample_flights by (elim exE conjE) (rule that; assumption)
  let ?t = "offer_next 1 (sample_event ''q'') 0 [] s"
  let ?u = "offer_next 0 (sample_event ''p'') 0 [] ?t"
  have t: "pub_step s ?t" using s by (intro Offer) simp_all
  have f: "pb_flight ?t 0 = Some (sample_event ''p'', [0])" "\<not> panicked ?t"
    using s by (simp_all add: offer_next_def topic_offer_effect make_chan_def)
  then have u: "pub_step ?t ?u" by (intro Offer) simp_all
  from s(1) t u have r: "pub_step\<^sup>*\<^sup>* pub_init ?u" by (meson rtranclp.rtrancl_into_rtrancl)
  have "h_events (pb_hub ?u) = keep_last defaultMaxEvents (map snd (pb_sent ?u))"
    using pub_sys.inv_reachable [OF refl r] by (simp add: pub_inv_def)
  moreover have "map snd (pb_sent ?u) = [sample_event ''p'', sample_event ''q'']" using s(4) by (simp add: offer_next_def)
  ultimately have "h_events (pb_hub ?u) = [sample_event ''p'', sample_event ''q'']"
    by (simp add: keep_last_def defaultMaxEvents_def)
  moreover have "pb_got ?u 0 @ chan_buf (channel ?u 0) = [sample_event ''q'', sample_event ''p'']"
    using s(5,7) by (simp add: offer_next_def topic_offer_def chan_try_send_def make_chan_def)
  ultimately show ?thesis using r by blast
qed

section \<open>Properties\<close>

text \<open>
  C30: concurrent publishing. Along every interleaving of any number of publishers with subscribers that come, read
  and go, the event log is the last 1000 events in the order in which they were stored; and what a subscriber received or
  has waiting can be attributed to the publishers so that the events of each publisher come in the order it stored
  them, each at most once, all stored after the subscription.
\<close>

theorem publishers_in_order:
  assumes "pub_step\<^sup>*\<^sup>* pub_init s"
  shows "h_events (pb_hub s) = keep_last defaultMaxEvents (map snd (pb_sent s)) \<and>
    (\<exists>vs. map snd vs = pb_got s i @ chan_buf (channel s i) \<and>
       (\<forall>g. subseq (by_publisher g vs) (by_publisher g (drop (pb_from s i) (pb_sent s)))))"
proof -
  have i: "pub_inv s" using pub_sys.inv_reachable [OF refl assms] .
  have "subseq (by_publisher g (pb_in s i)) (by_publisher g (drop (pb_from s i) (pb_sent s)))" for g
  proof -
    obtain ys where "by_publisher g (drop (pb_from s i) (pb_sent s)) = ys @ pending s g i"
      "subseq (by_publisher g (pb_in s i)) ys"
      using i unfolding pub_inv_def streams_inv_def by blast
    then show ?thesis by (auto intro: list_emb_prefix)
  qed
  with i show ?thesis unfolding pub_inv_def streams_inv_def by blast
qed

text \<open>
  C31: when publishing panics. In every reachable state, a step makes a goroutine panic exactly when it is the
  offer of an event to a channel whose subscriber has removed and closed it since the
  publisher copied the subscribers; closing itself never panics.
\<close>

theorem publish_panics_exactly:
  assumes "pub_step\<^sup>*\<^sup>* pub_init s" and "pub_step s t"
  shows "panicked t \<longleftrightarrow>
    (\<exists>g ev i rest. pb_flight s g = Some (ev, i # rest) \<and> t = offer_next g ev i rest s \<and>
       i \<notin> set (subs s) \<and> i \<notin> set (pb_closing s))"
proof -
  have i: "pub_inv s" using pub_sys.inv_reachable [OF refl assms(1)] .
  have c: "chan_closed (channel s k) \<longleftrightarrow> k \<notin> set (subs s) \<and> k \<notin> set (pb_closing s)"
    if "pb_flight s g = Some (ev, k # rest)" for g ev k rest
  proof -
    have "k < tp_next (h_subscribers (pb_hub s))" using i that unfolding pub_inv_def channels_inv_def by fastforce
    with i show ?thesis by (simp add: pub_inv_def channels_inv_def)
  qed
  have p: "panicked (offer_next g ev k rest s) \<longleftrightarrow> panicked s \<or> chan_closed (channel s k)" for g ev k rest
    by (simp add: offer_next_def topic_offer_effect)
  have n: "\<not> panicked s" using assms(2) by cases simp_all
  show ?thesis
  proof
    assume "panicked t"
    with assms(2) show "\<exists>g ev i rest. pb_flight s g = Some (ev, i # rest) \<and> t = offer_next g ev i rest s \<and>
        i \<notin> set (subs s) \<and> i \<notin> set (pb_closing s)"
    proof cases
      case (Offer g ev k rest)
      with \<open>panicked t\<close> p c n show ?thesis by blast
    next
      case (Close k)
      with \<open>panicked t\<close> closing_open [OF i] show ?thesis by (simp add: Unsubscribe_close_def topic_close_def)
    qed (auto simp: Record_begin_parts Unsubscribe_remove_def topic_remove_def Subscribe_def topic_subscribe_def
        topic_receive_def chan_recv_def split: list.splits if_splits)
  next
    assume "\<exists>g ev i rest. pb_flight s g = Some (ev, i # rest) \<and> t = offer_next g ev i rest s \<and>
        i \<notin> set (subs s) \<and> i \<notin> set (pb_closing s)"
    with p c show "panicked t" by blast
  qed
qed

theorem publishers_in_order_witness:
  "\<exists>s vs. pub_step\<^sup>*\<^sup>* pub_init s \<and> map snd vs = [sample_event ''q'', sample_event ''p''] \<and>
     h_events (pb_hub s) = [sample_event ''p'', sample_event ''q''] \<and>
     (\<forall>g. subseq (by_publisher g vs) (by_publisher g (drop (pb_from s 0) (pb_sent s))))"
proof -
  obtain s where s: "pub_step\<^sup>*\<^sup>* pub_init s" "h_events (pb_hub s) = [sample_event ''p'', sample_event ''q'']"
    "pb_got s 0 @ chan_buf (channel s 0) = [sample_event ''q'', sample_event ''p'']"
    using events_overtake by blast
  from publishers_in_order [OF s(1), of 0] obtain vs where "map snd vs = pb_got s 0 @ chan_buf (channel s 0)"
    "\<forall>g. subseq (by_publisher g vs) (by_publisher g (drop (pb_from s 0) (pb_sent s)))" by blast
  with s show ?thesis by (intro exI [of _ s] exI [of _ vs]) (simp only: simp_thms)
qed

theorem publish_panics_witness:
  "\<exists>s t. pub_step\<^sup>*\<^sup>* pub_init s \<and> pub_step s t \<and> panicked t"
proof -
  obtain s where s: "pub_step\<^sup>*\<^sup>* pub_init s" "pb_flight s 0 = Some (sample_event ''p'', [0])" "subs s = [0]" "\<not> panicked s"
    "pb_closing s = []" "channel s 0 = make_chan 128"
    using sample_flights by (elim exE conjE) (rule that; assumption)
  let ?t = "s\<lparr>pb_hub := Unsubscribe_remove 0 (pb_hub s), pb_closing := 0 # pb_closing s\<rparr>"
  let ?u = "?t\<lparr>pb_hub := Unsubscribe_close 0 (pb_hub ?t), pb_closing := remove1 0 (pb_closing ?t)\<rparr>"
  have t: "pub_step s ?t" using s by (intro Leave) simp_all
  have pt: "\<not> panicked ?t" using s(4) by (simp add: Unsubscribe_remove_def topic_remove_def)
  then have u: "pub_step ?t ?u" by (intro Close) simp_all
  have pu: "\<not> panicked ?u" "pb_flight ?u 0 = Some (sample_event ''p'', [0])" "subs ?u = []" "pb_closing ?u = []"
    using s by (simp_all add: Unsubscribe_remove_def Unsubscribe_close_def topic_remove_def topic_close_def make_chan_def)
  let ?v = "offer_next 0 (sample_event ''p'') 0 [] ?u"
  from s(1) t u have r: "pub_step\<^sup>*\<^sup>* pub_init ?u" by (meson rtranclp.rtrancl_into_rtrancl)
  have v: "pub_step ?u ?v" using pu(1,2) by (intro Offer)
  have "panicked ?v"
    using publish_panics_exactly [OF r v] pu by (metis empty_iff empty_set)
  with r v show ?thesis by blast
qed

end
