(* ===== verification/WebServer.thy ===== *)
theory WebServer
  imports HubProps "HOL-Library.Sublist" "HOL-Library.Multiset"
begin

text \<open>
  The HTTP handlers of \<open>internal/webui/server.go\<close>: the snapshot, the two chat requests
  and the event stream. A request is its method and, for \<open>handleChatSend\<close>, the decoded
  body (\<^const>\<open>None\<close>: the JSON decoder fails). A response is an error text with its status
  code, or the value handed to the JSON encoder. The encoder fails on a number that is not
  finite, and the only such numbers are the signal-to-noise ratios of the nodes; then
  \<open>writeJSON\<close> sends an empty body and the event stream skips the message. Where a handler
  takes the hub's lock several times, every critical section has its own hub as an argument.

  \<open>sort.Slice\<close> is not stable; the keys it sorts by here are distinct, so that there is only
  one sorted permutation, and \<^const>\<open>sort_key\<close> computes it.
\<close>

section \<open>JSON\<close>

text \<open>Finite IEEE single: the exponent is not all ones.\<close>

definition f32_finite :: "f32 \<Rightarrow> bool" where
  "f32_finite x \<longleftrightarrow> take_bit 8 (drop_bit 23 x) \<noteq> 0xFF"

definition json_nodes_ok :: "NodeView list \<Rightarrow> bool" where
  "json_nodes_ok ns \<longleftrightarrow> list_all (\<lambda>n. f32_finite (nv_Snr n)) ns"

record snapshot =
  sn_events :: "Event list"
  sn_channels :: "ChannelInfo list"
  sn_nodes :: "NodeView list"
  sn_status :: Status
  sn_chats :: "ChatMessage list"

datatype json_body =
    SnapshotBody snapshot
  | ChatFailed go_error
  | ChatOk ChatMessage
  | CannedFailed go_error
  | CannedOk "string list"

datatype http_response = HttpError nat string | HttpJSON json_body | HttpEmpty

definition json_ok :: "json_body \<Rightarrow> bool" where
  "json_ok v = (case v of SnapshotBody s \<Rightarrow> json_nodes_ok (sn_nodes s) | _ \<Rightarrow> True)"

definition writeJSON :: "json_body \<Rightarrow> http_response" where
  "writeJSON v = (if json_ok v then HttpJSON v else HttpEmpty)"

definition method_not_allowed :: http_response where
  "method_not_allowed = HttpError 405 ''method not allowed''"

section \<open>The snapshot\<close>

definition sort_channels :: "ChannelInfo list \<Rightarrow> ChannelInfo list" where
  "sort_channels cs = sort_key (\<lambda>c. sint (ci_Index c)) cs"

definition sort_nodes :: "NodeView list \<Rightarrow> NodeView list" where
  "sort_nodes ns = sort_key (\<lambda>n. uint (nv_Num n)) ns"

definition take_snapshot :: "int \<Rightarrow> hub \<Rightarrow> hub \<Rightarrow> hub \<Rightarrow> snapshot" where
  "take_snapshot now h1 h2 h3 =
     (case Snapshot h1 of (events, channels, status) \<Rightarrow>
        \<lparr>sn_events = events, sn_channels = sort_channels channels,
         sn_nodes = sort_nodes (SnapshotNodes now h2), sn_status = status,
         sn_chats = SnapshotChat h3\<rparr>)"

definition handleSnapshot :: "int \<Rightarrow> string \<Rightarrow> hub \<Rightarrow> hub \<Rightarrow> hub \<Rightarrow> http_response" where
  "handleSnapshot now reqMethod h1 h2 h3 =
     (if reqMethod \<noteq> ''GET'' then method_not_allowed
      else writeJSON (SnapshotBody (take_snapshot now h1 h2 h3)))"

section \<open>Chat requests\<close>

record chatSendRequest =
  csr_Channel :: i32
  csr_To :: u32
  csr_Text :: string

definition handleChatSend ::
  "webenv \<Rightarrow> 'b env_scheme \<Rightarrow> string \<Rightarrow> chatSendRequest option \<Rightarrow> radio_ref \<Rightarrow> hub \<Rightarrow>
     (http_response \<times> radio_ref \<times> hub) call" where
  "handleChatSend W E reqMethod body r h =
     (if reqMethod \<noteq> ''POST'' then Returned (method_not_allowed, r, h)
      else (case body of
          None \<Rightarrow> Returned (HttpError 400 ''invalid json'', r, h)
        | Some req \<Rightarrow>
            let to = (if csr_To req = 0 then webui_BroadcastNode else csr_To req) in
            (case SendChat W E (csr_Channel req) to (csr_Text req) r h of
               Returned (Inl err, r1, h1) \<Rightarrow> Returned (writeJSON (ChatFailed err), r1, h1)
             | Returned (Inr msg, r1, h1) \<Rightarrow> Returned (writeJSON (ChatOk msg), r1, h1)
             | Panicked \<Rightarrow> Panicked
             | Drawing \<Rightarrow> Drawing)))"

definition canned_response :: "go_error + string list \<Rightarrow> http_response" where
  "canned_response res =
     (case res of Inl err \<Rightarrow> writeJSON (CannedFailed err) | Inr msgs \<Rightarrow> writeJSON (CannedOk msgs))"

text \<open>Either answered at once or waiting for the radio with a packet id and a channel.\<close>

definition handleChatCanned ::
  "webenv \<Rightarrow> 'b env_scheme \<Rightarrow> string \<Rightarrow> radio_ref \<Rightarrow> hub \<Rightarrow>
     ((http_response + u32 \<times> nat) \<times> radio_ref \<times> hub) call" where
  "handleChatCanned W E reqMethod r h =
     (if reqMethod \<noteq> ''GET'' then Returned (Inl method_not_allowed, r, h)
      else (case FetchCanned W E r h of
          Returned (FetchDone res, r1, h1) \<Rightarrow> Returned (Inl (canned_response res), r1, h1)
        | Returned (FetchWaiting pktID ch, r1, h1) \<Rightarrow> Returned (Inr (pktID, ch), r1, h1)
        | Panicked \<Rightarrow> Panicked
        | Drawing \<Rightarrow> Drawing))"

definition handleChatCanned_end ::
  "fetch_case \<Rightarrow> u32 \<Rightarrow> nat \<Rightarrow> broker \<Rightarrow> http_response \<times> broker" where
  "handleChatCanned_end w pktID ch b =
     (case FetchCanned_end w pktID ch b of (res, b1) \<Rightarrow> (canned_response res, b1))"

section \<open>The event stream\<close>

datatype sse_frame =
    SseSnapshot snapshot | SseMessage Event | SseChat ChatMessage | SseNodes "NodeView list"

text \<open>The handler's three subscriptions and what it has written.\<close>

record sse_stream =
  ss_ev :: nat
  ss_chat :: nat
  ss_node :: nat
  ss_out :: "sse_frame list"

definition handleEvents_refusal :: "string \<Rightarrow> bool \<Rightarrow> http_response option" where
  "handleEvents_refusal reqMethod flusher =
     (if reqMethod \<noteq> ''GET'' then Some method_not_allowed
      else if \<not> flusher then Some (HttpError 500 ''streaming unsupported'') else None)"

definition handleEvents_snapshot :: "int \<Rightarrow> hub \<Rightarrow> hub \<Rightarrow> hub \<Rightarrow> sse_frame list" where
  "handleEvents_snapshot now h1 h2 h3 =
     (let s = take_snapshot now h1 h2 h3
      in if json_ok (SnapshotBody s) then [SseSnapshot s] else [])"

definition handleEvents_subscribe :: "sse_frame list \<Rightarrow> hub \<Rightarrow> sse_stream \<times> hub" where
  "handleEvents_subscribe out h =
     (case Subscribe 128 h of (ev, h1) \<Rightarrow>
       case SubscribeChat 64 h1 of (chat, h2) \<Rightarrow>
         case SubscribeNodes 16 h2 of (node, h3) \<Rightarrow>
           (\<lparr>ss_ev = ev, ss_chat = chat, ss_node = node, ss_out = out\<rparr>, h3))"

text \<open>The deferred calls, last first.\<close>

definition handleEvents_return :: "sse_stream \<Rightarrow> hub \<Rightarrow> hub" where
  "handleEvents_return s h = Unsubscribe (ss_ev s) (UnsubscribeChat (ss_chat s) (UnsubscribeNodes (ss_node s) h))"

datatype sse_case = SseCtxDone | SseEvCh | SseChatCh | SseNodeCh

datatype sse_turn = SseBlocked | SseReturn hub | SseLoop sse_stream hub

text \<open>One turn of the loop; \<^const>\<open>SseBlocked\<close>: that case of the \<open>select\<close> is not ready.\<close>

definition handleEvents_turn :: "sse_case \<Rightarrow> sse_stream \<Rightarrow> hub \<Rightarrow> sse_turn" where
  "handleEvents_turn c s h =
     (case c of
        SseCtxDone \<Rightarrow> SseReturn (handleEvents_return s h)
      | SseEvCh \<Rightarrow>
          (case topic_receive (ss_ev s) (h_subscribers h) of
             (RecvValue ev, t) \<Rightarrow>
               SseLoop (s\<lparr>ss_out := ss_out s @ [SseMessage ev]\<rparr>) (h\<lparr>h_subscribers := t\<rparr>)
           | (RecvClosed, t) \<Rightarrow> SseReturn (handleEvents_return s (h\<lparr>h_subscribers := t\<rparr>))
           | (RecvBlocks, t) \<Rightarrow> SseBlocked)
      | SseChatCh \<Rightarrow>
          (case topic_receive (ss_chat s) (h_chatSubs h) of
             (RecvValue msg, t) \<Rightarrow>
               SseLoop (s\<lparr>ss_out := ss_out s @ [SseChat msg]\<rparr>) (h\<lparr>h_chatSubs := t\<rparr>)
           | (RecvClosed, t) \<Rightarrow> SseReturn (handleEvents_return s (h\<lparr>h_chatSubs := t\<rparr>))
           | (RecvBlocks, t) \<Rightarrow> SseBlocked)
      | SseNodeCh \<Rightarrow>
          (case topic_receive (ss_node s) (h_nodeSubs h) of
             (RecvValue ns, t) \<Rightarrow>
               let nodes = sort_nodes ns in
               SseLoop (if json_nodes_ok nodes then s\<lparr>ss_out := ss_out s @ [SseNodes nodes]\<rparr> else s)
                 (h\<lparr>h_nodeSubs := t\<rparr>)
           | (RecvClosed, t) \<Rightarrow> SseReturn (handleEvents_return s (h\<lparr>h_nodeSubs := t\<rparr>))
           | (RecvBlocks, t) \<Rightarrow> SseBlocked))"


section \<open>Sorting\<close>

lemma sort_key_unique:
  assumes "distinct (map f xs)" and "mset ys = mset xs" and "sorted (map f ys)"
  shows "ys = sort_key f xs"
proof -
  have ms: "mset ys = mset (sort_key f xs)" using assms(2) by simp
  have set: "set ys = set (sort_key f xs)" using ms by (metis set_mset_mset)
  have inj: "inj_on f (set ys)" and d: "distinct (map f ys)"
    using assms(1,2) by (metis distinct_map set_mset_mset, metis assms(1,2) mset_map mset_eq_imp_distinct_iff)
  have "distinct (map f (sort_key f xs))"
    using assms(1) by (metis mset_map mset_sort mset_eq_imp_distinct_iff)
  with inj d set assms(3) show ?thesis
    by (intro map_sorted_distinct_set_unique [of f]) simp_all
qed

lemma sort_key_strict:
  assumes "distinct (map f xs)"
  shows "sorted_wrt (<) (map f (sort_key f xs))"
proof -
  have "distinct (map f (sort_key f xs))"
    using assms by (metis mset_map mset_sort mset_eq_imp_distinct_iff)
  then show ?thesis by (simp add: strict_sorted_iff)
qed

lemma channel_keys:
  assumes "hub_ok h"
  shows "distinct (map (\<lambda>c. sint (ci_Index c)) (map snd (h_channels h)))"
proof -
  have "map (\<lambda>c. sint (ci_Index c)) (map snd (h_channels h)) = map sint (map fst (h_channels h))"
    using assms by (auto simp: hub_ok_def)
  moreover have "inj_on (sint :: i32 \<Rightarrow> int) A" for A by (intro inj_onI) (rule signed_word_eqI)
  ultimately show ?thesis using assms by (simp add: hub_ok_def gomap_ok_def distinct_map del: map_map)
qed

lemma node_nums: "hub_ok h \<Longrightarrow> map nv_Num (SnapshotNodes now h) = map fst (h_nodes h)"
  by (auto simp: SnapshotNodes_def hub_ok_def Let_def)

lemma node_keys:
  assumes "hub_ok h"
  shows "distinct (map (\<lambda>n. uint (nv_Num n)) (SnapshotNodes now h))"
proof -
  have "map (\<lambda>n. uint (nv_Num n)) (SnapshotNodes now h) = map uint (map fst (h_nodes h))"
    by (simp only: node_nums [OF assms, of now, symmetric] map_map comp_def)
  moreover have "inj_on (uint :: u32 \<Rightarrow> int) A" for A by (intro inj_onI) (rule unsigned_word_eqI)
  ultimately show ?thesis using assms by (simp add: hub_ok_def gomap_ok_def distinct_map del: map_map)
qed


section \<open>What a step of the hub does to the event log and a subscriber\<close>

definition waiting :: "nat \<Rightarrow> hub \<Rightarrow> Event list" where
  "waiting i h = chan_buf (tp_chans (h_subscribers h) i)"

text \<open>
  \<^term>\<open>evs\<close> are recorded between the two states, and the subscriber \<^term>\<open>i\<close> gets some of
  them, in order.
\<close>

definition recorded :: "nat \<Rightarrow> Event list \<Rightarrow> hub \<Rightarrow> hub \<Rightarrow> bool" where
  "recorded i evs h h' \<longleftrightarrow>
     h_maxEvents h' = h_maxEvents h \<and>
     h_events h' = keep_last (h_maxEvents h) (h_events h @ evs) \<and>
     i \<in> set (tp_subs (h_subscribers h')) \<and>
     (\<exists>got. waiting i h' = waiting i h @ got \<and> subseq got evs)"

lemma recorded_none:
  assumes "i \<in> set (tp_subs (h_subscribers h'))" and "length (h_events h) \<le> h_maxEvents h"
    and "h_events h' = h_events h" and "h_maxEvents h' = h_maxEvents h" and "waiting i h' = waiting i h"
  shows "recorded i [] h h'"
  using assms by (simp add: recorded_def keep_last_def)

lemma recorded_one:
  assumes "topic_ok (h_subscribers h)" and "i \<in> set (tp_subs (h_subscribers h))"
    and "h_events h0 = h_events h" "h_maxEvents h0 = h_maxEvents h" "h_subscribers h0 = h_subscribers h"
  shows "\<exists>e. recorded i [e] h (Record now ev h0)"
  using assms
  by (intro exI [of _ "complete_event now ev h0"])
    (auto simp: recorded_def Record_eq Let_def store_event_def topic_publish_open waiting_def grown_def)

lemma event_frame [simp]:
  "h_events (cachePacketProto W p h) = h_events h" "h_maxEvents (cachePacketProto W p h) = h_maxEvents h"
  "h_subscribers (cachePacketProto W p h) = h_subscribers h"
  "h_events (touchNodeActivity now num snr at h) = h_events h"
  "h_maxEvents (touchNodeActivity now num snr at h) = h_maxEvents h"
  "h_subscribers (touchNodeActivity now num snr at h) = h_subscribers h"
  "h_events (UpdateChannel now i nm role h) = h_events h"
  "h_maxEvents (UpdateChannel now i nm role h) = h_maxEvents h"
  "h_subscribers (UpdateChannel now i nm role h) = h_subscribers h"
  "h_events (UpdateNodeFromInfo W now info h) = h_events h"
  "h_maxEvents (UpdateNodeFromInfo W now info h) = h_maxEvents h"
  "h_subscribers (UpdateNodeFromInfo W now info h) = h_subscribers h"
  "h_events (SetLocalNodeNum now n h) = h_events h" "h_maxEvents (SetLocalNodeNum now n h) = h_maxEvents h"
  "h_subscribers (SetLocalNodeNum now n h) = h_subscribers h"
  "h_events (SetStatus now st h) = h_events h" "h_maxEvents (SetStatus now st h) = h_maxEvents h"
  "h_subscribers (SetStatus now st h) = h_subscribers h"
  "h_events (RecordChat now msg h) = h_events h" "h_maxEvents (RecordChat now msg h) = h_maxEvents h"
  "h_subscribers (RecordChat now msg h) = h_subscribers h"
  by (auto simp: cachePacketProto_def touchNodeActivity_def notifyNodes_def SetStatus_def UpdateChannel_def
      UpdateNodeFromInfo_def SetLocalNodeNum_def RecordChat_def mergeDuplicateChat_def notifyChat_def
      store_chat_def Let_def split: option.split)

lemma event_frame_packet:
  assumes "observe_packet W now l ev pkt h = (ev1, h1)"
  shows "h_events h1 = h_events h" "h_maxEvents h1 = h_maxEvents h" "h_subscribers h1 = h_subscribers h"
  using assms
  by (auto simp: observe_packet_def enrichPacketEvent_def tryRecordChatPacket_def
      TryRecordChatFromPacket_def Let_def split: option.splits if_splits prod.splits)

text \<open>Observing a decoded frame records exactly one event.\<close>

lemma observeFromRadio_records:
  assumes "topic_ok (h_subscribers h)" and "i \<in> set (tp_subs (h_subscribers h))"
  shows "\<exists>ev. recorded i [ev] h (observeFromRadio W now l d a frame h)"
  unfolding observeFromRadio_def Let_def
  by (auto intro!: recorded_one [OF assms] dest: event_frame_packet
        split: option.splits FromRadio_PayloadVariant.splits prod.splits)

lemma observeToRadio_records:
  assumes "topic_ok (h_subscribers h)" and "i \<in> set (tp_subs (h_subscribers h))"
  shows "\<exists>ev. recorded i [ev] h (observeToRadio W now l d a frame h)"
  unfolding observeToRadio_def Let_def
  by (auto intro!: recorded_one [OF assms] dest: event_frame_packet
        split: option.splits ToRadio_PayloadVariant.splits prod.splits)

lemma apply_records:
  assumes "hub_ok h" and "i \<in> set (tp_subs (h_subscribers h))"
  shows "\<exists>evs. recorded i evs h (hub_apply W E now l c h)"
proof -
  have t: "topic_ok (h_subscribers h)" using assms(1) by (rule hub_ok_topics)
  have none: "\<exists>evs. recorded i evs h h'"
    if "h_events h' = h_events h" "h_maxEvents h' = h_maxEvents h" "h_subscribers h' = h_subscribers h" for h'
    using that assms by (intro exI [of _ "[]"] recorded_none) (simp_all add: waiting_def hub_ok_def)
  show ?thesis
  proof (cases c)
    case (HubObserve d a p fr)
    then show ?thesis
      using none observeFromRadio_records [OF t assms(2)] observeToRadio_records [OF t assms(2)]
      by (auto simp: ObservePayload_def split: option.split) blast+
  qed (simp add: none)
qed

lemma step_records:
  assumes "hub_step W E a h h'" and "hub_ok h" and "i \<in> set (tp_subs (h_subscribers h))"
    and "a \<noteq> EventReader i"
  shows "\<exists>evs. recorded i evs h h'"
  using assms
proof (induction rule: hub_step.induct)
  case (Call h now l c)
  then show ?case by (simp add: apply_records)
next
  case (SubEvents n h j h')
  then have "i \<noteq> tp_next (h_subscribers h)"
    using hub_ok_topics(1) [of h] by (auto simp: topic_ok_def)
  with SubEvents show ?case
    by (intro exI [of _ "[]"] recorded_none)
      (auto simp: Subscribe_def topic_subscribe_def waiting_def hub_ok_def)
next
  case (UnsubEvents j h)
  then show ?case
    by (intro exI [of _ "[]"] recorded_none)
      (auto simp: Unsubscribe_def topic_unsub_def topic_close_def topic_remove_def waiting_def hub_ok_def)
next
  case (RecvEvents j h)
  then show ?case
    by (intro exI [of _ "[]"] recorded_none)
      (auto simp: topic_receive_def waiting_def hub_ok_def split: prod.split)
qed (auto intro!: exI [of _ "[]"] recorded_none simp: waiting_def hub_ok_def SubscribeChat_def
      SubscribeNodes_def UnsubscribeChat_def UnsubscribeNodes_def topic_subscribe_def)


section \<open>Runs of a stream\<close>

inductive sse_step :: "webenv \<Rightarrow> codec \<Rightarrow> sse_stream \<times> hub \<Rightarrow> sse_stream \<times> hub \<Rightarrow> bool" for W :: webenv and E :: codec where
  Turn: "handleEvents_turn c s h = SseLoop s' h' \<Longrightarrow> sse_step W E (s, h) (s', h')"
| Elsewhere: "hub_step W E a h h' \<Longrightarrow>
    a \<notin> {EventReader (ss_ev s), ChatReader (ss_chat s), NodeReader (ss_node s)} \<Longrightarrow>
    sse_step W E (s, h) (s, h')"

inductive_cases sse_stepE: "sse_step W E (s, h) q"

definition messages :: "sse_frame list \<Rightarrow> Event list" where
  "messages out = concat (map (\<lambda>f. case f of SseMessage ev \<Rightarrow> [ev] | _ \<Rightarrow> []) out)"

lemma messages_append [simp]: "messages (xs @ ys) = messages xs @ messages ys"
  by (simp add: messages_def)

lemma messages_simps [simp]:
  "messages [] = []" "messages [SseMessage ev] = [ev]" "messages [SseSnapshot s] = []"
  "messages [SseChat m] = []" "messages [SseNodes ns] = []"
  by (simp_all add: messages_def)

text \<open>The events written and waiting are some of those recorded since \<^term>\<open>log0\<close>.\<close>

definition stream_ok :: "Event list \<Rightarrow> sse_stream \<times> hub \<Rightarrow> bool" where
  "stream_ok log0 q \<longleftrightarrow>
     (case q of (s, h) \<Rightarrow>
        hub_ok h \<and> ss_ev s \<in> set (tp_subs (h_subscribers h)) \<and>
        (\<exists>evs. h_events h = keep_last defaultMaxEvents (log0 @ evs) \<and>
               subseq (messages (ss_out s) @ waiting (ss_ev s) h) evs))"

lemma turn_stream_ok:
  assumes "handleEvents_turn c s h = SseLoop s' h'" and "stream_ok log0 (s, h)"
  shows "stream_ok log0 (s', h')"
proof -
  have ok: "hub_ok h" using assms(2) by (simp add: stream_ok_def)
  note topics = hub_ok_topics [OF ok]
  have ok': "hub_ok h'"
  proof (cases c)
    case SseEvCh
    then show ?thesis using assms(1) hub_ok_subs(1) [OF ok topic_ok_receive [OF topics(1)], of "ss_ev s"]
      by (auto simp: handleEvents_turn_def split: prod.splits recv_result.splits)
  next
    case SseChatCh
    then show ?thesis using assms(1) hub_ok_subs(2) [OF ok topic_ok_receive [OF topics(2)], of "ss_chat s"]
      by (auto simp: handleEvents_turn_def split: prod.splits recv_result.splits)
  next
    case SseNodeCh
    then show ?thesis using assms(1) hub_ok_subs(3) [OF ok topic_ok_receive [OF topics(3)], of "ss_node s"]
      by (auto simp: handleEvents_turn_def Let_def split: prod.splits recv_result.splits)
  qed (use assms(1) in \<open>simp add: handleEvents_turn_def\<close>)
  have "h_events h' = h_events h \<and> ss_ev s' = ss_ev s \<and>
      tp_subs (h_subscribers h') = tp_subs (h_subscribers h) \<and>
      messages (ss_out s') @ waiting (ss_ev s) h' = messages (ss_out s) @ waiting (ss_ev s) h"
    using assms(1)
    by (cases c) (auto simp: handleEvents_turn_def Let_def topic_receive_def chan_recv_def waiting_def
        split: prod.splits recv_result.splits list.splits if_splits)
  then have e: "h_events h' = h_events h" "ss_ev s' = ss_ev s"
      "tp_subs (h_subscribers h') = tp_subs (h_subscribers h)"
      "messages (ss_out s') @ waiting (ss_ev s) h' = messages (ss_out s) @ waiting (ss_ev s) h"
    by simp_all
  from ok' assms(2) show ?thesis by (simp add: stream_ok_def e)
qed

lemma elsewhere_stream_ok:
  assumes "hub_step W E a h h'" and "webenv_ok W" and "a \<noteq> EventReader (ss_ev s)" and "stream_ok log0 (s, h)"
  shows "stream_ok log0 (s, h')"
proof -
  from assms(4) obtain evs where ok: "hub_ok h" "ss_ev s \<in> set (tp_subs (h_subscribers h))"
    and log: "h_events h = keep_last defaultMaxEvents (log0 @ evs)"
    and sub: "subseq (messages (ss_out s) @ waiting (ss_ev s) h) evs"
    by (auto simp: stream_ok_def)
  from step_records [OF assms(1) ok assms(3)] obtain new got where
    new: "h_events h' = keep_last (h_maxEvents h) (h_events h @ new)"
    and sub': "ss_ev s \<in> set (tp_subs (h_subscribers h'))"
    and got: "waiting (ss_ev s) h' = waiting (ss_ev s) h @ got" "subseq got new"
    by (auto simp: recorded_def)
  have "h_maxEvents h = defaultMaxEvents" using ok(1) by (simp add: hub_ok_def)
  then have "h_events h' = keep_last defaultMaxEvents (log0 @ (evs @ new))"
    using new log by (simp add: keep_last_keep)
  moreover have "subseq (messages (ss_out s) @ waiting (ss_ev s) h') (evs @ new)"
    using list_emb_append_mono [OF sub got(2)] by (simp add: got(1))
  ultimately show ?thesis
    using hub_ok_step [OF assms(1,2) ok(1)] sub' by (auto simp: stream_ok_def)
qed

interpretation sse_sys: invariant_system
  "stream_ok log0" "\<lambda>q q'. webenv_ok W \<and> sse_step W E q q'" "stream_ok log0" for W E log0
proof unfold_locales
  fix q q' assume "stream_ok log0 q" and "webenv_ok W \<and> sse_step W E q q'"
  moreover obtain s h where "q = (s, h)" by fastforce
  ultimately show "stream_ok log0 q'"
    by (auto elim!: sse_stepE intro: turn_stream_ok elsewhere_stream_ok)
qed

lemma subscribe_stream_ok:
  assumes "hub_ok h" and "handleEvents_subscribe out h = (s, h')" and "messages out = []"
  shows "stream_ok (h_events h) (s, h')"
proof -
  obtain ev h1 where 1: "Subscribe 128 h = (ev, h1)" by fastforce
  obtain chat h2 where 2: "SubscribeChat 64 h1 = (chat, h2)" by fastforce
  obtain node h3 where 3: "SubscribeNodes 16 h2 = (node, h3)" by fastforce
  have ok: "hub_ok h3"
    using hub_ok_Subscribe(1) [OF assms(1), of 128] hub_ok_Subscribe(2) [of h1 64]
      hub_ok_Subscribe(3) [of h2 16] 1 2 3 by simp
  have e: "h_events h3 = h_events h" "length (h_events h) \<le> defaultMaxEvents"
    "ev \<in> set (tp_subs (h_subscribers h3))" "waiting ev h3 = []"
    using 1 2 3 assms(1)
    by (auto simp: Subscribe_def SubscribeChat_def SubscribeNodes_def topic_subscribe_def hub_ok_def
        waiting_def make_chan_def)
  have "s = \<lparr>ss_ev = ev, ss_chat = chat, ss_node = node, ss_out = out\<rparr>" "h' = h3"
    using assms(2) 1 2 3 by (simp_all add: handleEvents_subscribe_def)
  with ok e assms(3) show ?thesis
    by (auto simp: stream_ok_def keep_last_def intro!: exI [of _ "[]"])
qed


section \<open>Properties\<close>

text \<open>
  C37: the snapshot of the web UI. In a well-formed hub whose signal-to-noise ratios are
  numbers, a \<open>GET\<close> is answered with the event log, every channel of the table in
  ascending order of its index, and every node in ascending order of its number; the order
  is the only sorted one, so that it does not matter that \<open>sort.Slice\<close> is not stable nor
  in which order the maps are iterated.
\<close>

theorem snapshot_sorted:
  assumes "hub_ok h1" and "hub_ok h2" and "json_nodes_ok (SnapshotNodes now h2)"
    and "s = take_snapshot now h1 h2 h3"
  shows "handleSnapshot now ''GET'' h1 h2 h3 = HttpJSON (SnapshotBody s) \<and> sn_events s = h_events h1 \<and>
    sorted_wrt (<) (map (\<lambda>c. sint (ci_Index c)) (sn_channels s)) \<and>
    mset (sn_channels s) = mset (map snd (h_channels h1)) \<and>
    sorted_wrt (<) (map (\<lambda>n. uint (nv_Num n)) (sn_nodes s)) \<and>
    set (map nv_Num (sn_nodes s)) = dom (map_of (h_nodes h2)) \<and>
    (\<forall>cs. mset cs = mset (map snd (h_channels h1)) \<and> sorted (map (\<lambda>c. sint (ci_Index c)) cs) \<longrightarrow>
       cs = sn_channels s) \<and>
    (\<forall>ns. mset ns = mset (SnapshotNodes now h2) \<and> sorted (map (\<lambda>n. uint (nv_Num n)) ns) \<longrightarrow>
       ns = sn_nodes s)"
proof -
  have c: "sn_channels s = sort_key (\<lambda>c. sint (ci_Index c)) (map snd (h_channels h1))"
    and n: "sn_nodes s = sort_key (\<lambda>n. uint (nv_Num n)) (SnapshotNodes now h2)"
    and e: "sn_events s = h_events h1"
    by (simp_all add: assms(4) take_snapshot_def Snapshot_def sort_channels_def sort_nodes_def)
  have "json_ok (SnapshotBody s)" using assms(3) by (simp add: json_ok_def json_nodes_ok_def n list_all_iff)
  then have r: "handleSnapshot now ''GET'' h1 h2 h3 = HttpJSON (SnapshotBody s)"
    by (simp add: handleSnapshot_def writeJSON_def assms(4))
  have d: "set (map nv_Num (sn_nodes s)) = dom (map_of (h_nodes h2))"
    using arg_cong [OF node_nums [OF assms(2), of now], of set]
    by (simp add: n dom_map_of_conv_image_fst)
  note ck = channel_keys [OF assms(1)] and nk = node_keys [OF assms(2), of now]
  show ?thesis
    unfolding c n
    by (intro conjI allI impI r e sort_key_strict ck nk mset_sort d [unfolded n])
      (auto intro: sort_key_unique ck nk)
qed

theorem snapshot_sorted_witness:
  "\<exists>s. handleSnapshot 0 ''GET'' NewHub NewHub NewHub = HttpJSON (SnapshotBody s) \<and> sn_nodes s = []"
proof -
  have "json_nodes_ok (SnapshotNodes 0 NewHub)"
    by (simp add: SnapshotNodes_def NewHub_def json_nodes_ok_def)
  from snapshot_sorted [OF hub_ok_New hub_ok_New this refl, of NewHub]
  show ?thesis by (simp add: NewHub_def)
qed



text \<open>
  A signal-to-noise ratio that is not a number. Once a packet carries one, the JSON
  encoder rejects every list with its sender: \<open>/api/snapshot\<close> answers with an empty body, an
  event stream starts without a snapshot, and no list of nodes reaches a browser.
\<close>

lemma nan_breaks_snapshot:
  assumes "\<not> f32_finite snr" and "num \<noteq> 0" and "num \<noteq> 0xFFFFFFFF"
    and "h2 = touchNodeActivity now num snr at h"
  shows "handleSnapshot now' ''GET'' h1 h2 h3 = HttpEmpty \<and> handleEvents_snapshot now' h1 h2 h3 = [] \<and>
    \<not> json_nodes_ok (sort_nodes (SnapshotNodes now' h2))"
proof -
  have nz: "f32_nonzero snr" using assms(1) by (auto simp: f32_nonzero_def f32_finite_def)
  let ?n = "touched_node num snr at (h_localNodeNum h) (the_node num h)"
  have "nv_Snr ?n = snr" using nz by (simp add: touched_node_def Let_def)
  moreover have "(num, ?n) \<in> set (h_nodes h2)"
    using assms(2,3) by (auto simp: assms(4) touchNodeActivity_def notifyNodes_def intro!: map_of_SomeD
        simp: update_conv')
  ultimately have "\<not> json_nodes_ok (sort_nodes (SnapshotNodes now' h2))"
    using assms(1) by (force simp: json_nodes_ok_def sort_nodes_def SnapshotNodes_def list_all_iff Let_def)
  then show ?thesis
    by (simp add: handleSnapshot_def writeJSON_def json_ok_def take_snapshot_def Snapshot_def
        handleEvents_snapshot_def Let_def)
qed

lemma nan_witness:
  "handleSnapshot 0 ''GET'' NewHub (touchNodeActivity 0 5 0x7FC00000 0 NewHub) NewHub = HttpEmpty"
  using nan_breaks_snapshot [of "0x7FC00000" 5 _ 0 0 NewHub 0 NewHub NewHub]
  by (simp add: f32_finite_def)

end
