(* ===== verification/Utf8.thy ===== *)
theory Utf8
  imports GoStrings
begin

text \<open>
  UTF-8 as Go's \<open>unicode/utf8\<close> and \<open>encoding/json\<close> see it, on strings of bytes: the well-formed
  sequence at the front of a string, validity, and the encoding of a code point.
\<close>

abbreviation (input) byte_of :: "char \<Rightarrow> nat" where "byte_of c \<equiv> of_char c"

definition within :: "nat \<Rightarrow> nat \<Rightarrow> char \<Rightarrow> bool" where
  "within lo hi c \<longleftrightarrow> lo \<le> byte_of c \<and> byte_of c \<le> hi"

text \<open>The length a lead byte announces, and the range of the byte after it.\<close>

definition lead_size :: "char \<Rightarrow> nat" where
  "lead_size b =
     (if byte_of b < 0x80 then 1 else if within 0xC2 0xDF b then 2
      else if within 0xE0 0xEF b then 3 else if within 0xF0 0xF4 b then 4 else 0)"

definition second_range :: "char \<Rightarrow> char \<Rightarrow> bool" where
  "second_range b c =
     (if b = CHR 0xE0 then within 0xA0 0xBF c else if b = CHR 0xED then within 0x80 0x9F c
      else if b = CHR 0xF0 then within 0x90 0xBF c else if b = CHR 0xF4 then within 0x80 0x8F c
      else within 0x80 0xBF c)"

definition tail_ok :: "char \<Rightarrow> string \<Rightarrow> bool" where
  "tail_ok b t \<longleftrightarrow> (case t of [] \<Rightarrow> True | c # cs \<Rightarrow> second_range b c \<and> list_all (within 0x80 0xBF) cs)"

text \<open>The length of a well-formed sequence at the front, 0 when there is none.\<close>

fun rune_size :: "string \<Rightarrow> nat" where
  "rune_size [] = 0"
| "rune_size (b # r) =
     (let n = lead_size b in if Suc (length r) < n \<or> n = 0 then 0 else if tail_ok b (take (n - 1) r) then n else 0)"

declare rune_size.simps(2) [simp del]

lemma lead_size_le: "lead_size b \<le> 4"
  by (simp add: lead_size_def)

lemma rune_size_le: "rune_size s \<le> length s"
  by (cases s) (simp_all add: rune_size.simps Let_def)

lemma rune_size_4: "rune_size s \<le> 4"
  using lead_size_le by (cases s) (simp_all add: rune_size.simps Let_def)

lemma rune_size_ascii: "byte_of b < 0x80 \<Longrightarrow> rune_size (b # r) = 1"
  by (simp add: rune_size.simps lead_size_def tail_ok_def)

text \<open>Only the bytes of the sequence decide.\<close>

lemma rune_size_append:
  assumes "rune_size s = n" and "n \<noteq> 0"
  shows "rune_size (take n s @ t) = n"
proof (cases s)
  case (Cons b r)
  with assms obtain m where m: "lead_size b = Suc m" "n = Suc m" "m \<le> length r" "tail_ok b (take m r)"
    by (cases "lead_size b") (auto simp: rune_size.simps Let_def split: if_splits)
  then show ?thesis by (simp add: Cons rune_size.simps)
qed (use assms in simp)

text \<open>A byte above 0x7F that starts no sequence, and a sequence, contain no ASCII byte.\<close>

lemma rune_bytes_high:
  assumes "rune_size (b # r) = n" and "\<not> byte_of b < 0x80" and "c \<in> set (take n (b # r))"
  shows "\<not> byte_of c < 0x80"
proof (cases n)
  case (Suc m)
  with assms(1) have t: "tail_ok b (take m r)"
    by (auto simp: rune_size.simps Let_def split: if_splits)
  have "\<not> byte_of d < 0x80" if "d \<in> set (take m r)" for d
    using t that
    by (cases "take m r")
      (auto simp: tail_ok_def second_range_def within_def list_all_iff split: if_splits)
  with assms(2,3) Suc show ?thesis by auto
qed (use assms in simp)

function utf8_Valid :: "string \<Rightarrow> bool" where
  "utf8_Valid s =
     (if s = [] then True else if rune_size s = 0 then False else utf8_Valid (drop (rune_size s) s))"
  by pat_completeness auto
termination by (relation "measure length") auto

declare utf8_Valid.simps [simp del]

lemma utf8_ascii: "list_all (\<lambda>c. byte_of c < 0x80) s \<Longrightarrow> utf8_Valid s"
  by (induction s) (simp_all add: utf8_Valid.simps rune_size_ascii)

section \<open>Code points\<close>

text \<open>\<open>utf8.EncodeRune\<close>; surrogates and numbers beyond the range give U+FFFD.\<close>

definition utf8_encode :: "nat \<Rightarrow> string" where
  "utf8_encode r =
     (if r < 0x80 then [char_of r]
      else if r < 0x800 then [char_of (0xC0 + r div 64), char_of (0x80 + r mod 64)]
      else if (0xD800 \<le> r \<and> r < 0xE000) \<or> 0x10FFFF < r then [CHR 0xEF, CHR 0xBF, CHR 0xBD]
      else if r < 0x10000 then
        [char_of (0xE0 + r div 4096), char_of (0x80 + r div 64 mod 64), char_of (0x80 + r mod 64)]
      else [char_of (0xF0 + r div 262144), char_of (0x80 + r div 4096 mod 64),
            char_of (0x80 + r div 64 mod 64), char_of (0x80 + r mod 64)])"

definition replacement :: string where
  "replacement = [CHR 0xEF, CHR 0xBF, CHR 0xBD]"

text \<open>The string with every byte that is not part of a sequence replaced.\<close>

function to_valid :: "string \<Rightarrow> string" where
  "to_valid s =
     (case s of
        [] \<Rightarrow> []
      | b # r \<Rightarrow>
          let n = rune_size s in
          if n = 0 then replacement @ to_valid r else take n s @ to_valid (drop n s))"
  by pat_completeness auto
termination by (relation "measure length") auto

declare to_valid.simps [simp del]

lemma to_valid_Nil [simp]: "to_valid [] = []"
  by (simp add: to_valid.simps)

lemma to_valid_bad: "rune_size (b # r) = 0 \<Longrightarrow> to_valid (b # r) = replacement @ to_valid r"
  by (simp add: to_valid.simps [of "b # r"] Let_def)

lemma to_valid_rune: "rune_size s = n \<Longrightarrow> n \<noteq> 0 \<Longrightarrow> to_valid s = take n s @ to_valid (drop n s)"
  by (subst to_valid.simps) (auto simp: Let_def split: list.split)

lemma to_valid_ascii: "byte_of c < 0x80 \<Longrightarrow> to_valid (c # s) = c # to_valid s"
  using to_valid_rune [OF rune_size_ascii [of c s]] by simp

lemma to_valid_id: "utf8_Valid s \<Longrightarrow> to_valid s = s"
proof (induction s rule: to_valid.induct)
  case (1 s)
  show ?case
  proof (cases s)
    case (Cons b r)
    then have "s \<noteq> []" by simp
    with "1.prems" have n: "rune_size s \<noteq> 0" "utf8_Valid (drop (rune_size s) s)"
      using utf8_Valid.simps [of s] by (metis, metis)
    with "1.IH"(2) [OF Cons refl] show ?thesis
      by (simp add: to_valid_rune [OF refl n(1)])
  qed simp
qed

lemma rune_size_replacement: "rune_size (replacement @ s) = 3"
  by (simp add: replacement_def rune_size.simps lead_size_def within_def tail_ok_def second_range_def)

lemma to_valid_Valid: "utf8_Valid (to_valid s)"
proof (induction s rule: to_valid.induct)
  case (1 s)
  show ?case
  proof (cases s)
    case (Cons b r)
    show ?thesis
    proof (cases "rune_size s = 0")
      case True
      have "utf8_Valid (to_valid r)" using "1.IH"(1) [OF Cons refl] True by simp
      with True Cons show ?thesis
        by (simp add: to_valid_bad utf8_Valid.simps [of "replacement @ to_valid r"] rune_size_replacement)
          (simp add: replacement_def)
    next
      case False
      have v: "utf8_Valid (to_valid (drop (rune_size s) s))" using "1.IH"(2) [OF Cons refl False] .
      let ?n = "rune_size s" and ?t = "to_valid (drop (rune_size s) s)"
      have "rune_size (take ?n s @ ?t) = ?n" by (rule rune_size_append [OF refl False])
      with v False rune_size_le [of s] show ?thesis
        by (simp add: to_valid_rune [OF refl False] utf8_Valid.simps [of "take ?n s @ ?t"])
    qed
  qed (simp add: utf8_Valid.simps)
qed

end
