(* ===== verification/Json.thy ===== *)
theory Json
  imports Utf8
begin

text \<open>
  The part of \<open>encoding/json\<close> the program uses, on texts of bytes: values with numbers kept as their
  literals, the encoder with and without HTML escaping, and the decoder as the push-down machine of Go's
  scanner (white space, tokens, a stack of open arrays and objects of at most 10000). Encoding and
  decoding are inverse up to the replacement of invalid UTF-8.
\<close>

datatype json =
    JNull | JBool bool | JNumber string | JString string | JArray "json list" | JObject "(string \<times> json) list"

abbreviation (input) backslash :: char where "backslash \<equiv> CHR 0x5C"
abbreviation (input) quote :: char where "quote \<equiv> CHR 0x22"

section \<open>The encoder\<close>

text \<open>Characters with an escape of their own.\<close>

definition short_escapes :: "(char \<times> char) list" where
  "short_escapes =
     [(quote, quote), (backslash, backslash), (CHR 0x08, CHR ''b''), (CHR 0x0C, CHR ''f''), (CHR 0x0A, CHR ''n''),
      (CHR 0x0D, CHR ''r''), (CHR 0x09, CHR ''t'')]"

definition esc_ascii :: "bool \<Rightarrow> char \<Rightarrow> string" where
  "esc_ascii html c =
     (case map_of short_escapes c of
        Some e \<Rightarrow> [backslash, e]
      | None \<Rightarrow>
          if byte_of c < 0x20 \<or> html \<and> c \<in> {CHR ''<'', CHR ''>'', CHR ''&''}
          then [backslash] @ ''u00'' @ [digit_char (byte_of c div 16), digit_char (byte_of c mod 16)]
          else [c])"

definition esc_rune :: "string \<Rightarrow> string" where
  "esc_rune u =
     (if u = [CHR 0xE2, CHR 0x80, CHR 0xA8] then backslash # ''u2028''
      else if u = [CHR 0xE2, CHR 0x80, CHR 0xA9] then backslash # ''u2029'' else u)"

function json_escape :: "bool \<Rightarrow> string \<Rightarrow> string" where
  "json_escape html s =
     (case s of
        [] \<Rightarrow> []
      | c # r \<Rightarrow>
          if byte_of c < 0x80 then esc_ascii html c @ json_escape html r
          else let n = rune_size s in
            if n = 0 then (backslash # ''ufffd'') @ json_escape html r
            else esc_rune (take n s) @ json_escape html (drop n s))"
  by pat_completeness auto
termination by (relation "measure (length \<circ> snd)") auto

declare json_escape.simps [simp del]

definition json_quote :: "bool \<Rightarrow> string \<Rightarrow> string" where
  "json_quote html s = quote # json_escape html s @ [quote]"

fun json_text :: "bool \<Rightarrow> json \<Rightarrow> string" where
  "json_text html JNull = ''null''"
| "json_text html (JBool b) = (if b then ''true'' else ''false'')"
| "json_text html (JNumber t) = t"
| "json_text html (JString s) = json_quote html s"
| "json_text html (JArray vs) = ''['' @ join_with (CHR '','') (map (json_text html) vs) @ '']''"
| "json_text html (JObject ms) =
     ''{'' @ join_with (CHR '','') (map (\<lambda>(k, v). json_quote html k @ '':'' @ json_text html v) ms) @ ''}''"

text \<open>A Go map is encoded with its keys sorted, a struct in the order of its fields.\<close>

definition json_map :: "(string \<times> json) list \<Rightarrow> json" where
  "json_map m = JObject (sort_key (map byte_of \<circ> fst) m)"

text \<open>\<open>json.Marshal\<close>, and \<open>Encode\<close> of an encoder with \<open>SetEscapeHTML(false)\<close>.\<close>

definition json_Marshal :: "json \<Rightarrow> string" where "json_Marshal v = json_text True v"
definition json_Encode :: "json \<Rightarrow> string" where "json_Encode v = json_text False v @ [CHR 0x0A]"

section \<open>Tokens\<close>

definition is_digit :: "char \<Rightarrow> bool" where
  "is_digit c \<longleftrightarrow> 48 \<le> byte_of c \<and> byte_of c \<le> 57"

definition hex_value :: "char \<Rightarrow> nat option" where
  "hex_value c =
     (if is_digit c then Some (byte_of c - 48)
      else if 97 \<le> byte_of c \<and> byte_of c \<le> 102 then Some (byte_of c - 87)
      else if 65 \<le> byte_of c \<and> byte_of c \<le> 70 then Some (byte_of c - 55) else None)"

fun hex4 :: "string \<Rightarrow> (nat \<times> string) option" where
  "hex4 (a # b # c # d # r) =
     (case (hex_value a, hex_value b, hex_value c, hex_value d) of
        (Some w, Some x, Some y, Some z) \<Rightarrow> Some (((w * 16 + x) * 16 + y) * 16 + z, r)
      | _ \<Rightarrow> None)"
| "hex4 _ = None"

definition getu4 :: "string \<Rightarrow> (nat \<times> string) option" where
  "getu4 s = (if take 2 s = [backslash, CHR ''u''] then hex4 (drop 2 s) else None)"

lemma hex4_length: "hex4 s = Some (n, r) \<Longrightarrow> length r < length s"
  by (cases s rule: hex4.cases) (auto split: option.splits)

lemma getu4_length: "getu4 s = Some (n, r) \<Longrightarrow> length r < length s"
  by (auto simp: getu4_def split: if_splits dest: hex4_length)

definition short_unescapes :: "(char \<times> char) list" where
  "short_unescapes =
     [(quote, quote), (backslash, backslash), (CHR ''/'', CHR ''/''), (CHR ''b'', CHR 0x08), (CHR ''f'', CHR 0x0C),
      (CHR ''n'', CHR 0x0A), (CHR ''r'', CHR 0x0D), (CHR ''t'', CHR 0x09)]"

definition surrogate_pair :: "nat \<Rightarrow> nat \<Rightarrow> nat option" where
  "surrogate_pair n m =
     (if 0xD800 \<le> n \<and> n < 0xDC00 \<and> 0xDC00 \<le> m \<and> m < 0xE000
      then Some ((n - 0xD800) * 1024 + (m - 0xDC00) + 0x10000) else None)"

text \<open>
  The next piece of a string after its opening quote: none at the closing quote, otherwise the bytes one
  character or escape stands for. A surrogate without its partner stands for U+FFFD.
\<close>

definition unicode_piece :: "string \<Rightarrow> (string option \<times> string) option" where
  "unicode_piece r =
     (case hex4 r of
        None \<Rightarrow> None
      | Some (n, r2) \<Rightarrow>
          if 0xD800 \<le> n \<and> n < 0xE000 then
            (case getu4 r2 of
               None \<Rightarrow> Some (Some replacement, r2)
             | Some (m, r3) \<Rightarrow>
                 (case surrogate_pair n m of
                    Some p \<Rightarrow> Some (Some (utf8_encode p), r3)
                  | None \<Rightarrow> Some (Some replacement, r2)))
          else Some (Some (utf8_encode n), r2))"

definition escape_piece :: "string \<Rightarrow> (string option \<times> string) option" where
  "escape_piece r =
     (case r of
        [] \<Rightarrow> None
      | e # r1 \<Rightarrow>
          if e = CHR ''u'' then unicode_piece r1
          else map_option (\<lambda>d. (Some [d], r1)) (map_of short_unescapes e))"

definition str_piece :: "string \<Rightarrow> (string option \<times> string) option" where
  "str_piece s =
     (case s of
        [] \<Rightarrow> None
      | c # r \<Rightarrow>
          if c = quote then Some (None, r)
          else if c = backslash then escape_piece r
          else if byte_of c < 0x20 then None
          else if byte_of c < 0x80 then Some (Some [c], r)
          else let n = rune_size s in
            if n = 0 then Some (Some replacement, r) else Some (Some (take n s), drop n s))"

lemma unicode_piece_length: "unicode_piece r = Some (u, r') \<Longrightarrow> length r' < length r"
  by (auto simp: unicode_piece_def split: option.splits if_splits dest!: hex4_length getu4_length)

lemma str_piece_length: "str_piece s = Some (u, r) \<Longrightarrow> length r < length s"
  by (cases s)
    (auto simp: str_piece_def escape_piece_def Let_def split: if_splits list.splits dest!: unicode_piece_length)

text \<open>The value of a string and what follows its closing quote.\<close>

function lex_str :: "string \<Rightarrow> (string \<times> string) option" where
  "lex_str s =
     (case str_piece s of
        None \<Rightarrow> None
      | Some (None, r) \<Rightarrow> Some ([], r)
      | Some (Some u, r) \<Rightarrow> map_option (\<lambda>(t, r'). (u @ t, r')) (lex_str r))"
  by pat_completeness auto
termination by (relation "measure length") (auto dest: str_piece_length)

declare lex_str.simps [simp del]

lemma lex_str_length: "lex_str s = Some (t, r) \<Longrightarrow> length r < length s"
proof (induction s arbitrary: t rule: lex_str.induct)
  case (1 s)
  from "1.prems" obtain u r' where p: "str_piece s = Some (u, r')"
    by (subst (asm) lex_str.simps) (auto split: option.splits)
  show ?case
  proof (cases u)
    case None
    with p "1.prems" show ?thesis by (subst (asm) lex_str.simps) (auto dest: str_piece_length)
  next
    case (Some v)
    with p "1.prems" obtain t' where "lex_str r' = Some (t', r)"
      by (subst (asm) lex_str.simps) auto
    with "1.IH" [OF p refl Some] str_piece_length [OF p] show ?thesis by fastforce
  qed
qed

definition lex_frac :: "string \<Rightarrow> (string \<times> string) option" where
  "lex_frac s =
     (if s \<noteq> [] \<and> hd s = CHR ''.'' then
        if takeWhile is_digit (tl s) = [] then None
        else Some (hd s # takeWhile is_digit (tl s), dropWhile is_digit (tl s))
      else Some ([], s))"

definition lex_exp :: "string \<Rightarrow> (string \<times> string) option" where
  "lex_exp s =
     (if s \<noteq> [] \<and> hd s \<in> {CHR ''e'', CHR ''E''} then
        let t = tl s;
            sign = (if t \<noteq> [] \<and> hd t \<in> {CHR ''+'', CHR ''-''} then [hd t] else []);
            u = drop (length sign) t
        in if takeWhile is_digit u = [] then None
           else Some (hd s # sign @ takeWhile is_digit u, dropWhile is_digit u)
      else Some ([], s))"

definition lex_int :: "string \<Rightarrow> (string \<times> string) option" where
  "lex_int s =
     (if s = [] \<or> \<not> is_digit (hd s) then None
      else if hd s = CHR ''0'' then Some ([hd s], tl s)
      else Some (takeWhile is_digit s, dropWhile is_digit s))"

definition lex_number :: "string \<Rightarrow> (string \<times> string) option" where
  "lex_number s =
     (let sign = (if s \<noteq> [] \<and> hd s = CHR ''-'' then [hd s] else []) in
      case lex_int (drop (length sign) s) of
        None \<Rightarrow> None
      | Some (i, r1) \<Rightarrow>
          (case lex_frac r1 of
             None \<Rightarrow> None
           | Some (f, r2) \<Rightarrow>
               (case lex_exp r2 of
                  None \<Rightarrow> None
                | Some (e, r3) \<Rightarrow> Some (sign @ i @ f @ e, r3))))"

lemma lex_parts:
  "lex_int s = Some (i, r) \<Longrightarrow> s = i @ r \<and> i \<noteq> []"
  "lex_frac s = Some (f, r) \<Longrightarrow> s = f @ r"
  "lex_exp s = Some (e, r) \<Longrightarrow> s = e @ r"
    apply (cases s; auto simp: lex_int_def split: if_splits)
   apply (cases s; auto simp: lex_frac_def split: if_splits)
  apply (cases s; cases "tl s"; auto simp: lex_exp_def Let_def split: if_splits)
  done

lemma lex_number_split: "lex_number s = Some (t, r) \<Longrightarrow> s = t @ r \<and> t \<noteq> []"
  by (cases s) (auto simp: lex_number_def Let_def split: option.splits if_splits dest!: lex_parts)

datatype token = TLit json | TOpenArr | TCloseArr | TOpenObj | TCloseObj | TColon | TComma

definition is_space :: "char \<Rightarrow> bool" where
  "is_space c \<longleftrightarrow> c \<in> {CHR 0x20, CHR 0x09, CHR 0x0A, CHR 0x0D}"

definition skip_ws :: "string \<Rightarrow> string" where
  "skip_ws s = dropWhile is_space s"

definition punct :: "(char \<times> token) list" where
  "punct = [(CHR ''['', TOpenArr), (CHR '']'', TCloseArr), (CHR ''{'', TOpenObj), (CHR ''}'', TCloseObj),
     (CHR '':'', TColon), (CHR '','', TComma)]"

fun lex :: "string \<Rightarrow> (token \<times> string) option" where
  "lex [] = None"
| "lex (c # r) =
     (case map_of punct c of
        Some t \<Rightarrow> Some (t, r)
      | None \<Rightarrow>
          if c = quote then map_option (\<lambda>(s, r'). (TLit (JString s), r')) (lex_str r)
          else if take 4 (c # r) = ''null'' then Some (TLit JNull, drop 4 (c # r))
          else if take 4 (c # r) = ''true'' then Some (TLit (JBool True), drop 4 (c # r))
          else if take 5 (c # r) = ''false'' then Some (TLit (JBool False), drop 5 (c # r))
          else map_option (\<lambda>(t, r'). (TLit (JNumber t), r')) (lex_number (c # r)))"

declare lex.simps(2) [simp del]

lemma lex_number_length: "lex_number s = Some (t, r) \<Longrightarrow> length r < length s"
  by (auto dest: lex_number_split)

lemma lex_length: "lex s = Some (t, r) \<Longrightarrow> length r < length s"
  by (cases s)
    (auto simp: lex.simps split: option.splits if_splits dest!: lex_str_length lex_number_length)

section \<open>The decoder\<close>

text \<open>Open arrays and objects; an object has the key of the member being read.\<close>

datatype jframe = FArr "json list" | FObj "(string \<times> json) list" string

datatype expect = EValue | EValueOrEnd | EKey | EKeyOrEnd | EColon | EAfter

fun put :: "json \<Rightarrow> jframe list \<Rightarrow> json + jframe list \<times> expect" where
  "put v [] = Inl v"
| "put v (FArr vs # st) = Inr (FArr (vs @ [v]) # st, EAfter)"
| "put v (FObj ms k # st) = Inr (FObj (ms @ [(k, v)]) k # st, EAfter)"

definition maxNestingDepth :: nat where "maxNestingDepth = 10000"

definition push_frame :: "jframe \<Rightarrow> jframe list \<Rightarrow> expect \<Rightarrow> (json + jframe list \<times> expect) option" where
  "push_frame f st e = (if length st < maxNestingDepth then Some (Inr (f # st, e)) else None)"

definition begin_value :: "jframe list \<Rightarrow> token \<Rightarrow> (json + jframe list \<times> expect) option" where
  "begin_value st t =
     (case t of
        TLit v \<Rightarrow> Some (put v st)
      | TOpenArr \<Rightarrow> push_frame (FArr []) st EValueOrEnd
      | TOpenObj \<Rightarrow> push_frame (FObj [] '''') st EKeyOrEnd
      | _ \<Rightarrow> None)"

fun close_frame :: "jframe list \<Rightarrow> token \<Rightarrow> (json + jframe list \<times> expect) option" where
  "close_frame (FArr vs # st) TCloseArr = Some (put (JArray vs) st)"
| "close_frame (FObj ms k # st) TCloseObj = Some (put (JObject ms) st)"
| "close_frame st t = None"

fun take_key :: "jframe list \<Rightarrow> token \<Rightarrow> (json + jframe list \<times> expect) option" where
  "take_key (FObj ms k # st) (TLit (JString k')) = Some (Inr (FObj ms k' # st, EColon))"
| "take_key st t = None"

fun json_token :: "jframe list \<Rightarrow> expect \<Rightarrow> token \<Rightarrow> (json + jframe list \<times> expect) option" where
  "json_token st EValue t = begin_value st t"
| "json_token st EValueOrEnd t = (if t = TCloseArr then close_frame st t else begin_value st t)"
| "json_token st EKey t = take_key st t"
| "json_token st EKeyOrEnd t = (if t = TCloseObj then close_frame st t else take_key st t)"
| "json_token st EColon t = (if t = TColon then Some (Inr (st, EValue)) else None)"
| "json_token st EAfter t =
     (if t = TComma then
        (case st of
           FArr vs # st' \<Rightarrow> Some (Inr (st, EValue))
         | FObj ms k # st' \<Rightarrow> Some (Inr (st, EKey))
         | [] \<Rightarrow> None)
      else close_frame st t)"

function json_run :: "jframe list \<Rightarrow> expect \<Rightarrow> string \<Rightarrow> (json \<times> string) option" where
  "json_run st e s =
     (case lex (skip_ws s) of
        None \<Rightarrow> None
      | Some (t, r) \<Rightarrow>
          (case json_token st e t of
             None \<Rightarrow> None
           | Some (Inl v) \<Rightarrow> Some (v, r)
           | Some (Inr (st', e')) \<Rightarrow> json_run st' e' r))"
  by pat_completeness auto
termination
proof (relation "measure (\<lambda>(st, e, s). length s)")
  fix st e s x t r y p st' e'
  assume "lex (skip_ws s) = Some x" "(t, r) = x"
  then have "length r < length (skip_ws s)" by (auto dest: lex_length)
  also have "\<dots> \<le> length s" by (simp add: skip_ws_def length_dropWhile_le)
  finally show "((st', e', r), (st, e, s)) \<in> measure (\<lambda>(st, e, s). length s)" by simp
qed simp

declare json_run.simps [simp del]

text \<open>\<open>Decoder.Decode\<close> reads one value; \<open>json.Unmarshal\<close> allows nothing but white space after it.\<close>

definition json_Decode :: "string \<Rightarrow> json option" where
  "json_Decode s = map_option fst (json_run [] EValue s)"

definition json_Unmarshal :: "string \<Rightarrow> json option" where
  "json_Unmarshal s =
     (case json_run [] EValue s of
        Some (v, r) \<Rightarrow> if skip_ws r = [] then Some v else None
      | None \<Rightarrow> None)"

section \<open>Encoding and decoding\<close>

lemma lex_str_piece: "str_piece s = Some (Some u, r) \<Longrightarrow> lex_str s = map_option (\<lambda>(t, r'). (u @ t, r')) (lex_str r)"
  by (subst lex_str.simps) simp

lemma lex_str_close: "lex_str (quote # r) = Some ([], r)"
  by (subst lex_str.simps) (simp add: str_piece_def)

lemma hex_value_digit: "n < 16 \<Longrightarrow> hex_value (digit_char n) = Some n"
  by (auto simp: hex_value_def digit_char_def is_digit_def)

lemma hex_value_0: "hex_value (CHR ''0'') = Some 0"
  by (simp add: hex_value_def is_digit_def)

lemma utf8_encode_separators:
  "utf8_encode 0x2028 = [CHR 0xE2, CHR 0x80, CHR 0xA8]" "utf8_encode 0x2029 = [CHR 0xE2, CHR 0x80, CHR 0xA9]"
  "utf8_encode 0xFFFD = replacement"
  by (simp_all add: utf8_encode_def replacement_def char_of_eq_iff)

text \<open>Every piece the encoder writes is read back as the bytes it stands for.\<close>

lemma esc_ascii_piece:
  assumes "byte_of c < 0x80"
  shows "str_piece (esc_ascii html c @ r) = Some (Some [c], r)"
proof (cases "map_of short_escapes c")
  case (Some e)
  moreover have "list_all (\<lambda>(c, e). map_of short_unescapes e = Some c \<and> e \<noteq> CHR ''u'') short_escapes"
    by code_simp
  ultimately have "map_of short_unescapes e = Some c \<and> e \<noteq> CHR ''u''"
    by (auto simp: list_all_iff dest: map_of_SomeD)
  with Some show ?thesis by (simp add: esc_ascii_def str_piece_def escape_piece_def)
next
  case None
  then have n: "c \<noteq> quote" "c \<noteq> backslash" by (auto simp: short_escapes_def split: if_splits)
  show ?thesis
  proof (cases "byte_of c < 0x20 \<or> html \<and> c \<in> {CHR ''<'', CHR ''>'', CHR ''&''}")
    case True
    have h: "hex4 ([CHR ''0'', CHR ''0'', digit_char (byte_of c div 16), digit_char (byte_of c mod 16)] @ r) = Some (byte_of c, r)"
      using assms by (simp add: hex_value_digit hex_value_0)
    with True None assms show ?thesis
      by (simp add: esc_ascii_def str_piece_def escape_piece_def unicode_piece_def utf8_encode_def)
  next
    case False
    with None n assms show ?thesis by (auto simp: esc_ascii_def str_piece_def)
  qed
qed

lemma rune_piece:
  assumes "rune_size s = n" and "n \<noteq> 0" and "s = c # t" and "\<not> byte_of c < 0x80"
  shows "str_piece (esc_rune (take n s) @ r) = Some (Some (take n s), r)"
proof -
  have u: "str_piece (backslash # ''u2028'' @ r) = Some (Some [CHR 0xE2, CHR 0x80, CHR 0xA8], r)"
    "str_piece (backslash # ''u2029'' @ r) = Some (Some [CHR 0xE2, CHR 0x80, CHR 0xA9], r)"
    by (simp_all add: str_piece_def escape_piece_def unicode_piece_def hex_value_def is_digit_def utf8_encode_separators)
  obtain v where v: "take n s = c # v" using assms(2,3) by (cases n) simp_all
  have "n = length (take n s)" using rune_size_le [of s] assms(1) by simp
  with v have n: "n = Suc (length v)" by simp
  have "rune_size (take n s @ r) = n" by (rule rune_size_append [OF assms(1,2)])
  then have rs: "rune_size (c # v @ r) = Suc (length v)" unfolding v using n by simp
  have "c \<noteq> quote" "c \<noteq> backslash" using assms(4) by auto
  with rs assms(4) have "str_piece (c # v @ r) = Some (Some (c # v), r)"
    by (simp add: str_piece_def Let_def)
  then have "str_piece (take n s @ r) = Some (Some (take n s), r)" unfolding v by simp
  with u show ?thesis by (auto simp: esc_rune_def)
qed

lemma lex_escape: "lex_str (json_escape html s @ quote # r) = Some (to_valid s, r)"
proof (induction html s rule: json_escape.induct)
  case (1 html s)
  show ?case
  proof (cases s)
    case Nil
    then show ?thesis by (simp add: json_escape.simps lex_str_close)
  next
    case (Cons c t)
    consider "byte_of c < 0x80" | "\<not> byte_of c < 0x80" "rune_size s = 0" | "\<not> byte_of c < 0x80" "rune_size s \<noteq> 0"
      by blast
    then show ?thesis
    proof cases
      case 1
      have "json_escape html s = esc_ascii html c @ json_escape html t"
        using 1 Cons by (subst json_escape.simps) simp
      with "1.IH"(1) [OF Cons 1] 1 Cons show ?thesis
        by (simp add: lex_str_piece [OF esc_ascii_piece] to_valid_ascii)
    next
      case 2
      have e: "json_escape html s = (backslash # ''ufffd'') @ json_escape html t"
        using 2 Cons by (subst json_escape.simps) (simp add: Let_def)
      have p: "str_piece ((backslash # ''ufffd'') @ q) = Some (Some replacement, q)" for q
        by (simp add: str_piece_def escape_piece_def unicode_piece_def hex_value_def is_digit_def utf8_encode_separators)
      have "lex_str (json_escape html t @ quote # r) = Some (to_valid t, r)"
        using "1.IH"(2) [OF Cons 2(1) refl] 2(2) by simp
      with 2(2) Cons show ?thesis
        unfolding e append_assoc by (simp only: lex_str_piece [OF p] to_valid_bad) simp
    next
      case 3
      let ?n = "rune_size s"
      have e: "json_escape html s = esc_rune (take ?n s) @ json_escape html (drop ?n s)"
        using 3 Cons by (subst json_escape.simps) (simp add: Let_def)
      have "lex_str (json_escape html (drop ?n s) @ quote # r) = Some (to_valid (drop ?n s), r)"
        using "1.IH"(3) [OF Cons 3(1) refl] 3(2) by simp
      then show ?thesis
        unfolding e append_assoc lex_str_piece [OF rune_piece [OF refl 3(2) Cons 3(1)]]
        by (simp add: to_valid_rune [OF refl 3(2)])
    qed
  qed
qed

text \<open>Number literals, and what may follow them.\<close>

definition number_ok :: "string \<Rightarrow> bool" where
  "number_ok t \<longleftrightarrow> lex_number t = Some (t, [])"

definition ends_number :: "string \<Rightarrow> bool" where
  "ends_number r \<longleftrightarrow> (r = [] \<or> \<not> is_digit (hd r) \<and> hd r \<notin> {CHR ''.'', CHR ''e'', CHR ''E''})"

lemma takeWhile_ends: "ends_number r \<Longrightarrow> takeWhile is_digit (s @ r) = takeWhile is_digit s"
  "ends_number r \<Longrightarrow> dropWhile is_digit (s @ r) = dropWhile is_digit s @ r"
  by (induction s) (auto simp: ends_number_def takeWhile_eq_Nil_iff dropWhile_eq_self_iff)

lemma lex_exp_append: "lex_exp s = Some (e, q) \<Longrightarrow> ends_number r \<Longrightarrow> lex_exp (s @ r) = Some (e, q @ r)"
  by (cases s; cases "tl s")
    (auto simp: lex_exp_def Let_def takeWhile_ends split: if_splits, auto simp: ends_number_def)

lemma lex_frac_append: "lex_frac s = Some (f, q) \<Longrightarrow> ends_number r \<Longrightarrow> lex_frac (s @ r) = Some (f, q @ r)"
  by (cases s) (auto simp: lex_frac_def takeWhile_ends split: if_splits, auto simp: ends_number_def)

lemma lex_int_append: "lex_int s = Some (i, q) \<Longrightarrow> ends_number r \<Longrightarrow> lex_int (s @ r) = Some (i, q @ r)"
  by (cases s) (auto simp: lex_int_def takeWhile_ends split: if_splits)

lemma lex_number_append:
  assumes "number_ok t" and "ends_number r"
  shows "lex_number (t @ r) = Some (t, r)"
proof -
  have t: "t \<noteq> []" using assms(1) lex_number_split by (auto simp: number_ok_def)
  define sign where "sign = (if t \<noteq> [] \<and> hd t = CHR ''-'' then [hd t] else [])"
  have d: "drop (length sign) (t @ r) = drop (length sign) t @ r"
    "(if t @ r \<noteq> [] \<and> hd (t @ r) = CHR ''-'' then [hd (t @ r)] else []) = sign"
    using t by (cases t; simp add: sign_def)+
  from assms(1) obtain i f e q1 q2 where q: "lex_int (drop (length sign) t) = Some (i, q1)"
    "lex_frac q1 = Some (f, q2)" "lex_exp q2 = Some (e, [])" "t = sign @ i @ f @ e"
    unfolding number_ok_def lex_number_def sign_def [symmetric] Let_def by (auto split: option.splits)
  show ?thesis
    unfolding lex_number_def d(2) Let_def d(1)
    using lex_int_append [OF q(1) assms(2)] lex_frac_append [OF q(2) assms(2)]
      lex_exp_append [OF q(3) assms(2)] q(4) by simp
qed

section \<open>Round trip\<close>

primrec json_depth :: "json \<Rightarrow> nat" where
  "json_depth JNull = 0"
| "json_depth (JBool b) = 0"
| "json_depth (JNumber t) = 0"
| "json_depth (JString s) = 0"
| "json_depth (JArray vs) = Suc (fold max (map json_depth vs) 0)"
| "json_depth (JObject ms) = Suc (fold max (map (\<lambda>(k, d). d) (map (map_prod id json_depth) ms)) 0)"

text \<open>Every number is a literal of the grammar.\<close>

primrec json_wf :: "json \<Rightarrow> bool" where
  "json_wf JNull = True"
| "json_wf (JBool b) = True"
| "json_wf (JNumber t) = number_ok t"
| "json_wf (JString s) = True"
| "json_wf (JArray vs) = list_all id (map json_wf vs)"
| "json_wf (JObject ms) = list_all (\<lambda>(k, b). b) (map (map_prod id json_wf) ms)"

text \<open>What the decoder makes of it: invalid UTF-8 is replaced.\<close>

fun json_valid :: "json \<Rightarrow> json" where
  "json_valid (JString s) = JString (to_valid s)"
| "json_valid (JArray vs) = JArray (map json_valid vs)"
| "json_valid (JObject ms) = JObject (map (\<lambda>(k, v). (to_valid k, json_valid v)) ms)"
| "json_valid v = v"

lemma fold_max_le: "fold max ns m \<le> d \<longleftrightarrow> m \<le> d \<and> (\<forall>n \<in> set ns. n \<le> (d::nat))"
  by (induction ns arbitrary: m) auto

text \<open>The machine after a value.\<close>

definition go_on :: "json + jframe list \<times> expect \<Rightarrow> string \<Rightarrow> (json \<times> string) option" where
  "go_on x r = (case x of Inl v \<Rightarrow> Some (v, r) | Inr (st, e) \<Rightarrow> json_run st e r)"

lemma json_run_token:
  "lex s = Some (t, r) \<Longrightarrow> skip_ws s = s \<Longrightarrow>
     json_run st e s = (case json_token st e t of None \<Rightarrow> None | Some x \<Rightarrow> go_on x r)"
  by (subst json_run.simps) (auto simp: go_on_def split: option.split sum.split)

lemma lex_punct: "map_of punct c = Some t \<Longrightarrow> lex (c # r) = Some (t, r) \<and> skip_ws (c # r) = c # r"
  by (auto simp: lex.simps skip_ws_def punct_def is_space_def split: if_splits)

lemma lex_quote:
  "lex (json_quote html s @ r) = Some (TLit (JString (to_valid s)), r)"
  "skip_ws (json_quote html s @ r) = json_quote html s @ r"
  by (simp_all add: json_quote_def lex.simps punct_def lex_escape skip_ws_def is_space_def)

lemma number_start: "number_ok t \<Longrightarrow> \<exists>c u. t = c # u \<and> (is_digit c \<or> c = CHR ''-'')"
  by (cases t) (auto simp: number_ok_def lex_number_def Let_def lex_int_def split: if_splits option.splits)

lemma lex_number_token:
  assumes "number_ok t" and "ends_number r"
  shows "lex (t @ r) = Some (TLit (JNumber t), r) \<and> skip_ws (t @ r) = t @ r"
proof -
  obtain c u where t: "t = c # u" "is_digit c \<or> c = CHR ''-''" using number_start [OF assms(1)] by blast
  have "map_of punct c = None" "c \<noteq> quote" "\<not> is_space c" "c \<notin> {CHR ''n'', CHR ''t'', CHR ''f''}"
    using t(2) by (auto simp: punct_def is_space_def is_digit_def)
  moreover have "lex_number (c # u @ r) = Some (t, r)" using lex_number_append [OF assms] t(1) by simp
  ultimately show ?thesis by (simp add: t(1) lex.simps skip_ws_def)
qed

lemma begin_tokens:
  assumes "e \<in> {EValue, EValueOrEnd}"
  shows "json_token st e (TLit v) = Some (put v st)"
    "length st < maxNestingDepth \<Longrightarrow> json_token st e TOpenArr = Some (Inr (FArr [] # st, EValueOrEnd))"
    "length st < maxNestingDepth \<Longrightarrow> json_token st e TOpenObj = Some (Inr (FObj [] '''' # st, EKeyOrEnd))"
  using assms by (auto simp: begin_value_def push_frame_def)

definition value_reads :: "bool \<Rightarrow> json \<Rightarrow> bool" where
  "value_reads html v \<longleftrightarrow>
     (\<forall>st e r. e \<in> {EValue, EValueOrEnd} \<longrightarrow> length st + json_depth v \<le> maxNestingDepth \<longrightarrow> ends_number r \<longrightarrow>
        json_run st e (json_text html v @ r) = go_on (put (json_valid v) st) r)"

lemma value_readsD:
  "value_reads html v \<Longrightarrow> e \<in> {EValue, EValueOrEnd} \<Longrightarrow> length st + json_depth v \<le> maxNestingDepth \<Longrightarrow>
     ends_number r \<Longrightarrow> json_run st e (json_text html v @ r) = go_on (put (json_valid v) st) r"
  unfolding value_reads_def by blast

lemma ends_number_punct: "ends_number (CHR '','' # r)" "ends_number (CHR '']'' # r)" "ends_number (CHR ''}'' # r)"
  by (simp_all add: ends_number_def is_digit_def)

lemma array_reads:
  assumes "vs \<noteq> []" and "\<forall>v \<in> set vs. value_reads html v \<and> Suc (length st) + json_depth v \<le> maxNestingDepth"
    and "e \<in> {EValue, EValueOrEnd}"
  shows "json_run (FArr acc # st) e (join_with (CHR '','') (map (json_text html) vs) @ CHR '']'' # r) =
    go_on (put (JArray (acc @ map json_valid vs)) st) r"
  using assms
proof (induction vs arbitrary: acc e)
  case (Cons v vs)
  have v: "json_run (FArr acc # st) e (json_text html v @ q) = json_run (FArr (acc @ [json_valid v]) # st) EAfter q"
    if "ends_number q" for q
    using value_readsD [OF _ Cons.prems(3) _ that, of html v "FArr acc # st"] Cons.prems(2)
    by (simp add: go_on_def)
  show ?case
  proof (cases vs)
    case Nil
    have "json_run (FArr (acc @ [json_valid v]) # st) EAfter (CHR '']'' # r) =
        go_on (put (JArray (acc @ [json_valid v])) st) r"
      by (simp add: json_run_token [of _ TCloseArr r] lex_punct punct_def)
    with Nil show ?thesis by (simp add: v ends_number_punct)
  next
    case (Cons w ws)
    have "json_run (FArr (acc @ [json_valid v]) # st) EAfter (CHR '','' # q) =
        json_run (FArr (acc @ [json_valid v]) # st) EValue q" for q
      by (simp add: json_run_token [of _ TComma q] lex_punct punct_def go_on_def)
    with Cons Cons.IH [of EValue "acc @ [json_valid v]"] Cons.prems show ?thesis
      by (simp add: v ends_number_punct)
  qed
qed simp

lemma object_reads:
  assumes "ms \<noteq> []" and "\<forall>(k, v) \<in> set ms. value_reads html v \<and> Suc (length st) + json_depth v \<le> maxNestingDepth"
    and "e \<in> {EKey, EKeyOrEnd}"
  shows "json_run (FObj acc k0 # st) e
      (join_with (CHR '','') (map (\<lambda>(k, v). json_quote html k @ '':'' @ json_text html v) ms) @ CHR ''}'' # r) =
    go_on (put (JObject (acc @ map (\<lambda>(k, v). (to_valid k, json_valid v)) ms)) st) r"
  using assms
proof (induction ms arbitrary: acc k0 e)
  case (Cons m ms)
  obtain k v where m: "m = (k, v)" by (cases m)
  let ?acc = "acc @ [(to_valid k, json_valid v)]"
  have v: "json_run (FObj acc k0 # st) e (json_quote html k @ CHR '':'' # json_text html v @ q) =
      json_run (FObj ?acc (to_valid k) # st) EAfter q" if "ends_number q" for q
  proof -
    let ?s1 = "CHR '':'' # json_text html v @ q"
    have "json_token (FObj acc k0 # st) e (TLit (JString (to_valid k))) = Some (Inr (FObj acc (to_valid k) # st, EColon))"
      using Cons.prems(3) by auto
    then have "json_run (FObj acc k0 # st) e (json_quote html k @ ?s1) = json_run (FObj acc (to_valid k) # st) EColon ?s1"
      by (simp add: json_run_token [OF lex_quote(1) lex_quote(2)] go_on_def)
    also have "\<dots> = json_run (FObj acc (to_valid k) # st) EValue (json_text html v @ q)"
      by (simp add: json_run_token [of _ TColon "json_text html v @ q"] lex_punct punct_def go_on_def)
    finally show ?thesis
      using value_readsD [of html v EValue "FObj acc (to_valid k) # st" q] Cons.prems(2) that
      by (simp add: m go_on_def)
  qed
  show ?case
  proof (cases ms)
    case Nil
    have "json_run (FObj ?acc (to_valid k) # st) EAfter (CHR ''}'' # r) = go_on (put (JObject ?acc) st) r"
      by (simp add: json_run_token [of _ TCloseObj r] lex_punct punct_def)
    with Nil show ?thesis by (simp add: m v ends_number_punct)
  next
    case (Cons w ws)
    have "json_run (FObj ?acc (to_valid k) # st) EAfter (CHR '','' # q) =
        json_run (FObj ?acc (to_valid k) # st) EKey q" for q
      by (simp add: json_run_token [of _ TComma q] lex_punct punct_def go_on_def)
    with Cons Cons.IH [of EKey ?acc "to_valid k"] Cons.prems show ?thesis
      by (simp add: m v ends_number_punct)
  qed
qed simp

lemma array_value_reads:
  assumes "\<forall>v \<in> set vs. value_reads html v"
  shows "value_reads html (JArray vs)"
  unfolding value_reads_def
proof (intro allI impI)
  fix st :: "jframe list" and e r
  assume e: "e \<in> {EValue, EValueOrEnd}" and d: "length st + json_depth (JArray vs) \<le> maxNestingDepth"
  have o: "json_run st e (CHR ''['' # q) = json_run (FArr [] # st) EValueOrEnd q" for q
    using d by (simp add: json_run_token [of _ TOpenArr q] lex_punct punct_def begin_tokens [OF e] go_on_def)
  show "json_run st e (json_text html (JArray vs) @ r) = go_on (put (json_valid (JArray vs)) st) r"
  proof (cases "vs = []")
    case True
    have "json_run (FArr [] # st) EValueOrEnd (CHR '']'' # r) = go_on (put (JArray []) st) r"
      by (simp add: json_run_token [of _ TCloseArr r] lex_punct punct_def)
    with True o show ?thesis by simp
  next
    case False
    have "Suc (length st) + json_depth v \<le> maxNestingDepth" if "v \<in> set vs" for v
    proof -
      have "json_depth v \<le> fold max (map json_depth vs) 0"
        using that fold_max_le [of "map json_depth vs" 0 "fold max (map json_depth vs) 0"] by auto
      with d show ?thesis by simp
    qed
    with array_reads [OF False, of html st EValueOrEnd "[]" r] assms o show ?thesis by simp
  qed
qed

lemma object_value_reads:
  assumes "\<forall>(k, v) \<in> set ms. value_reads html v"
  shows "value_reads html (JObject ms)"
  unfolding value_reads_def
proof (intro allI impI)
  fix st :: "jframe list" and e r
  assume e: "e \<in> {EValue, EValueOrEnd}" and d: "length st + json_depth (JObject ms) \<le> maxNestingDepth"
  have o: "json_run st e (CHR ''{'' # q) = json_run (FObj [] '''' # st) EKeyOrEnd q" for q
    using d by (simp add: json_run_token [of _ TOpenObj q] lex_punct punct_def begin_tokens [OF e] go_on_def)
  show "json_run st e (json_text html (JObject ms) @ r) = go_on (put (json_valid (JObject ms)) st) r"
  proof (cases "ms = []")
    case True
    have "json_run (FObj [] '''' # st) EKeyOrEnd (CHR ''}'' # r) = go_on (put (JObject []) st) r"
      by (simp add: json_run_token [of _ TCloseObj r] lex_punct punct_def)
    with True o show ?thesis by simp
  next
    case False
    let ?ds = "map (\<lambda>(k, d). d) (map (map_prod id json_depth) ms)"
    have "Suc (length st) + json_depth v \<le> maxNestingDepth" if "(k, v) \<in> set ms" for k v
    proof -
      have "json_depth v \<in> set ?ds" using that by force
      then have "json_depth v \<le> fold max ?ds 0" using fold_max_le [of ?ds 0 "fold max ?ds 0"] by blast
      with d show ?thesis by simp
    qed
    with assms have "\<forall>(k, v) \<in> set ms. value_reads html v \<and> Suc (length st) + json_depth v \<le> maxNestingDepth"
      by auto
    from object_reads [OF False this, of EKeyOrEnd "[]" "''''" r] o show ?thesis by simp
  qed
qed

lemma value_reads: "json_wf v \<Longrightarrow> value_reads html v"
proof (induction v)
  case (JArray vs)
  then show ?case by (intro array_value_reads) (auto simp: list_all_iff)
next
  case (JObject ms)
  then show ?case by (intro object_value_reads) (fastforce simp: list_all_iff)
next
  case (JNumber t)
  then show ?case
    by (simp add: value_reads_def json_run_token [OF lex_number_token [THEN conjunct1] lex_number_token [THEN conjunct2]]
        begin_tokens)
next
  case (JString s)
  then show ?case by (simp add: value_reads_def json_run_token [OF lex_quote(1) lex_quote(2)] begin_tokens)
next
  case JNull
  have "lex (''null'' @ r) = Some (TLit JNull, r) \<and> skip_ws (''null'' @ r) = ''null'' @ r" for r
    by (simp add: lex.simps punct_def skip_ws_def is_space_def)
  then show ?case by (simp add: value_reads_def json_run_token [of _ "TLit JNull"] begin_tokens)
next
  case (JBool b)
  have "lex (json_text html (JBool b) @ r) = Some (TLit (JBool b), r) \<and>
      skip_ws (json_text html (JBool b) @ r) = json_text html (JBool b) @ r" for r
    by (simp add: lex.simps punct_def skip_ws_def is_space_def)
  then show ?case
    unfolding value_reads_def by (metis begin_tokens(1) json_run_token json_valid.simps(5) option.simps(5))
qed

lemma json_read_back:
  assumes "json_wf v" and "json_depth v \<le> maxNestingDepth" and "ends_number r"
  shows "json_run [] EValue (json_text html v @ r) = Some (json_valid v, r)"
  using value_readsD [OF value_reads [OF assms(1)], of EValue "[]" r html] assms(2,3) by (simp add: go_on_def)

lemma json_Unmarshal_Marshal:
  "json_wf v \<Longrightarrow> json_depth v \<le> maxNestingDepth \<Longrightarrow> json_Unmarshal (json_Marshal v) = Some (json_valid v)"
  using json_read_back [of v "[]" True]
  by (simp add: json_Unmarshal_def json_Marshal_def ends_number_def skip_ws_def)

end
