(* ===== verification/GoFlag.thy ===== *)
theory GoFlag
  imports GoStrings "HOL-Library.AList"
begin

text \<open>
  The parts of Go's \<open>strconv\<close> and \<open>flag\<close> packages that \<open>internal/config\<close> calls:
  \<open>ParseInt\<close> in base ten and base zero (with prefixes and underscores), \<open>ParseBool\<close>, and
  the parser of the command line in its exit-on-error mode.
\<close>

section \<open>strconv\<close>

definition code :: "char \<Rightarrow> nat" where "code c = of_char c"

definition lower_char :: "char \<Rightarrow> char" where
  "lower_char c = (if 65 \<le> code c \<and> code c \<le> 90 then char_of (code c + 32) else c)"

definition digit_value :: "char \<Rightarrow> nat option" where
  "digit_value c =
     (let n = code (lower_char c) in
      if 48 \<le> n \<and> n \<le> 57 then Some (n - 48)
      else if 97 \<le> n \<and> n \<le> 122 then Some (n - 97 + 10) else None)"

text \<open>The loop over the digits; an underscore is skipped in base zero.\<close>

fun parse_digits :: "nat \<Rightarrow> bool \<Rightarrow> nat \<Rightarrow> string \<Rightarrow> nat option" where
  "parse_digits base base0 n [] = Some n"
| "parse_digits base base0 n (c # cs) =
     (if c = CHR ''_'' \<and> base0 then parse_digits base base0 n cs
      else case digit_value c of
          None \<Rightarrow> None
        | Some d \<Rightarrow> if d < base then parse_digits base base0 (n * base + d) cs else None)"

text \<open>The last class of character seen: beginning, digit or prefix, underscore, other.\<close>

datatype saw = SawStart | SawDigit | SawUnder | SawOther

fun under_scan :: "bool \<Rightarrow> saw \<Rightarrow> string \<Rightarrow> bool" where
  "under_scan hex s [] \<longleftrightarrow> s \<noteq> SawUnder"
| "under_scan hex s (c # cs) \<longleftrightarrow>
     (if (48 \<le> code c \<and> code c \<le> 57) \<or>
         (hex \<and> 97 \<le> code (lower_char c) \<and> code (lower_char c) \<le> 102)
      then under_scan hex SawDigit cs
      else if c = CHR ''_'' then s = SawDigit \<and> under_scan hex SawUnder cs
      else s \<noteq> SawUnder \<and> under_scan hex SawOther cs)"

definition base_prefix :: "string \<Rightarrow> nat option" where
  "base_prefix s =
     (if 2 \<le> length s \<and> s ! 0 = CHR ''0'' then
        (if lower_char (s ! 1) = CHR ''b'' then Some 2
         else if lower_char (s ! 1) = CHR ''o'' then Some 8
         else if lower_char (s ! 1) = CHR ''x'' then Some 16 else None)
      else None)"

definition underscoreOK :: "string \<Rightarrow> bool" where
  "underscoreOK s =
     (case base_prefix s of
        Some b \<Rightarrow> under_scan (b = 16) SawDigit (drop 2 s)
      | None \<Rightarrow> under_scan False SawStart s)"

text \<open>Unsigned numbers without a bound; the bound is checked with the sign.\<close>

definition ParseUint0 :: "string \<Rightarrow> nat option" where
  "ParseUint0 s =
     (if s = [] then None
      else
        let (base, rest) =
          (if s ! 0 = CHR ''0'' then
             (case (if 3 \<le> length s then base_prefix s else None) of
                Some b \<Rightarrow> (b, drop 2 s) | None \<Rightarrow> (8, drop 1 s))
           else (10, s))
        in case parse_digits base True 0 rest of
             None \<Rightarrow> None
           | Some n \<Rightarrow> if CHR ''_'' \<in> set rest \<and> \<not> underscoreOK s then None else Some n)"

definition ParseUint10 :: "string \<Rightarrow> nat option" where
  "ParseUint10 s = (if s = [] then None else parse_digits 10 False 0 s)"

text \<open>\<^const>\<open>None\<close>: a syntax error or a value outside 64 bits.\<close>

definition ParseInt_with :: "(string \<Rightarrow> nat option) \<Rightarrow> string \<Rightarrow> int option" where
  "ParseInt_with parse s =
     (if s = [] then None
      else
        let neg = (hd s = CHR ''-''); signed = (hd s = CHR ''+'' \<or> neg)
        in case parse (if signed then tl s else s) of
             None \<Rightarrow> None
           | Some n \<Rightarrow>
               if \<not> neg \<and> 2 ^ 63 \<le> n then None
               else if neg \<and> 2 ^ 63 < n then None
               else Some (if neg then - int n else int n))"

definition Atoi :: "string \<Rightarrow> int option" where
  "Atoi s = ParseInt_with ParseUint10 s"

definition ParseInt0 :: "string \<Rightarrow> int option" where
  "ParseInt0 s = ParseInt_with ParseUint0 s"

definition ParseBool :: "string \<Rightarrow> bool option" where
  "ParseBool s =
     (if s \<in> {''1'', ''t'', ''T'', ''true'', ''TRUE'', ''True''} then Some True
      else if s \<in> {''0'', ''f'', ''F'', ''false'', ''FALSE'', ''False''} then Some False
      else None)"

section \<open>flag\<close>

datatype flag_value = FBool bool | FInt int | FString string

type_synonym flags = "(string \<times> flag_value) list"

datatype flag_result = FlagsOk flags | FlagExit nat

definition flag_set :: "string \<Rightarrow> flag_value \<Rightarrow> flag_value option" where
  "flag_set s old =
     (case old of
        FBool _ \<Rightarrow> map_option FBool (ParseBool s)
      | FInt _ \<Rightarrow> map_option FInt (ParseInt0 s)
      | FString _ \<Rightarrow> Some (FString s))"

text \<open>\<open>name=value\<close>, cut at the first \<open>=\<close> after the first character.\<close>

definition cut_flag :: "string \<Rightarrow> string \<times> string option" where
  "cut_flag nm =
     (case dropWhile (\<lambda>c. c \<noteq> CHR ''='') (tl nm) of
        [] \<Rightarrow> (nm, None)
      | e # v \<Rightarrow> (hd nm # takeWhile (\<lambda>c. c \<noteq> CHR ''='') (tl nm), Some v))"

datatype flag_step = FlagsEnd | FlagBad nat | FlagNext flags "string list"

definition parse_one :: "flags \<Rightarrow> string \<Rightarrow> string list \<Rightarrow> flag_step" where
  "parse_one fs s rest =
     (if length s < 2 \<or> s ! 0 \<noteq> CHR ''-'' then FlagsEnd
      else if s = ''--'' then FlagsEnd
      else
        let nm = (if s ! 1 = CHR ''-'' then drop 2 s else drop 1 s) in
        if nm = [] \<or> hd nm = CHR ''-'' \<or> hd nm = CHR ''='' then FlagBad 2
        else (case cut_flag nm of (name, val) \<Rightarrow>
          (case map_of fs name of
             None \<Rightarrow> FlagBad (if name = ''help'' \<or> name = ''h'' then 0 else 2)
           | Some (FBool b) \<Rightarrow>
               (case flag_set (case val of Some v \<Rightarrow> v | None \<Rightarrow> ''true'') (FBool b) of
                  None \<Rightarrow> FlagBad 2
                | Some v \<Rightarrow> FlagNext (AList.update name v fs) rest)
           | Some old \<Rightarrow>
               (case (case val of Some v \<Rightarrow> Some (v, rest)
                      | None \<Rightarrow> (case rest of [] \<Rightarrow> None | v # vs \<Rightarrow> Some (v, vs))) of
                  None \<Rightarrow> FlagBad 2
                | Some (v, rest1) \<Rightarrow>
                    (case flag_set v old of
                       None \<Rightarrow> FlagBad 2
                     | Some v1 \<Rightarrow> FlagNext (AList.update name v1 fs) rest1)))))"

lemma parse_one_shorter: "parse_one fs s rest = FlagNext fs' rest' \<Longrightarrow> length rest' \<le> length rest"
  by (auto simp: parse_one_def Let_def split: if_splits prod.splits option.splits flag_value.splits list.splits)

function flag_parse :: "flags \<Rightarrow> string list \<Rightarrow> flag_result" where
  "flag_parse fs [] = FlagsOk fs"
| "flag_parse fs (s # rest) =
     (case parse_one fs s rest of
        FlagsEnd \<Rightarrow> FlagsOk fs
      | FlagBad n \<Rightarrow> FlagExit n
      | FlagNext fs' rest' \<Rightarrow> flag_parse fs' rest')"
  by pat_completeness auto
termination
  by (relation "measure (\<lambda>(fs, args). length args)") (auto dest: parse_one_shorter)

text \<open>Parsing keeps the set of flags and the type of each.\<close>

fun same_type :: "flag_value \<Rightarrow> flag_value \<Rightarrow> bool" where
  "same_type (FBool _) (FBool _) = True"
| "same_type (FInt _) (FInt _) = True"
| "same_type (FString _) (FString _) = True"
| "same_type _ _ = False"

definition flags_like :: "flags \<Rightarrow> flags \<Rightarrow> bool" where
  "flags_like fs fs' \<longleftrightarrow> (\<forall>k. rel_option same_type (map_of fs k) (map_of fs' k))"

lemma same_type_refl [simp]: "same_type v v"
  by (cases v) simp_all

lemma same_type_trans: "same_type u v \<Longrightarrow> same_type v w \<Longrightarrow> same_type u w"
  by (cases u; cases v; cases w) simp_all

lemma flags_like_refl [simp]: "flags_like fs fs"
  by (simp add: flags_like_def option.rel_refl)

lemma flags_like_trans:
  assumes "flags_like a b" and "flags_like b c"
  shows "flags_like a c"
  unfolding flags_like_def
proof
  fix k
  have "rel_option same_type (map_of a k) (map_of b k)" "rel_option same_type (map_of b k) (map_of c k)"
    using assms by (simp_all add: flags_like_def)
  then show "rel_option same_type (map_of a k) (map_of c k)"
    by (cases "map_of a k"; cases "map_of b k"; cases "map_of c k") (auto dest: same_type_trans)
qed

lemma flag_set_type: "flag_set s old = Some v \<Longrightarrow> same_type old v"
  by (cases old) (auto simp: flag_set_def)

lemma parse_one_like: "parse_one fs s rest = FlagNext fs' rest' \<Longrightarrow> flags_like fs fs'"
  by (auto simp: parse_one_def Let_def flags_like_def update_conv' option.rel_refl dest!: flag_set_type
      split: if_splits prod.splits option.splits flag_value.splits list.splits)

lemma flag_parse_like: "flag_parse fs args = FlagsOk fs' \<Longrightarrow> flags_like fs fs'"
proof (induction fs args rule: flag_parse.induct)
  case (2 fs s rest)
  then show ?case
    by (auto split: flag_step.splits intro: flags_like_trans [OF parse_one_like])
qed simp

section \<open>Numbers read back\<close>

lemma digit_value_digit_char: "d < 10 \<Longrightarrow> digit_value (digit_char d) = Some d"
  by (simp add: digit_value_def digit_char_def lower_char_def code_def Let_def)

lemma digit_char_plain: "d < 10 \<Longrightarrow> digit_char d \<notin> {CHR ''-'', CHR ''+'', CHR ''_''}"
proof -
  assume d: "d < 10"
  then have "of_char (digit_char d) = (48 + d :: nat)" by (simp add: digit_char_def)
  with d show ?thesis by auto
qed

lemma parse_digits_append:
  "parse_digits b z n (xs @ ys) =
     (case parse_digits b z n xs of None \<Rightarrow> None | Some m \<Rightarrow> parse_digits b z m ys)"
  by (induction b z n xs rule: parse_digits.induct) (auto split: option.split)

lemma parse_show: "parse_digits 10 False 0 (show_base 10 n) = Some n"
proof (induction n rule: less_induct)
  case (less n)
  show ?case
  proof (cases "n < 10")
    case True
    then show ?thesis by (simp add: show_base.simps digit_value_digit_char)
  next
    case False
    then have "parse_digits 10 False 0 (show_base 10 (n div 10)) = Some (n div 10)" by (intro less) simp
    with False show ?thesis
      by (subst show_base.simps) (simp add: parse_digits_append digit_value_digit_char)
  qed
qed

lemma show_base_hd: "\<exists>d < 10. \<exists>t. show_base 10 n = digit_char d # t"
proof (induction n rule: less_induct)
  case (less n)
  show ?case
  proof (cases "n < 10")
    case True
    then show ?thesis by (auto simp: show_base.simps)
  next
    case False
    from less [of "n div 10"] False obtain d t where "d < 10" "show_base 10 (n div 10) = digit_char d # t" by auto
    with False show ?thesis by (subst show_base.simps) auto
  qed
qed

lemma Atoi_Itoa:
  assumes "0 \<le> i" and "i < 2 ^ 63"
  shows "Atoi (Itoa i) = Some i"
proof -
  obtain d t where d: "d < 10" "show_base 10 (nat i) = digit_char d # t" using show_base_hd by blast
  have p: "parse_digits 10 False 0 (digit_char d # t) = Some (nat i)" using parse_show [of "nat i"] d(2) by simp
  have "nat i < 2 ^ 63" using assms by (simp add: nat_less_iff)
  with p d(1) assms digit_char_plain [OF d(1)] show ?thesis
    by (simp add: Atoi_def ParseInt_with_def Itoa_def d(2) ParseUint10_def del: parse_digits.simps)
qed

end
