(* ===== verification/WebJson.thy ===== *)
theory WebJson
  imports WebServer Json GoFlag
begin

text \<open>
  The texts of the web UI: the JSON form of the hub's records with the tags of \<open>hub.go\<close>, \<open>nodes.go\<close>
  and \<open>chat.go\<close>, the answers of \<open>server.go\<close> as bytes, the bytes of the event stream, and the decoding of
  a request to send. Only the text of floating-point numbers and of errors of the protobuf library are
  taken from outside, as the record \<open>web_text\<close>.
\<close>

record web_text =
  wt_f32 :: "f32 \<Rightarrow> string"          \<comment> \<open>a finite \<open>float32\<close> as JSON\<close>
  wt_degrees :: "i32 \<Rightarrow> string"      \<comment> \<open>\<open>float64(x) * 1e-7\<close> as JSON\<close>
  wt_marshal_error :: string

text \<open>The encoder writes numbers as JSON literals.\<close>

definition web_text_ok :: "web_text \<Rightarrow> bool" where
  "web_text_ok T \<longleftrightarrow> (\<forall>x. f32_finite x \<longrightarrow> number_ok (wt_f32 T x)) \<and> (\<forall>c. number_ok (wt_degrees T c))"

section \<open>Times\<close>

text \<open>Year, month and day of a day counted from 1 January 1970.\<close>

definition civil_from_days :: "int \<Rightarrow> int \<times> int \<times> int" where
  "civil_from_days days =
     (let z = days + 719468; era = z div 146097; doe = z mod 146097;
          yoe = (doe - doe div 1460 + doe div 36524 - doe div 146096) div 365;
          doy = doe - (365 * yoe + yoe div 4 - yoe div 100);
          mp = (5 * doy + 2) div 153;
          d = doy - (153 * mp + 2) div 5 + 1;
          m = (if mp < 10 then mp + 3 else mp - 9)
      in (yoe + era * 400 + (if m \<le> 2 then 1 else 0), m, d))"

lemma civil_samples:
  "civil_from_days 0 = (1970, 1, 1)" "civil_from_days 19782 = (2024, 2, 29)" "civil_from_days (- 719162) = (1, 1, 1)"
  by code_simp+

definition pad :: "nat \<Rightarrow> int \<Rightarrow> string" where
  "pad w i = replicate (w - length (Itoa i)) (CHR ''0'') @ Itoa i"

text \<open>\<open>RFC3339Nano\<close> of a time in nanoseconds, in UTC: the fraction without its trailing zeros.\<close>

definition frac_text :: "int \<Rightarrow> string" where
  "frac_text ns =
     (if ns = 0 then '''' else CHR ''.'' # rev (dropWhile (\<lambda>c. c = CHR ''0'') (rev (pad 9 ns))))"

definition rfc3339 :: "int \<Rightarrow> string" where
  "rfc3339 t =
     (let secs = t div 1000000000; ns = t mod 1000000000; day = secs mod 86400 in
      case civil_from_days (secs div 86400) of
        (y, m, d) \<Rightarrow>
          pad 4 y @ ''-'' @ pad 2 m @ ''-'' @ pad 2 d @ ''T'' @ pad 2 (day div 3600) @ '':'' @
          pad 2 (day div 60 mod 60) @ '':'' @ pad 2 (day mod 60) @ frac_text ns @ ''Z'')"

definition json_time :: "gotime \<Rightarrow> json" where
  "json_time t = JString (case t of Some ns \<Rightarrow> rfc3339 ns | None \<Rightarrow> ''0001-01-01T00:00:00Z'')"

section \<open>The records\<close>

definition json_int :: "int \<Rightarrow> json" where "json_int i = JNumber (Itoa i)"

text \<open>\<open>omitempty\<close>: a member only when its value is not the zero value.\<close>

definition omit_str :: "string \<Rightarrow> string \<Rightarrow> (string \<times> json) list" where
  "omit_str k s = (if s = '''' then [] else [(k, JString s)])"

definition omit_u32 :: "string \<Rightarrow> u32 \<Rightarrow> (string \<times> json) list" where
  "omit_u32 k n = (if n = 0 then [] else [(k, json_int (uint n))])"

definition omit_bool :: "string \<Rightarrow> bool \<Rightarrow> (string \<times> json) list" where
  "omit_bool k b = (if b then [(k, JBool True)] else [])"

definition omit_opt :: "string \<Rightarrow> ('a \<Rightarrow> json) \<Rightarrow> 'a option \<Rightarrow> (string \<times> json) list" where
  "omit_opt k f x = (case x of None \<Rightarrow> [] | Some v \<Rightarrow> [(k, f v)])"

lemmas omit_defs = omit_str_def omit_u32_def omit_bool_def omit_opt_def

definition event_json :: "Event \<Rightarrow> json" where
  "event_json ev =
     JObject
       ([(''time'', json_time (ev_Time ev)), (''direction'', JString (ev_Direction ev))] @
        omit_str ''addr'' (ev_Addr ev) @ omit_str ''variant'' (ev_Variant ev) @
        [(''category'', JString (ev_Category ev))] @
        omit_opt ''channel_index'' (json_int \<circ> sint) (ev_ChannelIndex ev) @
        omit_str ''channel_name'' (ev_ChannelName ev) @ omit_str ''summary'' (ev_Summary ev) @
        omit_str ''json'' (ev_JSON ev))"

definition channel_json :: "ChannelInfo \<Rightarrow> json" where
  "channel_json c =
     JObject
       ([(''index'', json_int (sint (ci_Index c)))] @ omit_str ''name'' (ci_Name c) @
        omit_str ''role'' (ci_Role c) @ [(''updated'', json_time (ci_Updated c))])"

definition status_json :: "Status \<Rightarrow> json" where
  "status_json st =
     JObject
       ([(''serial_connected'', JBool (st_SerialConnected st)), (''client_count'', json_int (int (st_ClientCount st)))] @
        omit_str ''primary_addr'' (st_PrimaryAddr st) @ [(''cache_ready'', JBool (st_CacheReady st))] @
        omit_str ''cache_summary'' (st_CacheSummary st) @ omit_u32 ''local_node_num'' (st_LocalNodeNum st))"

text \<open>\<open>omitempty\<close> does not apply to a \<open>time.Time\<close>, which is a struct.\<close>

definition node_json :: "web_text \<Rightarrow> NodeView \<Rightarrow> json" where
  "node_json T n =
     JObject
       ([(''num'', json_int (uint (nv_Num n)))] @ omit_str ''user_id'' (nv_UserID n) @
        omit_str ''long_name'' (nv_LongName n) @ omit_str ''short_name'' (nv_ShortName n) @
        omit_str ''hw_model'' (nv_HwModel n) @ omit_str ''role'' (nv_Role n) @
        (if f32_nonzero (nv_Snr n) then [(''snr'', JNumber (wt_f32 T (nv_Snr n)))] else []) @
        omit_u32 ''last_heard'' (nv_LastHeard n) @ [(''last_activity'', json_time (nv_LastActivity n))] @
        omit_opt ''hops_away'' (json_int \<circ> uint) (nv_HopsAway n) @ omit_bool ''via_mqtt'' (nv_ViaMqtt n) @
        omit_bool ''is_favorite'' (nv_IsFavorite n) @ omit_bool ''is_ignored'' (nv_IsIgnored n) @
        omit_bool ''is_local'' (nv_IsLocal n) @ omit_opt ''battery_level'' (json_int \<circ> uint) (nv_BatteryLevel n) @
        omit_opt ''latitude'' (JNumber \<circ> wt_degrees T) (nv_Latitude n) @
        omit_opt ''longitude'' (JNumber \<circ> wt_degrees T) (nv_Longitude n) @
        omit_opt ''altitude'' (json_int \<circ> sint) (nv_Altitude n) @
        [(''online'', JBool (nv_Online n)), (''updated'', json_time (nv_Updated n))])"

definition chat_json :: "ChatMessage \<Rightarrow> json" where
  "chat_json m =
     JObject
       ([(''time'', json_time (cm_Time m)), (''text'', JString (cm_Text m)), (''from'', json_int (uint (cm_From m))),
         (''to'', json_int (uint (cm_To m))), (''channel'', json_int (sint (cm_Channel m)))] @
        omit_str ''channel_name'' (cm_ChannelName m) @ [(''outgoing'', JBool (cm_Outgoing m))] @
        omit_u32 ''packet_id'' (cm_PacketID m) @ omit_str ''proto_json'' (cm_ProtoJSON m))"

section \<open>Answers\<close>

definition error_text :: "web_text \<Rightarrow> go_error \<Rightarrow> string" where
  "error_text T e =
     (case e of
        ErrSerialClosed \<Rightarrow> ''serial disconnected''
      | ErrSerialNotReady \<Rightarrow> ''serial link not ready''
      | ErrNodeIDUnknown \<Rightarrow> ''local node id not available yet; wait for radio config sync''
      | ErrEmptyMessage \<Rightarrow> ''message text is empty''
      | ErrMessageTooLong n \<Rightarrow>
          ''message exceeds maximum length ('' @ Itoa (int n) @ '' bytes, max '' @ Itoa (int maxTextLen) @ '')''
      | ErrInvalidChannel i \<Rightarrow> ''invalid channel index '' @ Itoa i
      | ErrCannedUnavailable \<Rightarrow> ''canned messages unavailable''
      | ErrContext m \<Rightarrow> m
      | ErrMarshal \<Rightarrow> wt_marshal_error T
      | ErrRadioNotConnected \<Rightarrow> ''radio not connected'')"

text \<open>The maps handed to the encoder, which sorts their keys.\<close>

definition snapshot_members :: "web_text \<Rightarrow> snapshot \<Rightarrow> (string \<times> json) list" where
  "snapshot_members T s =
     [(''events'', JArray (map event_json (sn_events s))), (''channels'', JArray (map channel_json (sn_channels s))),
      (''nodes'', JArray (map (node_json T) (sn_nodes s))), (''status'', status_json (sn_status s)),
      (''chats'', JArray (map chat_json (sn_chats s)))]"

definition body_members :: "web_text \<Rightarrow> json_body \<Rightarrow> (string \<times> json) list" where
  "body_members T v =
     (case v of
        SnapshotBody s \<Rightarrow> snapshot_members T s
      | ChatFailed e \<Rightarrow> [(''ok'', JBool False), (''error'', JString (error_text T e))]
      | ChatOk msg \<Rightarrow> [(''ok'', JBool True), (''message'', chat_json msg)]
      | CannedFailed e \<Rightarrow> [(''ok'', JBool False), (''error'', JString (error_text T e)), (''messages'', JArray [])]
      | CannedOk msgs \<Rightarrow> [(''ok'', JBool True), (''messages'', JArray (map JString msgs))])"

definition body_json :: "web_text \<Rightarrow> json_body \<Rightarrow> json" where
  "body_json T v = json_map (body_members T v)"

text \<open>Status and body of an answer; \<open>http.Error\<close> ends its message with a newline.\<close>

definition response_bytes :: "web_text \<Rightarrow> http_response \<Rightarrow> nat \<times> string" where
  "response_bytes T r =
     (case r of
        HttpError status msg \<Rightarrow> (status, msg @ [CHR 0x0A])
      | HttpJSON v \<Rightarrow> (200, json_Encode (body_json T v))
      | HttpEmpty \<Rightarrow> (200, ''''))"

definition MarshalEvent :: "Event \<Rightarrow> string" where "MarshalEvent ev = json_Marshal (event_json ev)"
definition MarshalChat :: "ChatMessage \<Rightarrow> string" where "MarshalChat msg = json_Marshal (chat_json msg)"

definition nodes_json :: "web_text \<Rightarrow> NodeView list \<Rightarrow> json" where
  "nodes_json T ns = JObject [(''nodes'', JArray (map (node_json T) ns))]"

definition MarshalNodes :: "web_text \<Rightarrow> NodeView list \<Rightarrow> string" where
  "MarshalNodes T ns = json_Marshal (nodes_json T ns)"

text \<open>One event of the stream: its name and its data, and the bytes written.\<close>

definition sse_snapshot_json :: "web_text \<Rightarrow> snapshot \<Rightarrow> json" where
  "sse_snapshot_json T s = json_map ((''type'', JString ''snapshot'') # snapshot_members T s)"

definition sse_value :: "web_text \<Rightarrow> sse_frame \<Rightarrow> string \<times> json" where
  "sse_value T f =
     (case f of
        SseSnapshot s \<Rightarrow> (''snapshot'', sse_snapshot_json T s)
      | SseMessage ev \<Rightarrow> (''message'', event_json ev)
      | SseChat msg \<Rightarrow> (''chat'', chat_json msg)
      | SseNodes ns \<Rightarrow> (''nodes'', nodes_json T ns))"

definition sse_data :: "web_text \<Rightarrow> sse_frame \<Rightarrow> string" where
  "sse_data T f =
     (case f of
        SseSnapshot s \<Rightarrow> json_Marshal (sse_snapshot_json T s)
      | SseMessage ev \<Rightarrow> MarshalEvent ev
      | SseChat msg \<Rightarrow> MarshalChat msg
      | SseNodes ns \<Rightarrow> MarshalNodes T ns)"

definition sse_text :: "web_text \<Rightarrow> sse_frame \<Rightarrow> string" where
  "sse_text T f =
     ''event: '' @ fst (sse_value T f) @ [CHR 0x0A] @ ''data: '' @ sse_data T f @ [CHR 0x0A, CHR 0x0A]"

lemma sse_data_eq: "sse_data T f = json_Marshal (snd (sse_value T f))"
  by (cases f) (simp_all add: sse_data_def sse_value_def MarshalEvent_def MarshalChat_def MarshalNodes_def)

section \<open>Requests\<close>

text \<open>
  Decoding into \<open>chatSendRequest\<close>: names are matched without regard to case, later members win, unknown ones
  are ignored, \<open>null\<close> changes nothing, and a value of the wrong type or out of range is an error.
\<close>

definition fold_name :: "string \<Rightarrow> string" where
  "fold_name s = map lower_char s"

definition field_i32 :: "json \<Rightarrow> i32 option" where
  "field_i32 v =
     (case v of
        JNumber t \<Rightarrow>
          (case ParseInt_with ParseUint10 t of
             Some i \<Rightarrow> if - (2 ^ 31) \<le> i \<and> i < 2 ^ 31 then Some (word_of_int i) else None
           | None \<Rightarrow> None)
      | _ \<Rightarrow> None)"

definition field_u32 :: "json \<Rightarrow> u32 option" where
  "field_u32 v =
     (case v of
        JNumber t \<Rightarrow> (case ParseUint10 t of Some n \<Rightarrow> if n < 2 ^ 32 then Some (word_of_nat n) else None | None \<Rightarrow> None)
      | _ \<Rightarrow> None)"

definition decode_member :: "string \<times> json \<Rightarrow> chatSendRequest \<Rightarrow> chatSendRequest option" where
  "decode_member m r =
     (case m of (k, v) \<Rightarrow>
       if v = JNull then Some r
       else if fold_name k = ''channel'' then
         map_option (\<lambda>i. r\<lparr>csr_Channel := i\<rparr>) (field_i32 v)
       else if fold_name k = ''to'' then
         map_option (\<lambda>n. r\<lparr>csr_To := n\<rparr>) (field_u32 v)
       else if fold_name k = ''text'' then (case v of JString s \<Rightarrow> Some (r\<lparr>csr_Text := s\<rparr>) | _ \<Rightarrow> None)
       else Some r)"

primrec decode_members :: "(string \<times> json) list \<Rightarrow> chatSendRequest \<Rightarrow> chatSendRequest option" where
  "decode_members [] r = Some r"
| "decode_members (m # ms) r = (case decode_member m r of None \<Rightarrow> None | Some r' \<Rightarrow> decode_members ms r')"

definition zero_chatSendRequest :: chatSendRequest where
  "zero_chatSendRequest = \<lparr>csr_Channel = 0, csr_To = 0, csr_Text = ''''\<rparr>"

definition decode_chatSendRequest :: "string \<Rightarrow> chatSendRequest option" where
  "decode_chatSendRequest body =
     (case json_Decode body of
        Some (JObject ms) \<Rightarrow> decode_members ms zero_chatSendRequest
      | Some JNull \<Rightarrow> Some zero_chatSendRequest
      | _ \<Rightarrow> None)"

definition handleChatSend_http ::
  "web_text \<Rightarrow> webenv \<Rightarrow> 'b env_scheme \<Rightarrow> string \<Rightarrow> string \<Rightarrow> radio_ref \<Rightarrow> hub \<Rightarrow>
     ((nat \<times> string) \<times> radio_ref \<times> hub) call" where
  "handleChatSend_http T W E reqMethod body r h =
     (case handleChatSend W E reqMethod (decode_chatSendRequest body) r h of
        Returned (resp, r1, h1) \<Rightarrow> Returned (response_bytes T resp, r1, h1)
      | Panicked \<Rightarrow> Panicked
      | Drawing \<Rightarrow> Drawing)"

section \<open>Every text is well formed\<close>

definition decimal :: "string \<Rightarrow> bool" where
  "decimal s \<longleftrightarrow> s \<noteq> [] \<and> list_all is_digit s \<and> (s = ''0'' \<or> hd s \<noteq> CHR ''0'')"

lemma is_digit_char: "d < 10 \<Longrightarrow> is_digit (digit_char d)"
  by (simp add: digit_char_def is_digit_def)

lemma decimal_show_base: "decimal (show_base 10 n)"
proof (induction "10 :: nat" n rule: show_base.induct)
  case (1 n)
  show ?case
  proof (cases "n < 10")
    case True
    then have "show_base 10 n = [digit_char n]" by (subst show_base.simps) simp
    moreover have z: "digit_char 0 = CHR ''0''" by (simp add: digit_char_def char_of_eq_iff)
    moreover have "n = 0 \<or> digit_char n \<noteq> CHR ''0''" using True digit_char_inject [of n 0] z by auto
    ultimately show ?thesis using True by (auto simp: decimal_def is_digit_char)
  next
    case False
    then have "show_base 10 n = show_base 10 (n div 10) @ [digit_char (n mod 10)]" by (subst show_base.simps) simp
    moreover have "decimal (show_base 10 (n div 10))" using 1 False by simp
    moreover have "show_base 10 (n div 10) \<noteq> ''0''"
    proof
      assume z: "show_base 10 (n div 10) = ''0''"
      have "show_base 10 0 = ''0''" by (subst show_base.simps) (simp add: digit_char_def char_of_eq_iff)
      with z have "n div 10 = 0" using parse_show [of "n div 10"] parse_show [of 0] by simp
      with False show False by simp
    qed
    ultimately show ?thesis by (auto simp: decimal_def is_digit_char)
  qed
qed

lemma number_ok_decimal:
  assumes "decimal s"
  shows "number_ok s" "number_ok (CHR ''-'' # s)"
proof -
  have d: "takeWhile is_digit s = s" "dropWhile is_digit s = []" "is_digit (hd s)"
    using assms by (cases s; auto simp: decimal_def list_all_iff)+
  have i: "lex_int s = Some (s, [])"
    using assms d by (auto simp: lex_int_def decimal_def)
  have "hd s \<noteq> CHR ''-''" using d(3) by (auto simp: is_digit_def)
  with i assms show "number_ok s" "number_ok (CHR ''-'' # s)"
    by (simp_all add: number_ok_def lex_number_def lex_frac_def lex_exp_def Let_def decimal_def)
qed

lemma number_ok_Itoa [simp]: "number_ok (Itoa i)"
  by (simp add: Itoa_def number_ok_decimal decimal_show_base)

lemma list_all_omit [simp]:
  "list_all P (omit_str k s) \<longleftrightarrow> s = '''' \<or> P (k, JString s)"
  "list_all P (omit_u32 k n) \<longleftrightarrow> n = 0 \<or> P (k, json_int (uint n))"
  "list_all P (omit_bool k b) \<longleftrightarrow> \<not> b \<or> P (k, JBool True)"
  "list_all P (omit_opt k f x) \<longleftrightarrow> (\<forall>v. x = Some v \<longrightarrow> P (k, f v))"
  by (auto simp: omit_defs split: option.split)

lemma wf_object: "json_wf (JObject ms) \<longleftrightarrow> list_all (\<lambda>(k, v). json_wf v) ms"
  by (induction ms) auto

lemma wf_array: "json_wf (JArray vs) \<longleftrightarrow> list_all json_wf vs"
  by (induction vs) auto

lemma depth_object: "json_depth (JObject ms) \<le> Suc d \<longleftrightarrow> list_all (\<lambda>(k, v). json_depth v \<le> d) ms"
  by (auto simp: fold_max_le list_all_iff)

lemma depth_array: "json_depth (JArray vs) \<le> Suc d \<longleftrightarrow> list_all (\<lambda>v. json_depth v \<le> d) vs"
  by (auto simp: fold_max_le list_all_iff)

text \<open>A value the encoder accepts, nested at most so deep.\<close>

definition json_good :: "nat \<Rightarrow> json \<Rightarrow> bool" where
  "json_good d v \<longleftrightarrow> json_wf v \<and> json_depth v \<le> d"

lemma good_leaf [simp]:
  "json_good d (JString s)" "json_good d (JBool b)" "json_good d (JNumber t) \<longleftrightarrow> number_ok t"
  "json_good d (json_int i)" "json_good d (json_time at)"
  by (simp_all add: json_good_def json_int_def json_time_def)

lemma good_object: "json_good (Suc d) (JObject ms) \<longleftrightarrow> list_all (\<lambda>(k, v). json_good d v) ms"
  unfolding json_good_def wf_object depth_object by (auto simp: list_all_iff)

lemma good_array: "json_good (Suc d) (JArray vs) \<longleftrightarrow> list_all (json_good d) vs"
  unfolding json_good_def wf_array depth_array by (auto simp: list_all_iff)

lemma good_map: "json_good (Suc d) (json_map ms) \<longleftrightarrow> list_all (\<lambda>(k, v). json_good d v) ms"
  unfolding json_map_def good_object by (simp add: list_all_iff)

lemma good_records [simp]:
  "json_good (Suc d) (event_json ev)" "json_good (Suc d) (channel_json c)"
  "json_good (Suc d) (status_json st)" "json_good (Suc d) (chat_json m)"
  by (simp_all add: event_json_def channel_json_def status_json_def chat_json_def good_object)

lemma good_node [simp]: "web_text_ok T \<Longrightarrow> f32_finite (nv_Snr n) \<Longrightarrow> json_good (Suc d) (node_json T n)"
  by (simp add: node_json_def good_object web_text_ok_def)

lemma good_members:
  "web_text_ok T \<Longrightarrow> json_nodes_ok (sn_nodes s) \<Longrightarrow>
     list_all (\<lambda>(k, v). json_good (Suc (Suc d)) v) (snapshot_members T s)"
  by (simp add: snapshot_members_def good_array json_nodes_ok_def list_all_iff)

lemma good_body: "web_text_ok T \<Longrightarrow> json_ok v \<Longrightarrow> json_good 3 (body_json T v)"
  using good_members [of T _ 0]
  by (cases v) (simp_all add: body_json_def body_members_def json_ok_def good_map numeral_eq_Suc good_array list_all_iff)

definition frame_json_ok :: "sse_frame \<Rightarrow> bool" where
  "frame_json_ok f =
     (case f of SseSnapshot s \<Rightarrow> json_nodes_ok (sn_nodes s) | SseNodes ns \<Rightarrow> json_nodes_ok ns | _ \<Rightarrow> True)"

lemma good_frame: "web_text_ok T \<Longrightarrow> frame_json_ok f \<Longrightarrow> json_good 3 (snd (sse_value T f))"
  using good_members [of T _ 0]
  by (cases f)
    (simp_all add: sse_value_def frame_json_ok_def sse_snapshot_json_def nodes_json_def good_map good_object good_array
      numeral_eq_Suc json_nodes_ok_def list_all_iff)

lemma good_read_back:
  "json_good 3 v \<Longrightarrow> json_Unmarshal (json_Marshal v) = Some (json_valid v)"
  "json_good 3 v \<Longrightarrow> json_Unmarshal (json_Encode v) = Some (json_valid v)"
proof -
  assume "json_good 3 v"
  then have v: "json_wf v" "json_depth v \<le> maxNestingDepth" by (simp_all add: json_good_def maxNestingDepth_def)
  then show "json_Unmarshal (json_Marshal v) = Some (json_valid v)" by (rule json_Unmarshal_Marshal)
  have "ends_number [CHR 0x0A]" by (simp add: ends_number_def is_digit_def)
  from json_read_back [OF v this, of False] show "json_Unmarshal (json_Encode v) = Some (json_valid v)"
    by (simp add: json_Unmarshal_def json_Encode_def skip_ws_def is_space_def)
qed

end
