(* ===== verification/WebBytes.thy ===== *)
theory WebBytes
  imports WebJson
begin

text \<open>
  What a browser gets out of the bytes of \<open>WebJson\<close>: the event stream can be cut into its events and
  their data decoded, a request written as JSON arrives as it was meant, and every answer has the
  documented members and types.
\<close>

section \<open>No line break inside a JSON text\<close>

definition printable :: "char \<Rightarrow> bool" where
  "printable c \<longleftrightarrow> 0x20 \<le> byte_of c"

lemma printable_marks [simp]:
  "printable (CHR ''['')" "printable (CHR '']'')" "printable (CHR ''{'')" "printable (CHR ''}'')"
  "printable (CHR '','')" "printable (CHR '':'')"
  by (simp_all add: printable_def)

lemma printable_digit: "n < 16 \<Longrightarrow> printable (digit_char n)"
  by (simp add: printable_def digit_char_def)

lemma printable_esc_ascii: "list_all printable (esc_ascii html c)"
proof (cases "map_of short_escapes c")
  case (Some e)
  then have "(c, e) \<in> set short_escapes" by (rule map_of_SomeD)
  then have "printable e" by (auto simp: short_escapes_def printable_def)
  with Some show ?thesis by (simp add: esc_ascii_def printable_def)
next
  case None
  show ?thesis
  proof (cases "byte_of c < 0x20 \<or> html \<and> c \<in> {CHR ''<'', CHR ''>'', CHR ''&''}")
    case True
    then have "byte_of c < 0x80" by auto
    then have "byte_of c div 16 < 16" "byte_of c mod 16 < 16" by simp_all
    with None True show ?thesis
      by (simp add: esc_ascii_def printable_digit) (simp add: printable_def)
  next
    case False
    with None have "esc_ascii html c = [c]" by (auto simp: esc_ascii_def)
    with False show ?thesis by (simp add: printable_def)
  qed
qed

lemma printable_escape: "list_all printable (json_escape html s)"
proof (induction html s rule: json_escape.induct)
  case (1 html s)
  show ?case
  proof (cases s)
    case Nil
    then show ?thesis by (simp add: json_escape.simps)
  next
    case (Cons c t)
    have r: "list_all printable (esc_rune (take (rune_size s) s))" if "\<not> byte_of c < 0x80"
    proof -
      have "list_all printable (take (rune_size s) s)"
        using rune_bytes_high [OF refl that] by (force simp: Cons list_all_iff printable_def)
      then show ?thesis by (auto simp: esc_rune_def printable_def)
    qed
    show ?thesis
      using "1.IH" [OF Cons] r Cons
      by (subst json_escape.simps) (simp add: Let_def printable_esc_ascii, simp add: printable_def)
  qed
qed

lemma printable_quote: "list_all printable (json_quote html s)"
  by (simp add: json_quote_def printable_escape printable_def)

lemma printable_number:
  assumes "number_ok t"
  shows "list_all printable t"
proof -
  have d: "list_all printable (takeWhile is_digit s)" for s
    by (auto simp: list_all_iff printable_def is_digit_def dest!: set_takeWhileD)
  have i: "list_all printable i" if "lex_int s = Some (i, r)" for s i r
    using that d [of s] by (auto simp: lex_int_def printable_def split: if_splits)
  have f: "list_all printable f" if "lex_frac s = Some (f, r)" for s f r
    using that d [of "tl s"] by (auto simp: lex_frac_def printable_def split: if_splits)
  have e: "list_all printable e" if "lex_exp s = Some (e, r)" for s e r
    using that d by (auto simp: lex_exp_def Let_def printable_def split: if_splits)
  from assms show ?thesis
    unfolding number_ok_def lex_number_def Let_def
    by (auto split: option.splits if_splits dest!: i f e simp: printable_def)
qed

lemma printable_join: "list_all (list_all printable) ps \<Longrightarrow> list_all printable (join_with (CHR '','') ps)"
  by (induction "CHR '',''" ps rule: join_with.induct) (simp_all add: printable_def)

lemma printable_json: "json_wf v \<Longrightarrow> list_all printable (json_text html v)"
proof (induction v)
  case (JArray vs)
  then have "list_all printable (join_with (CHR '','') (map (json_text html) vs))"
    by (intro printable_join) (simp add: list_all_iff)
  then show ?case by simp
next
  case (JObject ms)
  then have "list_all printable (json_quote html k @ '':'' @ json_text html v)" if "(k, v) \<in> set ms" for k v
    using that printable_quote [of html k] by (fastforce simp: list_all_iff)
  then have "list_all printable (join_with (CHR '','') (map (\<lambda>(k, v). json_quote html k @ '':'' @ json_text html v) ms))"
    by (intro printable_join) (auto simp: list_all_iff)
  then show ?case by simp
qed (simp_all add: printable_number printable_quote, simp_all add: printable_def)

lemma good_printable: "json_good d v \<Longrightarrow> list_all printable (json_Marshal v)"
  by (simp add: json_good_def json_Marshal_def printable_json)

section \<open>Reading the event stream\<close>

text \<open>Three lines per event: its name, its data, and an empty line.\<close>

fun sse_read_lines :: "string list \<Rightarrow> (string \<times> json) list option" where
  "sse_read_lines (l1 # l2 # l3 # ls) =
     (if take 7 l1 = ''event: '' \<and> take 6 l2 = ''data: '' \<and> l3 = '''' then
        (case json_Unmarshal (drop 6 l2) of
           None \<Rightarrow> None
         | Some v \<Rightarrow> map_option (Cons (drop 7 l1, v)) (sse_read_lines ls))
      else None)"
| "sse_read_lines ls = (if ls = [''''] then Some [] else None)"

text \<open>Lines end with a line feed, a carriage return, or both.\<close>

definition line_end :: "char \<Rightarrow> bool" where
  "line_end c \<longleftrightarrow> c \<in> {CHR 0x0A, CHR 0x0D}"

function sse_lines :: "string \<Rightarrow> string list" where
  "sse_lines s =
     (let line = takeWhile (\<lambda>c. \<not> line_end c) s; rest = drop (length line) s in
      if rest = [] then [line]
      else if take 2 rest = [CHR 0x0D, CHR 0x0A] then line # sse_lines (drop 2 rest)
      else line # sse_lines (tl rest))"
  by auto
termination
  by (relation "measure length") (auto simp: Let_def)

declare sse_lines.simps [simp del]

lemma sse_lines_line:
  assumes "list_all (\<lambda>c. \<not> line_end c) p"
  shows "sse_lines (p @ CHR 0x0A # s) = p # sse_lines s"
proof -
  have "takeWhile (\<lambda>c. \<not> line_end c) (p @ CHR 0x0A # s) = p"
    using assms by (simp add: list_all_iff takeWhile_append2 line_end_def [of "CHR 0x0A"])
  then show ?thesis by (subst sse_lines.simps) (simp add: Let_def)
qed

lemma printable_line: "list_all printable p \<Longrightarrow> list_all (\<lambda>c. \<not> line_end c) p"
  by (auto simp: list_all_iff printable_def line_end_def)

definition sse_read :: "string \<Rightarrow> (string \<times> json) list option" where
  "sse_read s = sse_read_lines (sse_lines s)"

definition sse_seen :: "web_text \<Rightarrow> sse_frame \<Rightarrow> string \<times> json" where
  "sse_seen T f = (case sse_value T f of (name, v) \<Rightarrow> (name, json_valid v))"

lemma sse_read_frame:
  assumes "web_text_ok T" and "frame_json_ok f"
  shows "sse_read (sse_text T f @ s) = map_option (Cons (sse_seen T f)) (sse_read s)"
proof -
  obtain name v where v: "sse_value T f = (name, v)" by fastforce
  have g: "json_good 3 v" using good_frame [OF assms] by (simp add: v)
  have n: "list_all printable name" using v by (cases f) (auto simp: sse_value_def printable_def)
  have p: "list_all printable (''event: '' @ name)" "list_all printable (''data: '' @ json_Marshal v)"
    using n good_printable [OF g] by (simp_all add: printable_def)
  have "sse_lines (sse_text T f @ s) =
      (''event: '' @ name) # (''data: '' @ json_Marshal v) # '''' # sse_lines s"
    using sse_lines_line [OF printable_line [OF p(1)]] sse_lines_line [OF printable_line [OF p(2)]] sse_lines_line [of "[]"]
    by (simp add: sse_text_def sse_data_eq v)
  then show ?thesis
    using good_read_back(1) [OF g] by (simp add: sse_read_def sse_seen_def v)
qed

lemma sse_read_frames:
  assumes "web_text_ok T"
  shows "list_all frame_json_ok fs \<Longrightarrow> sse_read (concat (map (sse_text T) fs)) = Some (map (sse_seen T) fs)"
proof (induction fs)
  case Nil
  show ?case by (simp add: sse_read_def sse_lines.simps [of "[]"] Let_def)
next
  case (Cons f fs)
  then show ?case by (simp add: sse_read_frame [OF assms])
qed

text \<open>What the handler writes can always be encoded.\<close>

lemma turn_out:
  assumes "handleEvents_turn c s h = SseLoop s' h'"
  shows "ss_out s' = ss_out s \<or> (\<exists>f. frame_json_ok f \<and> ss_out s' = ss_out s @ [f])"
proof (cases c)
  case SseEvCh
  obtain r t where "topic_receive (ss_ev s) (h_subscribers h) = (r, t)" by fastforce
  with SseEvCh assms show ?thesis by (cases r) (auto simp: handleEvents_turn_def frame_json_ok_def)
next
  case SseChatCh
  obtain r t where "topic_receive (ss_chat s) (h_chatSubs h) = (r, t)" by fastforce
  with SseChatCh assms show ?thesis by (cases r) (auto simp: handleEvents_turn_def frame_json_ok_def)
next
  case SseNodeCh
  obtain r t where "topic_receive (ss_node s) (h_nodeSubs h) = (r, t)" by fastforce
  with SseNodeCh assms show ?thesis
    by (cases r) (auto simp: handleEvents_turn_def frame_json_ok_def Let_def split: if_splits)
qed (use assms in \<open>simp add: handleEvents_turn_def\<close>)

lemma sse_out_ok:
  assumes "(sse_step W E)\<^sup>*\<^sup>* p q" and "list_all frame_json_ok (ss_out (fst p))"
  shows "list_all frame_json_ok (ss_out (fst q))"
  using assms
proof (induction rule: rtranclp_induct)
  case (step q r)
  from step.hyps(2) step.IH [OF step.prems] show ?case
    by cases (auto dest: turn_out)
qed simp

lemma snapshot_out_ok: "list_all frame_json_ok (handleEvents_snapshot now h1 h2 h3)"
  by (simp add: handleEvents_snapshot_def Let_def frame_json_ok_def json_ok_def)

lemma subscribe_out: "handleEvents_subscribe out h = (s, h') \<Longrightarrow> ss_out s = out"
  by (auto simp: handleEvents_subscribe_def split: prod.splits)

text \<open>A sample of the outside texts.\<close>

definition sample_text :: web_text where
  "sample_text = \<lparr>wt_f32 = (\<lambda>_. ''1.5''), wt_degrees = (\<lambda>c. Itoa (sint c)), wt_marshal_error = ''e''\<rparr>"

lemma number_ok_sample: "number_ok ''1.5''"
  by code_simp

lemma web_text_ok_sample [simp]: "web_text_ok sample_text"
  by (simp add: web_text_ok_def sample_text_def number_ok_sample)

text \<open>An event whose summary holds line breaks, the start of another event and a byte that is not UTF-8.\<close>

definition hostile_event :: Event where
  "hostile_event =
     \<lparr>ev_Time = Some 0, ev_Direction = ''rx'', ev_Addr = '''', ev_Variant = '''', ev_Category = ''text'',
      ev_ChannelIndex = None, ev_ChannelName = '''',
      ev_Summary = [CHR 0x0A, CHR 0x0D, CHR 0x0A] @ ''event: chat'' @ [CHR 0x0A, CHR 0xFF], ev_JSON = ''''\<rparr>"

text \<open>
  C33: the event stream a browser reads. Along every run of a stream, whatever text the mesh, the
  radio and the clients put into the records, the bytes written can be cut into events and
  decoded, and the result is the sequence of events the handler sent, with invalid UTF-8 replaced. No
  text can break the framing or forge an event.
\<close>

theorem browser_reads_stream:
  assumes "web_text_ok T" and "handleEvents_subscribe (handleEvents_snapshot now h1 h2 h3) h = (s0, h0)"
    and "(sse_step W E)\<^sup>*\<^sup>* (s0, h0) (s, h')"
  shows "sse_read (concat (map (sse_text T) (ss_out s))) = Some (map (sse_seen T) (ss_out s))"
proof -
  have "list_all frame_json_ok (ss_out (fst (s0, h0)))"
    using subscribe_out [OF assms(2)] snapshot_out_ok by simp
  from sse_out_ok [OF assms(3) this] show ?thesis using sse_read_frames [OF assms(1)] by simp
qed

theorem browser_reads_stream_witness:
  "\<exists>s0 h0. handleEvents_subscribe (handleEvents_snapshot 0 (NewHub\<lparr>h_events := [hostile_event]\<rparr>) NewHub NewHub) NewHub =
       (s0, h0) \<and>
     sse_read (concat (map (sse_text sample_text) (ss_out s0))) = Some (map (sse_seen sample_text) (ss_out s0)) \<and>
     map fst (map (sse_seen sample_text) (ss_out s0)) = [''snapshot'']"
proof -
  let ?h = "NewHub\<lparr>h_events := [hostile_event]\<rparr>"
  obtain s0 h0 where q: "handleEvents_subscribe (handleEvents_snapshot 0 ?h NewHub NewHub) NewHub = (s0, h0)"
    by fastforce
  have "map fst (map (sse_seen sample_text) (handleEvents_snapshot 0 ?h NewHub NewHub)) = [''snapshot'']"
    by (simp add: handleEvents_snapshot_def take_snapshot_def Snapshot_def SnapshotNodes_def NewHub_def sort_nodes_def
        json_ok_def json_nodes_ok_def Let_def sse_seen_def sse_value_def)
  then have "map fst (map (sse_seen sample_text) (ss_out s0)) = [''snapshot'']" using subscribe_out [OF q] by simp
  moreover have "sse_read (concat (map (sse_text sample_text) (ss_out s0))) = Some (map (sse_seen sample_text) (ss_out s0))"
    by (rule browser_reads_stream [OF web_text_ok_sample q]) (rule rtranclp.rtrancl_refl)
  ultimately show ?thesis using q by (intro exI conjI)
qed

end
