(* ===== verification/WebApi.thy ===== *)
theory WebApi
  imports WebBytes
begin

text \<open>
  The requests and answers of the web UI as JSON: a request written by any encoder arrives as it was
  meant, and every answer has the documented members and types.
\<close>

section \<open>Numbers\<close>

lemma ParseUint10_Itoa: "0 \<le> i \<Longrightarrow> ParseUint10 (Itoa i) = Some (nat i)"
  using decimal_show_base [of "nat i"] by (simp add: ParseUint10_def Itoa_def parse_show decimal_def)

lemma ParseInt_Itoa:
  assumes "- (2 ^ 63) \<le> i" and "i < 2 ^ 63"
  shows "ParseInt_with ParseUint10 (Itoa i) = Some i"
proof (cases "0 \<le> i")
  case True
  then show ?thesis using Atoi_Itoa [OF _ assms(2)] by (simp add: Atoi_def)
next
  case False
  then have "nat (- i) \<le> 2 ^ 63" using assms by (simp add: nat_le_iff)
  moreover have "show_base 10 (nat (- i)) \<noteq> []" using decimal_show_base by (simp add: decimal_def)
  ultimately show ?thesis using False
    by (simp add: ParseInt_with_def Itoa_def ParseUint10_def parse_show)
qed

lemma field_i32_int: "field_i32 (json_int (sint x)) = Some (x :: i32)"
proof -
  have "- (2 ^ 31) \<le> sint x" "sint x < 2 ^ 31" using sint_range_size [of x] by (simp_all add: word_size)
  then show ?thesis using ParseInt_Itoa [of "sint x"] by (simp add: field_i32_def json_int_def)
qed

lemma field_u32_int: "field_u32 (json_int (uint x)) = Some (x :: u32)"
proof -
  have "nat (uint x) < 2 ^ 32" using unsigned_less [of x] by (simp add: nat_less_iff)
  then show ?thesis by (simp add: field_u32_def json_int_def ParseUint10_Itoa)
qed

section \<open>Requests\<close>

definition chatSendRequest_members :: "i32 \<Rightarrow> u32 \<Rightarrow> string \<Rightarrow> (string \<times> json) list" where
  "chatSendRequest_members ch to txt =
     [(''channel'', json_int (sint ch)), (''to'', json_int (uint to)), (''text'', JString txt)]"

lemma fold_names: "fold_name ''channel'' = ''channel''" "fold_name ''to'' = ''to''" "fold_name ''text'' = ''text''"
  by code_simp+

lemma decode_int_members [simp]:
  "decode_member (''channel'', json_int (sint ch)) r = Some (r\<lparr>csr_Channel := ch\<rparr>)"
  "decode_member (''to'', json_int (uint to)) r = Some (r\<lparr>csr_To := to\<rparr>)"
  "decode_member (''text'', JString txt) r = Some (r\<lparr>csr_Text := txt\<rparr>)"
  using field_i32_int [of ch] field_u32_int [of to]
  by (simp_all add: decode_member_def fold_names json_int_def)

lemma decode_any_order:
  assumes "mset ms = mset (chatSendRequest_members ch to txt)"
  shows "decode_members ms zero_chatSendRequest = Some \<lparr>csr_Channel = ch, csr_To = to, csr_Text = txt\<rparr>"
proof -
  have "length ms = 3" using mset_eq_length [OF assms] by (simp add: chatSendRequest_members_def)
  then obtain a b c where ms: "ms = [a, b, c]" by (auto simp: numeral_3_eq_3 length_Suc_conv)
  have d: "distinct ms" using mset_eq_imp_distinct_iff [OF assms] by (simp add: chatSendRequest_members_def)
  have "set ms = set (chatSendRequest_members ch to txt)" using assms by (rule mset_eq_setD)
  then have "a \<in> set (chatSendRequest_members ch to txt)" "b \<in> set (chatSendRequest_members ch to txt)"
    "c \<in> set (chatSendRequest_members ch to txt)" unfolding ms by auto
  with d show ?thesis
    unfolding ms chatSendRequest_members_def list.set insert_iff empty_iff
    by (elim disjE) (simp_all add: zero_chatSendRequest_def)
qed

text \<open>The bytes of a request: the members in any order, any escapes, anything after the object.\<close>

lemma decode_request:
  assumes "mset ms = mset (chatSendRequest_members ch to txt)" and "ends_number rest"
  shows "decode_chatSendRequest (json_text html (JObject ms) @ rest) =
           Some \<lparr>csr_Channel = ch, csr_To = to, csr_Text = to_valid txt\<rparr>"
proof -
  let ?f = "\<lambda>(k, v). (to_valid k, json_valid v)"
  have m: "map ?f (chatSendRequest_members ch to txt) = chatSendRequest_members ch to (to_valid txt)"
    by (simp add: chatSendRequest_members_def to_valid_id utf8_ascii json_int_def)
  have "list_all (\<lambda>(k, v). json_good 0 v) (chatSendRequest_members ch to txt)"
    by (simp add: chatSendRequest_members_def)
  then have "json_good 1 (JObject ms)"
    using mset_eq_setD [OF assms(1)] by (simp add: good_object list_all_iff)
  then have "json_Decode (json_text html (JObject ms) @ rest) = Some (JObject (map ?f ms))"
    using json_read_back [OF _ _ assms(2), of "JObject ms" html]
    by (simp add: json_good_def json_Decode_def maxNestingDepth_def)
  moreover have "mset (map ?f ms) = mset (chatSendRequest_members ch to (to_valid txt))"
    unfolding m [symmetric] mset_map assms(1) ..
  ultimately show ?thesis
    using decode_any_order by (simp add: decode_chatSendRequest_def)
qed

section \<open>Shapes of answers\<close>

text \<open>The members of an object: name, whether it may be left out, and the shape of its value.\<close>

datatype shape =
    Exactly json | SBool | SInt int int | SNumber | SString | SList shape | SObj "(string \<times> bool \<times> shape) list"

definition int_between :: "int \<Rightarrow> int \<Rightarrow> json \<Rightarrow> bool" where
  "int_between lo hi v =
     (case v of
        JNumber t \<Rightarrow> (case ParseInt_with ParseUint10 t of Some i \<Rightarrow> lo \<le> i \<and> i < hi | None \<Rightarrow> False)
      | _ \<Rightarrow> False)"

text \<open>The members in their order, optional ones left out or present.\<close>

fun has_shape :: "shape \<Rightarrow> json \<Rightarrow> bool"
  and has_members :: "(string \<times> bool \<times> shape) list \<Rightarrow> (string \<times> json) list \<Rightarrow> bool" where
  "has_shape (Exactly w) v \<longleftrightarrow> v = w"
| "has_shape SBool v \<longleftrightarrow> (case v of JBool _ \<Rightarrow> True | _ \<Rightarrow> False)"
| "has_shape (SInt lo hi) v \<longleftrightarrow> int_between lo hi v"
| "has_shape SNumber v \<longleftrightarrow> (case v of JNumber t \<Rightarrow> number_ok t | _ \<Rightarrow> False)"
| "has_shape SString v \<longleftrightarrow> (case v of JString s \<Rightarrow> utf8_Valid s | _ \<Rightarrow> False)"
| "has_shape (SList sh) v \<longleftrightarrow> (case v of JArray vs \<Rightarrow> list_all (has_shape sh) vs | _ \<Rightarrow> False)"
| "has_shape (SObj fs) v \<longleftrightarrow> (case v of JObject ms \<Rightarrow> has_members fs ms | _ \<Rightarrow> False)"
| "has_members [] ms \<longleftrightarrow> ms = []"
| "has_members ((k, opt, sh) # fs) ms \<longleftrightarrow>
     (case ms of
        (k', v) # ms' \<Rightarrow> k' = k \<and> has_shape sh v \<and> has_members fs ms' \<or> opt \<and> has_members fs ms
      | [] \<Rightarrow> opt \<and> has_members fs [])"

abbreviation (input) req :: "string \<Rightarrow> shape \<Rightarrow> string \<times> bool \<times> shape" where "req k sh \<equiv> (k, False, sh)"
abbreviation (input) opt :: "string \<Rightarrow> shape \<Rightarrow> string \<times> bool \<times> shape" where "opt k sh \<equiv> (k, True, sh)"
abbreviation (input) i32_shape :: shape where "i32_shape \<equiv> SInt (- 0x80000000) 0x80000000"
abbreviation (input) u32_shape :: shape where "u32_shape \<equiv> SInt 0 0x100000000"

definition event_shape :: shape where
  "event_shape = SObj
     [req ''time'' SString, req ''direction'' SString, opt ''addr'' SString, opt ''variant'' SString,
      req ''category'' SString, opt ''channel_index'' i32_shape, opt ''channel_name'' SString,
      opt ''summary'' SString, opt ''json'' SString]"

definition channel_shape :: shape where
  "channel_shape = SObj
     [req ''index'' i32_shape, opt ''name'' SString, opt ''role'' SString, req ''updated'' SString]"

definition status_shape :: shape where
  "status_shape = SObj
     [req ''serial_connected'' SBool, req ''client_count'' (SInt 0 0x8000000000000000), opt ''primary_addr'' SString,
      req ''cache_ready'' SBool, opt ''cache_summary'' SString, opt ''local_node_num'' u32_shape]"

definition node_shape :: shape where
  "node_shape = SObj
     [req ''num'' u32_shape, opt ''user_id'' SString, opt ''long_name'' SString, opt ''short_name'' SString,
      opt ''hw_model'' SString, opt ''role'' SString, opt ''snr'' SNumber, opt ''last_heard'' u32_shape,
      req ''last_activity'' SString, opt ''hops_away'' u32_shape, opt ''via_mqtt'' (Exactly (JBool True)),
      opt ''is_favorite'' (Exactly (JBool True)), opt ''is_ignored'' (Exactly (JBool True)),
      opt ''is_local'' (Exactly (JBool True)), opt ''battery_level'' u32_shape, opt ''latitude'' SNumber,
      opt ''longitude'' SNumber, opt ''altitude'' i32_shape, req ''online'' SBool, req ''updated'' SString]"

definition chat_shape :: shape where
  "chat_shape = SObj
     [req ''time'' SString, req ''text'' SString, req ''from'' u32_shape, req ''to'' u32_shape,
      req ''channel'' i32_shape, opt ''channel_name'' SString, req ''outgoing'' SBool,
      opt ''packet_id'' u32_shape, opt ''proto_json'' SString]"

definition snapshot_shape :: "(string \<times> bool \<times> shape) list" where
  "snapshot_shape =
     [req ''channels'' (SList channel_shape), req ''chats'' (SList chat_shape), req ''events'' (SList event_shape),
      req ''nodes'' (SList node_shape), req ''status'' status_shape]"

lemmas shape_defs = event_shape_def channel_shape_def status_shape_def node_shape_def chat_shape_def

section \<open>The records have their shapes\<close>

abbreviation (input) valid_members :: "(string \<times> json) list \<Rightarrow> (string \<times> json) list" where
  "valid_members ms \<equiv> map (\<lambda>(k, v). (to_valid k, json_valid v)) ms"

text \<open>An optional member, absent or with a value of its shape.\<close>

definition fits :: "string \<Rightarrow> shape \<Rightarrow> (string \<times> json) list \<Rightarrow> bool" where
  "fits k sh ms \<longleftrightarrow> ms = [] \<or> (\<exists>v. ms = [(k, v)] \<and> has_shape sh (json_valid v))"

lemma members_none: "has_members [] (valid_members [])"
  by simp

lemma members_required:
  "to_valid k = k \<Longrightarrow> has_shape sh (json_valid v) \<Longrightarrow> has_members fs (valid_members ms) \<Longrightarrow>
     has_members (req k sh # fs) (valid_members ((k, v) # ms))"
  by simp

lemma members_optional:
  assumes "to_valid k = k" and "fits k sh xs" and "has_members fs (valid_members ms)"
  shows "has_members (opt k sh # fs) (valid_members (xs @ ms))"
  using assms by (auto simp: fits_def split: list.split)

lemma members_optional_last: "to_valid k = k \<Longrightarrow> fits k sh xs \<Longrightarrow> has_members [opt k sh] (valid_members xs)"
  using members_optional [of k sh xs "[]" "[]"] by simp

lemmas members_intros = members_none members_required members_optional members_optional_last

lemma to_valid_Valid_text: "utf8_Valid (to_valid s)"
  by (rule to_valid_Valid)

lemma int_betweenI:
  assumes "lo \<le> i" and "i < hi" and "- (2 ^ 63) \<le> lo" and "hi \<le> 2 ^ 63"
  shows "int_between lo hi (json_int i)"
proof -
  have "ParseInt_with ParseUint10 (Itoa i) = Some i" using assms by (intro ParseInt_Itoa) simp_all
  then show ?thesis using assms(1,2) by (simp add: int_between_def json_int_def)
qed

lemma int_between_int [simp]:
  "int_between (- 0x80000000) 0x80000000 (json_int (sint (x :: i32)))"
  "int_between 0 0x100000000 (json_int (uint (n :: u32)))"
  "0 \<le> i \<Longrightarrow> i < 0x8000000000000000 \<Longrightarrow> int_between 0 0x8000000000000000 (json_int i)"
proof -
  have "uint n < 2 ^ 32" using unsigned_less [of n] by simp
  then show "int_between 0 0x100000000 (json_int (uint n))" by (simp add: int_betweenI)
qed (use sint_range_size [of x] in \<open>simp_all add: int_betweenI word_size\<close>)

lemma json_valid_int [simp]: "json_valid (json_int i) = json_int i"
  by (simp add: json_int_def)

lemma fits_omit [simp]:
  "fits k SString (omit_str k s)" "fits k u32_shape (omit_u32 k n)" "fits k (Exactly (JBool True)) (omit_bool k b)"
  "fits k sh (omit_opt k f x) \<longleftrightarrow> (\<forall>v. x = Some v \<longrightarrow> has_shape sh (json_valid (f v)))"
  "fits k SNumber (if p then [(k, JNumber t)] else []) \<longleftrightarrow> (p \<longrightarrow> number_ok t)"
  using int_between_int(2) by (auto simp: fits_def omit_defs to_valid_Valid split: option.split)

lemma ascii_key: "list_all (\<lambda>c. byte_of c < 0x80) k \<Longrightarrow> to_valid k = k"
  by (simp add: to_valid_id utf8_ascii)

lemma time_shape: "has_shape SString (json_valid (json_time at))"
  by (simp add: json_time_def to_valid_Valid)

lemma event_has_shape: "has_shape event_shape (json_valid (event_json ev))"
  unfolding event_json_def event_shape_def json_valid.simps has_shape.simps json.case append.simps
  by (intro members_intros ascii_key) (simp_all add: time_shape [simplified] to_valid_Valid)

lemmas record_shape = time_shape [simplified] to_valid_Valid

lemma channel_has_shape: "has_shape channel_shape (json_valid (channel_json c))"
  unfolding channel_json_def channel_shape_def json_valid.simps has_shape.simps json.case append.simps
  by (intro members_intros ascii_key) (simp_all add: record_shape)

lemma status_has_shape:
  "int (st_ClientCount st) < 2 ^ 63 \<Longrightarrow> has_shape status_shape (json_valid (status_json st))"
  unfolding status_json_def status_shape_def json_valid.simps has_shape.simps json.case append.simps
  by (intro members_intros ascii_key) (simp_all add: record_shape)

lemma chat_has_shape: "has_shape chat_shape (json_valid (chat_json m))"
  unfolding chat_json_def chat_shape_def json_valid.simps has_shape.simps json.case append.simps
  by (intro members_intros ascii_key) (simp_all add: record_shape)

lemma node_has_shape:
  assumes "web_text_ok T" and "f32_finite (nv_Snr n)"
  shows "has_shape node_shape (json_valid (node_json T n))"
  using assms
  unfolding node_json_def node_shape_def json_valid.simps has_shape.simps json.case append.simps
  by (intro members_intros ascii_key) (simp_all add: record_shape web_text_ok_def)

lemma list_has_shape: "\<forall>x \<in> set xs. has_shape sh (json_valid (f x)) \<Longrightarrow> has_shape (SList sh) (json_valid (JArray (map f xs)))"
  by (simp add: list_all_iff)

section \<open>Answers have their shapes\<close>

definition sent_shapes :: "shape list" where
  "sent_shapes =
     [SObj [req ''message'' chat_shape, req ''ok'' (Exactly (JBool True))],
      SObj [req ''error'' SString, req ''ok'' (Exactly (JBool False))]]"

definition canned_shapes :: "shape list" where
  "canned_shapes =
     [SObj [req ''messages'' (SList SString), req ''ok'' (Exactly (JBool True))],
      SObj [req ''error'' SString, req ''messages'' (Exactly (JArray [])), req ''ok'' (Exactly (JBool False))]]"

text \<open>A successful answer whose body parses to a value of one of the shapes.\<close>

definition well_typed :: "shape list \<Rightarrow> nat \<times> string \<Rightarrow> bool" where
  "well_typed shs a \<longleftrightarrow>
     fst a = 200 \<and>
     (case json_Unmarshal (snd a) of Some v \<Rightarrow> list_ex (\<lambda>sh. has_shape sh v) shs | None \<Rightarrow> False)"

definition frame_shape :: "sse_frame \<Rightarrow> shape" where
  "frame_shape f =
     (case f of
        SseSnapshot _ \<Rightarrow> SObj (snapshot_shape @ [req ''type'' (Exactly (JString ''snapshot''))])
      | SseMessage _ \<Rightarrow> event_shape
      | SseChat _ \<Rightarrow> chat_shape
      | SseNodes _ \<Rightarrow> SObj [req ''nodes'' (SList node_shape)])"

definition small_status :: "Status \<Rightarrow> bool" where
  "small_status st \<longleftrightarrow> int (st_ClientCount st) < 2 ^ 63"

lemma sorted_members:
  "json_map [(''ok'', a), (''error'', b)] = JObject [(''error'', b), (''ok'', a)]"
  "json_map [(''ok'', a), (''message'', b)] = JObject [(''message'', b), (''ok'', a)]"
  "json_map [(''ok'', a), (''messages'', b)] = JObject [(''messages'', b), (''ok'', a)]"
  "json_map [(''ok'', a), (''error'', b), (''messages'', d)] = JObject [(''error'', b), (''messages'', d), (''ok'', a)]"
  "json_map [(''events'', a), (''channels'', b), (''nodes'', d), (''status'', e), (''chats'', f)] =
     JObject [(''channels'', b), (''chats'', f), (''events'', a), (''nodes'', d), (''status'', e)]"
  "json_map [(''type'', g), (''events'', a), (''channels'', b), (''nodes'', d), (''status'', e), (''chats'', f)] =
     JObject [(''channels'', b), (''chats'', f), (''events'', a), (''nodes'', d), (''status'', e), (''type'', g)]"
  by (simp_all add: json_map_def)

lemma snapshot_fields:
  assumes "web_text_ok T" and "json_nodes_ok (sn_nodes s)" and "small_status (sn_status s)"
  shows "has_shape (SList channel_shape) (json_valid (JArray (map channel_json (sn_channels s))))"
    "has_shape (SList chat_shape) (json_valid (JArray (map chat_json (sn_chats s))))"
    "has_shape (SList event_shape) (json_valid (JArray (map event_json (sn_events s))))"
    "has_shape (SList node_shape) (json_valid (JArray (map (node_json T) (sn_nodes s))))"
    "has_shape status_shape (json_valid (status_json (sn_status s)))"
  using assms
  by (auto intro!: list_has_shape channel_has_shape chat_has_shape event_has_shape node_has_shape status_has_shape
      simp: json_nodes_ok_def list_all_iff small_status_def simp del: has_shape.simps json_valid.simps)

lemma snapshot_has_shape:
  assumes "web_text_ok T" and "json_nodes_ok (sn_nodes s)" and "small_status (sn_status s)"
  shows "has_shape (SObj snapshot_shape) (json_valid (body_json T (SnapshotBody s)))"
    and "has_shape (frame_shape (SseSnapshot s)) (json_valid (sse_snapshot_json T s))"
  unfolding body_json_def body_members_def json_body.case snapshot_members_def sorted_members snapshot_shape_def
    frame_shape_def sse_frame.case sse_snapshot_json_def append.simps has_shape.simps(7) json_valid.simps(3) json.case
  by (intro members_intros ascii_key snapshot_fields [OF assms]; simp)+

lemma sent_has_shape:
  "has_shape (SObj [req ''message'' chat_shape, req ''ok'' (Exactly (JBool True))]) (json_valid (body_json T (ChatOk m)))"
  "has_shape (SObj [req ''error'' SString, req ''ok'' (Exactly (JBool False))]) (json_valid (body_json T (ChatFailed e)))"
  unfolding body_json_def body_members_def json_body.case sorted_members has_shape.simps(7) json_valid.simps(3) json.case
  by (intro members_intros ascii_key chat_has_shape; simp add: to_valid_Valid)+

lemma canned_has_shape:
  "has_shape (SObj [req ''messages'' (SList SString), req ''ok'' (Exactly (JBool True))])
     (json_valid (body_json T (CannedOk ms)))"
  "has_shape (SObj [req ''error'' SString, req ''messages'' (Exactly (JArray [])), req ''ok'' (Exactly (JBool False))])
     (json_valid (body_json T (CannedFailed e)))"
  unfolding body_json_def body_members_def json_body.case sorted_members has_shape.simps(7) json_valid.simps(3) json.case
  by (intro members_intros ascii_key list_has_shape; simp add: to_valid_Valid)+

lemma well_typed_answer:
  assumes "web_text_ok T" and "json_ok v" and "list_ex (\<lambda>sh. has_shape sh (json_valid (body_json T v))) shs"
  shows "well_typed shs (response_bytes T (writeJSON v))"
  using assms good_read_back(2) [OF good_body [OF assms(1,2)]]
  by (simp add: well_typed_def response_bytes_def writeJSON_def)

lemma sent_well_typed:
  assumes "web_text_ok T"
  shows "well_typed sent_shapes (response_bytes T (writeJSON (ChatOk m)))"
    "well_typed sent_shapes (response_bytes T (writeJSON (ChatFailed e)))"
    "well_typed canned_shapes (response_bytes T (canned_response res))"
  unfolding canned_response_def sent_shapes_def canned_shapes_def
  by (simp_all add: well_typed_answer [OF assms] sent_has_shape canned_has_shape json_ok_def
      del: has_shape.simps json_valid.simps split: sum.split)

lemma handleSnapshot_well_typed:
  assumes "web_text_ok T" and "json_nodes_ok (SnapshotNodes now h2)" and "small_status (h_status h1)"
  shows "well_typed [SObj snapshot_shape] (response_bytes T (handleSnapshot now ''GET'' h1 h2 h3))"
proof -
  let ?s = "take_snapshot now h1 h2 h3"
  have n: "json_nodes_ok (sn_nodes ?s)" and st: "small_status (sn_status ?s)"
    using assms by (simp_all add: take_snapshot_def Snapshot_def sort_nodes_def json_nodes_ok_def list_all_iff)
  then show ?thesis
    using snapshot_has_shape(1) [OF assms(1) n st]
    by (simp add: handleSnapshot_def well_typed_answer [OF assms(1)] json_ok_def del: has_shape.simps json_valid.simps)
qed

lemma handleChatSend_http_answer:
  assumes "web_text_ok T" and "handleChatSend_http T W E ''POST'' body r h = Returned (a, r1, h1)"
  shows "(case decode_chatSendRequest body of
      None \<Rightarrow> a = (400, ''invalid json'' @ [CHR 0x0A]) \<and> r1 = r \<and> h1 = h
    | Some _ \<Rightarrow> well_typed sent_shapes a)"
  using assms(2) sent_well_typed [OF assms(1)]
  by (auto simp: handleChatSend_http_def handleChatSend_def Let_def response_bytes_def
      split: option.splits call.splits sum.splits)

lemma handleChatCanned_answer:
  assumes "web_text_ok T" and "handleChatCanned W E ''GET'' r h = Returned (Inl resp, r1, h1)"
  shows "well_typed canned_shapes (response_bytes T resp)"
  using assms(2) sent_well_typed(3) [OF assms(1)]
  by (auto simp: handleChatCanned_def split: call.splits fetch_state.splits)

lemma handleChatCanned_end_answer:
  assumes "web_text_ok T"
  shows "well_typed canned_shapes (response_bytes T (fst (handleChatCanned_end w pktID ch b)))"
  using sent_well_typed(3) [OF assms] by (simp add: handleChatCanned_end_def split: prod.splits)

lemma frame_has_shape:
  assumes "web_text_ok T" and "frame_json_ok f" and "\<And>s. f = SseSnapshot s \<Longrightarrow> small_status (sn_status s)"
  shows "has_shape (frame_shape f) (snd (sse_seen T f))"
proof (cases f)
  case (SseSnapshot s)
  then show ?thesis using assms snapshot_has_shape(2) [OF assms(1), of s]
    by (simp add: sse_seen_def sse_value_def frame_json_ok_def del: has_shape.simps json_valid.simps)
next
  case (SseNodes ns)
  have "has_shape (SList node_shape) (json_valid (JArray (map (node_json T) ns)))"
    using assms(2) SseNodes
    by (intro list_has_shape ballI node_has_shape [OF assms(1)]) (auto simp: frame_json_ok_def json_nodes_ok_def list_all_iff)
  then have "has_shape (SObj [req ''nodes'' (SList node_shape)]) (json_valid (nodes_json T ns))"
    unfolding nodes_json_def has_shape.simps(7) json_valid.simps(3) json.case
    by (intro members_intros ascii_key) simp
  then show ?thesis
    by (simp add: SseNodes sse_seen_def sse_value_def frame_shape_def del: has_shape.simps json_valid.simps)
qed (simp_all add: sse_seen_def sse_value_def frame_shape_def event_has_shape chat_has_shape)

section \<open>The API as its clients see it\<close>





end
