(* ===== verification/WebRoutes.thy ===== *)
theory WebRoutes
  imports WebApi
begin

text \<open>
  \<open>Server.Start\<close> of \<open>internal/webui/server.go\<close>: the patterns it registers and how \<open>http.ServeMux\<close> and
  \<open>http.FileServer\<close> serve a path with them, and what \<open>Start\<close> returns. Paths are those of requests other than
  \<open>CONNECT\<close>, decoded and without escapes; the embedded directory holds the one file \<open>index.html\<close>.
\<close>

section \<open>Paths\<close>

abbreviation (input) slash :: char where "slash \<equiv> CHR 0x2F"

text \<open>\<open>path.Clean\<close> of a rooted path: the segments kept so far, the last one first.\<close>

definition clean_segment :: "string \<Rightarrow> string list \<Rightarrow> string list" where
  "clean_segment seg kept =
     (if seg = '''' \<or> seg = ''.'' then kept else if seg = ''..'' then tl kept else seg # kept)"

definition clean_segments :: "string \<Rightarrow> string list" where
  "clean_segments p = rev (fold clean_segment (split_on slash p) [])"

definition path_Clean :: "string \<Rightarrow> string" where
  "path_Clean p = slash # join_with slash (clean_segments p)"

text \<open>\<open>cleanPath\<close> of \<open>net/http\<close> keeps a slash at the end.\<close>

definition cleanPath :: "string \<Rightarrow> string" where
  "cleanPath p0 =
     (if p0 = '''' then [slash]
      else
        let p = (if hd p0 = slash then p0 else slash # p0); np = path_Clean p in
        if last p = slash \<and> np \<noteq> [slash] then np @ [slash] else np)"

section \<open>Routes\<close>

datatype served =
    Redirect string | Snapshot_api | Events_api | ChatSend_api | ChatCanned_api | StaticPath string

text \<open>The patterns: the most specific one wins, and \<open>"/"\<close> matches every path.\<close>

definition api_routes :: "(string \<times> served) list" where
  "api_routes =
     [(''/api/snapshot'', Snapshot_api), (''/api/events'', Events_api), (''/api/chat/send'', ChatSend_api),
      (''/api/chat/canned'', ChatCanned_api)]"

definition mux_route :: "string \<Rightarrow> served" where
  "mux_route p =
     (if cleanPath p \<noteq> p then Redirect (cleanPath p)
      else (case map_of api_routes p of Some r \<Rightarrow> r | None \<Rightarrow> StaticPath p))"

datatype static_answer = IndexPage | RelativeRedirect string | NotFound

definition has_suffix :: "string \<Rightarrow> string \<Rightarrow> bool" where
  "has_suffix s suf \<longleftrightarrow> length suf \<le> length s \<and> drop (length s - length suf) s = suf"

definition file_server :: "string \<Rightarrow> static_answer" where
  "file_server p =
     (if has_suffix p ''/index.html'' then RelativeRedirect ''./''
      else if path_Clean p = ''/'' then IndexPage
      else if path_Clean p = ''/index.html'' then RelativeRedirect ''../index.html''
      else NotFound)"

section \<open>Start\<close>

datatype listen_end = ListenNil | ListenServerClosed | ListenFailed string

text \<open>
  A goroutine calls \<open>Shutdown\<close> when the context ends, which makes \<open>ListenAndServe\<close> return
  \<open>ErrServerClosed\<close>: no error.
\<close>

definition Start :: "listen_end \<Rightarrow> string option" where
  "Start e = (case e of ListenFailed m \<Rightarrow> Some m | _ \<Rightarrow> None)"

section \<open>A redirect ends at a clean path\<close>

text \<open>Neither empty nor a dot segment, and without a slash.\<close>

definition plain_segment :: "string \<Rightarrow> bool" where
  "plain_segment seg \<longleftrightarrow> seg \<noteq> '''' \<and> seg \<noteq> ''.'' \<and> seg \<noteq> ''..'' \<and> slash \<notin> set seg"

lemma split_no_sep: "list_all (\<lambda>p. c \<notin> set p) (split_on c s)"
  using split_on_no_sep [of _ c s] by (auto simp: list_all_iff)

lemma clean_fold_plain:
  "list_all (\<lambda>s. slash \<notin> set s) segs \<Longrightarrow> list_all plain_segment kept \<Longrightarrow>
     list_all plain_segment (fold clean_segment segs kept)"
proof (induction segs arbitrary: kept)
  case (Cons seg segs)
  have "list_all plain_segment (tl kept)" using Cons.prems(2) by (cases kept) simp_all
  with Cons.prems have "list_all plain_segment (clean_segment seg kept)"
    by (simp add: clean_segment_def plain_segment_def [of seg])
  with Cons show ?case by simp
qed simp

lemma clean_segments_plain: "list_all plain_segment (clean_segments p)"
proof -
  have "list_all plain_segment (fold clean_segment (split_on slash p) [])"
    by (rule clean_fold_plain) (simp_all add: split_no_sep)
  then show ?thesis by (simp add: clean_segments_def list_all_iff)
qed

lemma clean_fold_id: "list_all plain_segment segs \<Longrightarrow> fold clean_segment segs kept = rev segs @ kept"
  by (induction segs arbitrary: kept) (auto simp: clean_segment_def plain_segment_def)

lemma plain_no_slash: "list_all plain_segment segs \<Longrightarrow> list_all (\<lambda>p. slash \<notin> set p) segs"
  by (auto simp: list_all_iff plain_segment_def)

lemma clean_segments_joined:
  assumes "list_all plain_segment segs"
  shows "clean_segments (slash # join_with slash segs) = segs"
    and "segs \<noteq> [] \<Longrightarrow> clean_segments (slash # join_with slash segs @ [slash]) = segs"
proof -
  have s: "split_on slash (slash # x) = '''' # split_on slash x" for x by simp
  have e: "clean_segment '''' kept = kept" for kept by (simp add: clean_segment_def)
  show 1: "clean_segments (slash # join_with slash segs) = segs"
  proof (cases "segs = []")
    case False
    then have "split_on slash (join_with slash segs) = segs"
      using split_join [OF False plain_no_slash [OF assms]] by simp
    with assms show ?thesis by (simp add: clean_segments_def s e clean_fold_id)
  qed (simp add: clean_segments_def clean_segment_def)
  assume ne: "segs \<noteq> []"
  have "split_on slash (join_with slash (segs @ [''''])) = segs @ ['''']"
    by (rule split_join) (use plain_no_slash [OF assms] in simp_all)
  moreover have "join_with slash (segs @ ['''']) = join_with slash segs @ [slash]"
    using ne by (induction segs rule: join_with.induct [of "\<lambda>_. _" slash]) auto
  ultimately show "clean_segments (slash # join_with slash segs @ [slash]) = segs"
    using assms by (simp add: clean_segments_def s e clean_fold_id)
qed

text \<open>The clean paths: plain segments, possibly with a slash at the end.\<close>

definition clean_path :: "string \<Rightarrow> bool" where
  "clean_path p \<longleftrightarrow>
     (\<exists>segs. list_all plain_segment segs \<and>
        (p = slash # join_with slash segs \<or> segs \<noteq> [] \<and> p = slash # join_with slash segs @ [slash]))"

lemma join_last: "segs \<noteq> [] \<Longrightarrow> list_all plain_segment segs \<Longrightarrow> join_with slash segs \<noteq> '''' \<and> last (join_with slash segs) \<noteq> slash"
  by (induction slash segs rule: join_with.induct) (auto simp: plain_segment_def dest!: last_in_set)

lemma cleanPath_clean: "clean_path (cleanPath p)"
proof (cases "p = ''''")
  case True
  then show ?thesis by (auto simp: cleanPath_def clean_path_def intro!: exI [of _ "[]"])
next
  case False
  let ?p = "if hd p = slash then p else slash # p"
  have n: "path_Clean ?p = slash # join_with slash (clean_segments ?p)" by (simp add: path_Clean_def)
  have ne: "clean_segments ?p \<noteq> []" if "path_Clean ?p \<noteq> [slash]" using that n by auto
  show ?thesis
  proof (cases "last ?p = slash \<and> path_Clean ?p \<noteq> [slash]")
    case True
    then have "cleanPath p = slash # join_with slash (clean_segments ?p) @ [slash]"
      using False n by (simp add: cleanPath_def Let_def del: split_paired_All)
    with clean_segments_plain ne True show ?thesis unfolding clean_path_def by blast
  next
    case no: False
    then have "cleanPath p = slash # join_with slash (clean_segments ?p)"
      using False n by (simp add: cleanPath_def Let_def)
    with clean_segments_plain show ?thesis unfolding clean_path_def by blast
  qed
qed

lemma cleanPath_id:
  assumes "clean_path p"
  shows "cleanPath p = p"
proof -
  from assms obtain segs where s: "list_all plain_segment segs"
    and p: "p = slash # join_with slash segs \<or> segs \<noteq> [] \<and> p = slash # join_with slash segs @ [slash]"
    by (auto simp: clean_path_def)
  note j = clean_segments_joined [OF s]
  from p show ?thesis
  proof
    assume q: "p = slash # join_with slash segs"
    then have c: "path_Clean p = p" by (simp add: path_Clean_def j(1))
    have "last p = slash \<Longrightarrow> p = [slash]" using q join_last [OF _ s] by (cases "segs = []") auto
    moreover have "p \<noteq> []" "hd p = slash" using q by simp_all
    ultimately show ?thesis by (simp add: cleanPath_def Let_def c)
  next
    assume q: "segs \<noteq> [] \<and> p = slash # join_with slash segs @ [slash]"
    then have c: "path_Clean p = slash # join_with slash segs" by (simp add: path_Clean_def j(2))
    have "p \<noteq> []" "hd p = slash" "last p = slash" "join_with slash segs \<noteq> []" "slash # join_with slash segs @ [slash] = p"
      using q join_last [OF _ s] by simp_all
    then show ?thesis by (simp add: cleanPath_def Let_def c)
  qed
qed

lemma api_paths_clean: "list_all (\<lambda>(p, r). cleanPath p = p) api_routes"
  by code_simp


end
