(* ===== verification/Serial.thy ===== *)
theory Serial
  imports GoFlag "HOL-Library.Word"
begin

text \<open>
  \<open>internal/termios\<close> and \<open>internal/serial\<close> for Unix, macOS and Windows: the settings of
  the serial line and the sequence of system calls that open it. The constants of the
  packages \<open>unix\<close> and \<open>windows\<close> and the outcomes of the system calls are parameters.
\<close>

unbundle bit_operations_syntax

section \<open>Terminal settings on Unix\<close>

text \<open>The constants of \<open>golang.org/x/sys/unix\<close> that the source names.\<close>

record 'w unix_consts =
  u_rates :: "(int \<times> 'w) list"    \<comment> \<open>\<open>B9600\<close> and so on, by the rate they stand for\<close>
  u_IGNBRK :: 'w
  u_BRKINT :: 'w
  u_PARMRK :: 'w
  u_ISTRIP :: 'w
  u_INLCR :: 'w
  u_IGNCR :: 'w
  u_ICRNL :: 'w
  u_IXON :: 'w
  u_IXOFF :: 'w
  u_IXANY :: 'w
  u_INPCK :: 'w
  u_IGNPAR :: 'w
  u_OPOST :: 'w
  u_ECHO :: 'w
  u_ECHONL :: 'w
  u_ICANON :: 'w
  u_ISIG :: 'w
  u_IEXTEN :: 'w
  u_CSIZE :: 'w
  u_PARENB :: 'w
  u_CSTOPB :: 'w
  u_CRTSCTS :: 'w
  u_CS8 :: 'w
  u_CLOCAL :: 'w
  u_CREAD :: 'w
  u_HUPCL :: 'w
  u_VMIN :: nat
  u_VTIME :: nat

record 'w termios =
  Iflag :: 'w
  Oflag :: 'w
  Lflag :: 'w
  Cflag :: 'w
  Cc :: "8 word list"
  Ispeed :: 'w
  Ospeed :: 'w

definition linux_bauds :: "int list" where
  "linux_bauds = [9600, 19200, 38400, 57600, 115200, 230400, 460800, 921600]"

definition darwin_bauds :: "int list" where
  "darwin_bauds = [9600, 19200, 38400, 57600, 115200, 230400]"

definition baudrateMap :: "int list \<Rightarrow> 'w unix_consts \<Rightarrow> (int \<times> 'w) list" where
  "baudrateMap bauds U = filter (\<lambda>(b, r). b \<in> set bauds) (u_rates U)"

definition clear_rates :: "'a::len word list \<Rightarrow> 'a word \<Rightarrow> 'a word" where
  "clear_rates rs c = fold (\<lambda>v c. c AND NOT v) rs c"

text \<open>\<^const>\<open>None\<close>: unsupported baud rate.\<close>

definition SetBaudRate ::
  "32 word unix_consts \<Rightarrow> int \<Rightarrow> 32 word termios \<Rightarrow> 32 word termios option" where
  "SetBaudRate U baud t =
     (case map_of (baudrateMap linux_bauds U) baud of
        None \<Rightarrow> None
      | Some rate \<Rightarrow>
          Some (t\<lparr>Cflag := clear_rates (map snd (baudrateMap linux_bauds U)) (Cflag t) OR rate,
                  Ispeed := rate, Ospeed := rate\<rparr>))"

definition darwin_SetBaudRate ::
  "64 word unix_consts \<Rightarrow> int \<Rightarrow> 64 word termios \<Rightarrow> 64 word termios option" where
  "darwin_SetBaudRate U baud t =
     (case map_of (baudrateMap darwin_bauds U) baud of
        None \<Rightarrow> None
      | Some rate \<Rightarrow> Some (t\<lparr>Ispeed := rate, Ospeed := rate\<rparr>))"

definition raw_mode :: "'a::len word unix_consts \<Rightarrow> 'a word termios \<Rightarrow> 'a word termios" where
  "raw_mode U t =
     t\<lparr>Iflag := Iflag t AND NOT (u_IGNBRK U OR u_BRKINT U OR u_PARMRK U OR u_ISTRIP U OR u_INLCR U OR
                u_IGNCR U OR u_ICRNL U OR u_IXON U OR u_IXOFF U OR u_IXANY U OR u_INPCK U OR u_IGNPAR U),
       Oflag := Oflag t AND NOT (u_OPOST U),
       Lflag := Lflag t AND NOT (u_ECHO U OR u_ECHONL U OR u_ICANON U OR u_ISIG U OR u_IEXTEN U),
       Cflag := (Cflag t AND NOT (u_CSIZE U OR u_PARENB U OR u_CSTOPB U OR u_CRTSCTS U)) OR
                (u_CS8 U OR u_CLOCAL U OR u_CREAD U),
       Cc := (Cc t)[u_VMIN U := 1, u_VTIME U := 0]\<rparr>"

definition SetRawMode :: "32 word unix_consts \<Rightarrow> 32 word termios \<Rightarrow> 32 word termios" where
  "SetRawMode U t = raw_mode U t"

definition darwin_SetRawMode :: "64 word unix_consts \<Rightarrow> 64 word termios \<Rightarrow> 64 word termios" where
  "darwin_SetRawMode U t = raw_mode U t"

section \<open>Opening the device on Unix\<close>

text \<open>Which of the system calls succeed, and the settings the device has.\<close>

record 'w unix_sys =
  sy_open :: bool
  sy_nonblock :: bool
  sy_get :: "'w termios option"
  sy_set :: bool
  sy_newfile :: bool

datatype fd_state = FdNone | FdOpen | FdClosed

datatype open_error = SysError string | UnsupportedBaud int | NoFile

text \<open>The error or success, what becomes of the descriptor, and the settings written.\<close>

record 'w open_result =
  or_err :: "open_error option"
  or_fd :: fd_state
  or_written :: "'w termios option"

definition opened :: "open_error option \<Rightarrow> fd_state \<Rightarrow> 'w termios option \<Rightarrow> 'w open_result" where
  "opened e f w = \<lparr>or_err = e, or_fd = f, or_written = w\<rparr>"

definition line_settings ::
  "32 word unix_consts \<Rightarrow> int \<Rightarrow> 32 word termios \<Rightarrow> 32 word termios option" where
  "line_settings U baud t0 =
     (let t1 = SetRawMode U t0;
          t2 = t1\<lparr>Cflag := Cflag t1 OR (u_CLOCAL U OR u_CREAD U)\<rparr>;
          t3 = t2\<lparr>Cflag := Cflag t2 AND NOT (u_HUPCL U)\<rparr>
      in SetBaudRate U baud t3)"

text \<open>The same source on macOS, with the other \<open>SetRawMode\<close> and \<open>SetBaudRate\<close>.\<close>

definition darwin_line_settings ::
  "64 word unix_consts \<Rightarrow> int \<Rightarrow> 64 word termios \<Rightarrow> 64 word termios option" where
  "darwin_line_settings U baud t0 =
     (let t1 = darwin_SetRawMode U t0;
          t2 = t1\<lparr>Cflag := Cflag t1 OR (u_CLOCAL U OR u_CREAD U)\<rparr>;
          t3 = t2\<lparr>Cflag := Cflag t2 AND NOT (u_HUPCL U)\<rparr>
      in darwin_SetBaudRate U baud t3)"

text \<open>The system calls of \<open>Open\<close> around the settings.\<close>

definition open_with ::
  "(int \<Rightarrow> 'w termios \<Rightarrow> 'w termios option) \<Rightarrow> 'w unix_sys \<Rightarrow> int \<Rightarrow> 'w open_result" where
  "open_with settings S baud =
     (if \<not> sy_open S then opened (Some (SysError ''open'')) FdNone None
      else if \<not> sy_nonblock S then opened (Some (SysError ''fcntl'')) FdClosed None
      else (case sy_get S of
          None \<Rightarrow> opened (Some (SysError ''TCGETS'')) FdClosed None
        | Some t0 \<Rightarrow>
            (case settings baud t0 of
               None \<Rightarrow> opened (Some (UnsupportedBaud baud)) FdClosed None
             | Some t \<Rightarrow>
                 if \<not> sy_set S then opened (Some (SysError ''TCSETS'')) FdClosed None
                 else if \<not> sy_newfile S then opened (Some NoFile) FdClosed (Some t)
                 else opened None FdOpen (Some t))))"

definition unix_Open :: "32 word unix_consts \<Rightarrow> 32 word unix_sys \<Rightarrow> int \<Rightarrow> 32 word open_result" where
  "unix_Open U S baud = open_with (line_settings U) S baud"

definition darwin_Open :: "64 word unix_consts \<Rightarrow> 64 word unix_sys \<Rightarrow> int \<Rightarrow> 64 word open_result" where
  "darwin_Open U S baud = open_with (darwin_line_settings U) S baud"

definition unix_DisableHUPCL :: "'a::len word unix_consts \<Rightarrow> 'a word unix_sys \<Rightarrow> 'a word open_result" where
  "unix_DisableHUPCL U S =
     (if \<not> sy_open S then opened (Some (SysError ''open'')) FdNone None
      else (case sy_get S of
          None \<Rightarrow> opened (Some (SysError ''TCGETS'')) FdClosed None
        | Some t \<Rightarrow>
            let t1 = t\<lparr>Cflag := Cflag t AND NOT (u_HUPCL U)\<rparr> in
            if \<not> sy_set S then opened (Some (SysError ''TCSETS'')) FdClosed None
            else opened None FdClosed (Some t1)))"

definition win_DisableHUPCL :: "string \<Rightarrow> open_error option" where
  "win_DisableHUPCL device = None"

definition unix_DeviceExists :: "(string \<Rightarrow> bool) \<Rightarrow> string \<Rightarrow> bool" where
  "unix_DeviceExists stat_ok device = stat_ok device"

section \<open>Windows\<close>

text \<open>The members of \<open>windows.DCB\<close> that the source sets; its size is an argument of what needs it.\<close>

record DCB =
  dcb_DCBlength :: "32 word"
  dcb_BaudRate :: "32 word"
  dcb_Flags :: "32 word"
  dcb_ByteSize :: "8 word"
  dcb_Parity :: "8 word"
  dcb_StopBits :: "8 word"

record win_termios =
  wt_DCB :: DCB
  wt_Timeouts :: "32 word list"

named_theorems dcb_consts

definition dcbBinary :: "32 word" where [dcb_consts]: "dcbBinary = 1"
definition dcbParity :: "32 word" where [dcb_consts]: "dcbParity = push_bit 1 1"
definition dcbOutxCtsFlow :: "32 word" where [dcb_consts]: "dcbOutxCtsFlow = push_bit 2 1"
definition dcbOutxDsrFlow :: "32 word" where [dcb_consts]: "dcbOutxDsrFlow = push_bit 3 1"
definition dcbDtrControlMask :: "32 word" where [dcb_consts]: "dcbDtrControlMask = push_bit 4 3"
definition dcbDtrControlEnable :: "32 word" where [dcb_consts]: "dcbDtrControlEnable = push_bit 4 1"
definition dcbDsrSensitivity :: "32 word" where [dcb_consts]: "dcbDsrSensitivity = push_bit 6 1"
definition dcbTxContinueOnXoff :: "32 word" where [dcb_consts]: "dcbTxContinueOnXoff = push_bit 7 1"
definition dcbOutX :: "32 word" where [dcb_consts]: "dcbOutX = push_bit 8 1"
definition dcbInX :: "32 word" where [dcb_consts]: "dcbInX = push_bit 9 1"
definition dcbErrorChar :: "32 word" where [dcb_consts]: "dcbErrorChar = push_bit 10 1"
definition dcbNull :: "32 word" where [dcb_consts]: "dcbNull = push_bit 11 1"
definition dcbRtsControlMask :: "32 word" where [dcb_consts]: "dcbRtsControlMask = push_bit 12 3"
definition dcbRtsControlEnable :: "32 word" where [dcb_consts]: "dcbRtsControlEnable = push_bit 12 1"
definition dcbAbortOnError :: "32 word" where [dcb_consts]: "dcbAbortOnError = push_bit 14 1"
definition noParity :: "8 word" where [dcb_consts]: "noParity = 0"
definition oneStopBit :: "8 word" where [dcb_consts]: "oneStopBit = 0"

definition win_SetRawMode :: "win_termios \<Rightarrow> win_termios" where
  "win_SetRawMode t =
     (let d = wt_DCB t;
          f1 = dcb_Flags d OR (dcbBinary OR dcbTxContinueOnXoff);
          f2 = f1 AND NOT (dcbParity OR dcbOutxCtsFlow OR dcbOutxDsrFlow OR dcbDsrSensitivity OR dcbOutX OR dcbInX OR
                 dcbErrorChar OR dcbNull OR dcbAbortOnError);
          f3 = f2 AND NOT (dcbDtrControlMask OR dcbRtsControlMask);
          f4 = f3 OR (dcbDtrControlEnable OR dcbRtsControlEnable)
      in t\<lparr>wt_DCB := d\<lparr>dcb_Flags := f4, dcb_ByteSize := 8, dcb_Parity := noParity, dcb_StopBits := oneStopBit\<rparr>,
           wt_Timeouts := replicate 5 0\<rparr>)"

text \<open>
  \<open>windows.CBR_9600\<close> to \<open>CBR_115200\<close> are an argument; the other three rates are literals.
\<close>

definition win_baudrateMap :: "(int \<Rightarrow> 32 word) \<Rightarrow> (int \<times> 32 word) list" where
  "win_baudrateMap cbr =
     [(9600, cbr 9600), (19200, cbr 19200), (38400, cbr 38400), (57600, cbr 57600),
      (115200, cbr 115200), (230400, 230400), (460800, 460800), (921600, 921600)]"

definition win_SetBaudRate :: "(int \<Rightarrow> 32 word) \<Rightarrow> int \<Rightarrow> win_termios \<Rightarrow> win_termios option" where
  "win_SetBaudRate cbr baud t =
     (case map_of (win_baudrateMap cbr) baud of
        None \<Rightarrow> None
      | Some rate \<Rightarrow> Some (t\<lparr>wt_DCB := (wt_DCB t)\<lparr>dcb_BaudRate := rate\<rparr>\<rparr>))"

definition upper_char :: "char \<Rightarrow> char" where
  "upper_char c = (if 97 \<le> code c \<and> code c \<le> 122 then char_of (code c - 32) else c)"

definition isCOMDevice :: "string \<Rightarrow> bool" where
  "isCOMDevice name \<longleftrightarrow> (let upper = map upper_char name in prefix ''COM'' upper \<and> 3 < length upper)"

definition dos_prefix :: string where
  "dos_prefix = [CHR 0x5C, CHR 0x5C, CHR ''.'', CHR 0x5C]"

definition TrimSuffix :: "string \<Rightarrow> string \<Rightarrow> string" where
  "TrimSuffix s suf = (if suffix suf s then take (length s - length suf) s else s)"

text \<open>The path and the name.\<close>

definition normalizeWindowsDevice :: "string \<Rightarrow> string \<times> string" where
  "normalizeWindowsDevice device =
     (if prefix dos_prefix device then (device, drop 4 device)
      else
        let name = TrimSuffix device '':'' in
        if isCOMDevice name then (dos_prefix @ name, name) else (device, name))"

datatype dos_answer = DosCount nat | DosInsufficientBuffer | DosError

text \<open>The loop over buffer sizes; the list records the sizes tried.\<close>

function dos_loop :: "(nat \<Rightarrow> dos_answer) \<Rightarrow> nat \<Rightarrow> bool \<times> nat list" where
  "dos_loop query sz =
     (if 4096 < sz \<or> sz = 0 then (False, [])
      else (case query sz of
          DosCount n \<Rightarrow> (0 < n, [sz])
        | DosError \<Rightarrow> (False, [sz])
        | DosInsufficientBuffer \<Rightarrow>
            (case dos_loop query (2 * sz) of (r, ss) \<Rightarrow> (r, sz # ss))))"
  by pat_completeness auto
termination
  by (relation "measure (\<lambda>(q, sz). 4097 - sz)") auto

declare dos_loop.simps [simp del]

definition queryDosDevice :: "(nat \<Rightarrow> dos_answer) option \<Rightarrow> bool" where
  "queryDosDevice query = (case query of None \<Rightarrow> False | Some q \<Rightarrow> fst (dos_loop q 256))"

definition win_DeviceExists ::
  "(string \<Rightarrow> (nat \<Rightarrow> dos_answer) option) \<Rightarrow> (string \<Rightarrow> bool) \<Rightarrow> string \<Rightarrow> bool" where
  "win_DeviceExists query stat_ok device =
     (let name = snd (normalizeWindowsDevice device) in
      if isCOMDevice name then queryDosDevice (query name) else stat_ok device)"

text \<open>\<open>unsafe.Sizeof(dcb)\<close> and the answers of the system calls.\<close>

record win_sys =
  wy_dcb_size :: "32 word"
  wy_create :: bool
  wy_state :: "DCB option"
  wy_timeouts :: "32 word list option"
  wy_set_state :: bool
  wy_set_timeouts :: bool
  wy_newfile :: bool

definition win_GetTermios :: "win_sys \<Rightarrow> win_termios option" where
  "win_GetTermios S =
     (case wy_state S of
        None \<Rightarrow> None
      | Some d \<Rightarrow> (case wy_timeouts S of None \<Rightarrow> None | Some ts \<Rightarrow> Some \<lparr>wt_DCB = d, wt_Timeouts = ts\<rparr>))"

text \<open>The path, the error or success, what becomes of the handle, and the settings sent.\<close>

record win_result =
  wr_path :: string
  wr_err :: "open_error option"
  wr_handle :: fd_state
  wr_sent :: "win_termios option"

text \<open>Both calls are made in order; the error names the one that failed.\<close>

definition win_SetTermios :: "win_sys \<Rightarrow> win_termios \<Rightarrow> open_error option \<times> win_termios option" where
  "win_SetTermios S t =
     (let t1 = t\<lparr>wt_DCB := (wt_DCB t)\<lparr>dcb_DCBlength := wy_dcb_size S\<rparr>\<rparr> in
      if \<not> wy_set_state S then (Some (SysError ''SetCommState''), None)
      else if \<not> wy_set_timeouts S then (Some (SysError ''SetCommTimeouts''), Some t1)
      else (None, Some t1))"

definition win_Open :: "(int \<Rightarrow> 32 word) \<Rightarrow> win_sys \<Rightarrow> string \<Rightarrow> int \<Rightarrow> win_result" where
  "win_Open cbr S device baud =
     (let path = fst (normalizeWindowsDevice device);
          res = (\<lambda>e f w. \<lparr>wr_path = path, wr_err = e, wr_handle = f, wr_sent = w\<rparr>)
      in if \<not> wy_create S then res (Some (SysError ''CreateFile'')) FdNone None
         else (case win_GetTermios S of
             None \<Rightarrow> res (Some (SysError ''GetCommState'')) FdClosed None
           | Some t0 \<Rightarrow>
               (case win_SetBaudRate cbr baud (win_SetRawMode t0) of
                  None \<Rightarrow> res (Some (UnsupportedBaud baud)) FdClosed None
                | Some t \<Rightarrow>
                    (case win_SetTermios S t of
                       (Some e, w) \<Rightarrow> res (Some e) FdClosed w
                     | (None, w) \<Rightarrow>
                         if \<not> wy_newfile S then res (Some NoFile) FdClosed w
                         else res None FdOpen w))))"

section \<open>The line settings\<close>

lemma or_fold: "fold (OR) rs x = x OR fold (OR) rs 0" for x :: "'a::len word"
proof (induction rs arbitrary: x)
  case (Cons r rs)
  have "fold (OR) (r # rs) x = (r OR x) OR fold (OR) rs 0" using Cons [of "r OR x"] by simp
  also have "\<dots> = x OR fold (OR) (r # rs) 0" using Cons [of r] by (simp add: ac_simps)
  finally show ?case .
qed simp

lemma clear_rates_fold: "clear_rates rs c = c AND NOT (fold (OR) rs 0)"
proof (induction rs arbitrary: c)
  case (Cons r rs)
  have "clear_rates (r # rs) c = (c AND NOT r) AND NOT (fold (OR) rs 0)"
    using Cons [of "c AND NOT r"] by (simp add: clear_rates_def)
  also have "\<dots> = c AND NOT (fold (OR) (r # rs) 0)"
    using or_fold [of rs r] by (simp add: bit.de_Morgan_disj and.assoc)
  finally show ?case .
qed (simp add: clear_rates_def)

lemma or_fold_covers: "r \<in> set rs \<Longrightarrow> r AND NOT (fold (OR) rs x) = 0" for r x :: "'a::len word"
proof (induction rs arbitrary: x)
  case (Cons q rs)
  show ?case
  proof (cases "r = q")
    case True
    have "fold (OR) (q # rs) x = (q OR x) OR fold (OR) rs 0" using or_fold [of rs "q OR x"] by simp
    then show ?thesis by (auto simp: True bit_eq_iff bit_simps)
  next
    case False
    with Cons show ?thesis by simp
  qed
qed simp

text \<open>
  What the source relies on of the constants: the character size is a field that holds
  \<open>CS8\<close>, the rates fill the field \<open>CBAUD\<close>, and the fields and switches do not overlap.
\<close>

definition unix_ok :: "32 word unix_consts \<Rightarrow> 32 word \<Rightarrow> bool" where
  "unix_ok U cbaud \<longleftrightarrow>
     u_CS8 U AND NOT (u_CSIZE U) = 0 \<and>
     u_CSIZE U AND (u_PARENB U OR u_CSTOPB U OR u_CRTSCTS U OR u_HUPCL U OR u_CLOCAL U OR u_CREAD U OR cbaud) = 0 \<and>
     (u_CLOCAL U OR u_CREAD U) AND (u_PARENB U OR u_CSTOPB U OR u_CRTSCTS U OR u_HUPCL U OR cbaud) = 0 \<and>
     cbaud AND (u_PARENB U OR u_CSTOPB U OR u_CRTSCTS U OR u_HUPCL U) = 0 \<and>
     fold (OR) (map snd (baudrateMap linux_bauds U)) 0 = cbaud \<and>
     u_VMIN U \<noteq> u_VTIME U"

lemma cflag_algebra:
  fixes c :: "'a::len word"
  assumes "e AND NOT s = 0" and "s AND (p OR h OR l OR b) = 0" and "l AND (p OR h OR b) = 0"
    and "b AND (p OR h) = 0" and "r AND NOT b = 0"
    and "x = (((((c AND NOT (s OR p)) OR (e OR l)) OR l) AND NOT h) AND NOT b) OR r"
  shows "x AND s = e" and "x AND (p OR h) = 0" and "x AND l = l" and "x AND b = r"
proof -
  have 1: "bit e n \<Longrightarrow> n < LENGTH('a) \<Longrightarrow> bit s n" for n using assms(1) by (auto simp: bit_eq_iff bit_simps)
  have 2: "\<not> (bit s n \<and> (bit p n \<or> bit h n \<or> bit l n \<or> bit b n))" if "n < LENGTH('a)" for n
    using assms(2) that by (auto simp: bit_eq_iff bit_simps)
  have 3: "\<not> (bit l n \<and> (bit p n \<or> bit h n \<or> bit b n))" if "n < LENGTH('a)" for n
    using assms(3) that by (auto simp: bit_eq_iff bit_simps)
  have 4: "\<not> (bit b n \<and> (bit p n \<or> bit h n))" if "n < LENGTH('a)" for n
    using assms(4) that by (auto simp: bit_eq_iff bit_simps)
  have 5: "bit r n \<Longrightarrow> n < LENGTH('a) \<Longrightarrow> bit b n" for n using assms(5) by (auto simp: bit_eq_iff bit_simps)
  have bits: "bit (x AND s) n = bit e n" "bit (x AND (p OR h)) n = bit (0 :: 'a word) n"
      "bit (x AND l) n = bit l n" "bit (x AND b) n = bit r n" if "n < LENGTH('a)" for n
    using 1 [OF _ that] 2 [OF that] 3 [OF that] 4 [OF that] 5 [OF _ that] that
    by (auto simp: assms(6) bit_simps)
  show "x AND s = e" "x AND (p OR h) = 0" "x AND l = l" "x AND b = r"
    using bits by (auto intro!: bit_eqI simp del: bit_0_eq)
qed

text \<open>
  C39: the settings \<open>Open\<close> writes to the device. For a supported rate they are eight data bits, no
  parity, one stop bit, no hardware or software flow control, no hang-up on close, receiver
  on, modem lines ignored, no input, output or line processing, reads that return as soon
  as one byte is there, and the rate in both the control flags and the speed fields; any other rate is
  refused before anything is written.
\<close>

theorem line_settings_raw:
  assumes "unix_ok U cbaud" and "u_VMIN U < length (Cc t0)" and "u_VTIME U < length (Cc t0)"
  shows "case map_of (baudrateMap linux_bauds U) baud of
      None \<Rightarrow> line_settings U baud t0 = None
    | Some rate \<Rightarrow> \<exists>t. line_settings U baud t0 = Some t \<and>
        Cflag t AND u_CSIZE U = u_CS8 U \<and>
        Cflag t AND ((u_PARENB U OR u_CSTOPB U OR u_CRTSCTS U) OR u_HUPCL U) = 0 \<and>
        Cflag t AND (u_CLOCAL U OR u_CREAD U) = (u_CLOCAL U OR u_CREAD U) \<and>
        Cflag t AND cbaud = rate \<and> Ispeed t = rate \<and> Ospeed t = rate \<and>
        Iflag t AND (u_IXON U OR u_IXOFF U OR u_ICRNL U OR u_INLCR U OR u_ISTRIP U) = 0 \<and>
        Oflag t AND u_OPOST U = 0 \<and> Lflag t AND (u_ICANON U OR u_ECHO U OR u_ISIG U) = 0 \<and>
        Cc t ! u_VMIN U = 1 \<and> Cc t ! u_VTIME U = 0"
proof (cases "map_of (baudrateMap linux_bauds U) baud")
  case None
  then show ?thesis by (simp add: line_settings_def SetBaudRate_def Let_def)
next
  case (Some rate)
  let ?c = "(((((Cflag t0 AND NOT (u_CSIZE U OR (u_PARENB U OR u_CSTOPB U OR u_CRTSCTS U))) OR
      (u_CS8 U OR (u_CLOCAL U OR u_CREAD U))) OR (u_CLOCAL U OR u_CREAD U)) AND NOT (u_HUPCL U)) AND NOT cbaud) OR rate"
  have "rate \<in> set (map snd (baudrateMap linux_bauds U))" using map_of_SomeD [OF Some] by force
  from or_fold_covers [OF this, of 0] have r: "rate AND NOT cbaud = 0" using assms(1) by (simp add: unix_ok_def)
  obtain t where t: "line_settings U baud t0 = Some t" and c: "Cflag t = ?c"
    and f: "Ispeed t = rate" "Ospeed t = rate" "Cc t = (Cc t0)[u_VMIN U := 1, u_VTIME U := 0]"
      "Iflag t = Iflag (raw_mode U t0)" "Oflag t = Oflag (raw_mode U t0)" "Lflag t = Lflag (raw_mode U t0)"
    using Some assms(1)
    by (simp add: line_settings_def SetBaudRate_def SetRawMode_def raw_mode_def Let_def clear_rates_fold unix_ok_def)
  have hyps: "u_CS8 U AND NOT (u_CSIZE U) = 0"
    "u_CSIZE U AND ((u_PARENB U OR u_CSTOPB U OR u_CRTSCTS U) OR u_HUPCL U OR (u_CLOCAL U OR u_CREAD U) OR cbaud) = 0"
    "(u_CLOCAL U OR u_CREAD U) AND ((u_PARENB U OR u_CSTOPB U OR u_CRTSCTS U) OR u_HUPCL U OR cbaud) = 0"
    "cbaud AND ((u_PARENB U OR u_CSTOPB U OR u_CRTSCTS U) OR u_HUPCL U) = 0"
    using assms(1) by (simp_all add: unix_ok_def ac_simps)
  have m: "(a AND NOT d) AND e = 0" if "e AND NOT d = 0" for a d e :: "32 word"
    using that by (auto simp: bit_eq_iff bit_simps)
  have "Iflag t AND (u_IXON U OR u_IXOFF U OR u_ICRNL U OR u_INLCR U OR u_ISTRIP U) = 0"
    "Oflag t AND u_OPOST U = 0" "Lflag t AND (u_ICANON U OR u_ECHO U OR u_ISIG U) = 0"
    by (auto simp: f raw_mode_def intro!: m) (auto simp: bit_eq_iff bit_simps)
  moreover note cflag_algebra [OF hyps r c]
  moreover have "Cc t ! u_VMIN U = 1" "Cc t ! u_VTIME U = 0"
    using assms by (simp_all add: f unix_ok_def)
  ultimately show ?thesis using Some t f(1,2) by auto
qed

text \<open>The constants of Linux on most machines, for the example.\<close>

definition linux_consts :: "32 word unix_consts" where
  "linux_consts =
     \<lparr>u_rates = [(9600, 0xD), (19200, 0xE), (38400, 0xF), (57600, 0x1001), (115200, 0x1002), (230400, 0x1003),
        (460800, 0x1004), (921600, 0x1007)],
      u_IGNBRK = 1, u_BRKINT = 2, u_PARMRK = 8, u_ISTRIP = 0x20, u_INLCR = 0x40, u_IGNCR = 0x80, u_ICRNL = 0x100,
      u_IXON = 0x400, u_IXOFF = 0x1000, u_IXANY = 0x800, u_INPCK = 0x10, u_IGNPAR = 4, u_OPOST = 1, u_ECHO = 8,
      u_ECHONL = 0x40, u_ICANON = 2, u_ISIG = 1, u_IEXTEN = 0x8000, u_CSIZE = 0x30, u_PARENB = 0x100,
      u_CSTOPB = 0x40, u_CRTSCTS = 0x80000000, u_CS8 = 0x30, u_CLOCAL = 0x800, u_CREAD = 0x80, u_HUPCL = 0x400,
      u_VMIN = 6, u_VTIME = 5\<rparr>"

lemma linux_ok: "unix_ok linux_consts 0x100F"
  by (simp add: unix_ok_def linux_consts_def baudrateMap_def linux_bauds_def)

definition sample_termios :: "32 word termios" where
  "sample_termios = \<lparr>Iflag = 0x500, Oflag = 5, Lflag = 0x8A3B, Cflag = 0xCBF, Cc = replicate 19 9, Ispeed = 15, Ospeed = 15\<rparr>"

theorem line_settings_witness:
  "\<exists>t. line_settings linux_consts 115200 sample_termios = Some t \<and> Cflag t AND 0x100F = 0x1002 \<and>
     Cflag t AND 0x30 = 0x30 \<and> Cc t ! 6 = 1"
proof -
  have m: "map_of (baudrateMap linux_bauds linux_consts) 115200 = Some 0x1002"
    by (simp add: linux_consts_def baudrateMap_def linux_bauds_def)
  have c: "u_CSIZE linux_consts = 0x30" "u_CS8 linux_consts = 0x30" "u_VMIN linux_consts = 6" "u_VTIME linux_consts = 5"
    by (simp_all add: linux_consts_def)
  from line_settings_raw [OF linux_ok, of sample_termios 115200] show ?thesis
    unfolding m c by (auto simp: sample_termios_def)
qed

section \<open>Opening never leaks\<close>

lemma open_with_fd:
  "or_fd (open_with f S baud) = FdOpen \<longleftrightarrow> or_err (open_with f S baud) = None"
  "or_fd (open_with f S baud) = FdNone \<longleftrightarrow> \<not> sy_open S"
  by (simp_all add: open_with_def opened_def split: option.split)

lemma disable_fd: "or_fd (unix_DisableHUPCL U S) \<noteq> FdOpen"
  by (simp add: unix_DisableHUPCL_def opened_def Let_def split: option.split)

lemma win_open_handle:
  "wr_handle (win_Open cbr Y device baud) = FdOpen \<longleftrightarrow> wr_err (win_Open cbr Y device baud) = None"
  "wr_handle (win_Open cbr Y device baud) = FdNone \<longleftrightarrow> \<not> wy_create Y"
  by (simp_all add: win_Open_def Let_def split: option.split prod.split)

text \<open>
  Whatever the system calls answer, \<open>Open\<close> leaves a descriptor open exactly when it
  returns a file; on every error path after the descriptor was opened it is closed. \<open>DisableHUPCL\<close>
  never leaves one open. The same holds on macOS, and of the handle on Windows.
\<close>

lemma open_no_leak:
  "(or_fd (unix_Open U S baud) = FdOpen \<longleftrightarrow> or_err (unix_Open U S baud) = None) \<and>
   (or_fd (unix_Open U S baud) = FdNone \<longleftrightarrow> \<not> sy_open S) \<and>
   (or_fd (darwin_Open V D baud) = FdOpen \<longleftrightarrow> or_err (darwin_Open V D baud) = None) \<and>
   (or_fd (darwin_Open V D baud) = FdNone \<longleftrightarrow> \<not> sy_open D) \<and>
   or_fd (unix_DisableHUPCL U S) \<noteq> FdOpen \<and> or_fd (unix_DisableHUPCL V D) \<noteq> FdOpen \<and>
   (wr_handle (win_Open cbr Y device baud) = FdOpen \<longleftrightarrow> wr_err (win_Open cbr Y device baud) = None) \<and>
   (wr_handle (win_Open cbr Y device baud) = FdNone \<longleftrightarrow> \<not> wy_create Y)"
  unfolding unix_Open_def darwin_Open_def by (intro conjI open_with_fd disable_fd win_open_handle)

section \<open>Windows devices\<close>

lemma upper_char_COM: "map upper_char ''COM'' = ''COM''"
  by (simp add: upper_char_def code_def)

lemma dos_prefix_not_COM: "\<not> isCOMDevice (dos_prefix @ s)"
  by (simp add: isCOMDevice_def dos_prefix_def upper_char_def code_def)

text \<open>The answers of the loop for one starting size.\<close>

lemma dos_loop_big: "4096 < n \<Longrightarrow> dos_loop q n = (False, [])"
  by (subst dos_loop.simps) simp

lemma dos_loop_small:
  "0 < n \<Longrightarrow> n \<le> 4096 \<Longrightarrow> dos_loop q n =
     (case q n of DosCount k \<Rightarrow> (0 < k, [n]) | DosError \<Rightarrow> (False, [n])
      | DosInsufficientBuffer \<Rightarrow> (fst (dos_loop q (2 * n)), n # snd (dos_loop q (2 * n))))"
  by (subst dos_loop.simps) (simp add: split_beta split: dos_answer.split)

text \<open>
  Devices on Windows. A name with the device prefix and a name that is not a COM port are
  used as they are; a COM port gets the prefix, with a trailing colon dropped, and normalising twice
  changes nothing. The query for a COM port tries at most the five buffer sizes from 256 to
  4096, stops at the first answer that is not a lack of space, and says yes exactly when that answer is a
  positive count.
\<close>

lemma windows_device:
  assumes "(path, name) = normalizeWindowsDevice device"
  shows "fst (normalizeWindowsDevice path) = path \<and>
    (isCOMDevice (TrimSuffix device '':'') \<longrightarrow> path = dos_prefix @ TrimSuffix device '':'' \<and> name = TrimSuffix device '':'') \<and>
    (\<not> isCOMDevice (TrimSuffix device '':'') \<longrightarrow> path = device) \<and>
    prefix (snd (dos_loop q 256)) [256, 512, 1024, 2048, 4096] \<and>
    (fst (dos_loop q 256) \<longleftrightarrow>
       (\<exists>n. find (\<lambda>s. q s \<noteq> DosInsufficientBuffer) [256, 512, 1024, 2048, 4096] = Some n \<and>
            (\<exists>k > 0. q n = DosCount k)))"
proof -
  have t: "prefix dos_prefix device \<Longrightarrow> \<not> isCOMDevice (TrimSuffix device '':'')"
  proof -
    assume "prefix dos_prefix device"
    then obtain s where d: "device = dos_prefix @ s" by (auto simp: prefix_def)
    show ?thesis
    proof (cases "suffix '':'' device")
      case True
      then have "s \<noteq> []" by (auto simp: d dos_prefix_def suffix_def)
      then have "TrimSuffix device '':'' = dos_prefix @ butlast s"
        using True by (cases s rule: rev_cases) (simp_all add: TrimSuffix_def d)
      then show ?thesis by (simp add: dos_prefix_not_COM)
    next
      case False
      then show ?thesis by (simp add: TrimSuffix_def d dos_prefix_not_COM)
    qed
  qed
  have n: "fst (normalizeWindowsDevice path) = path"
    using assms by (auto simp: normalizeWindowsDevice_def Let_def split: if_splits)
  have c: "(isCOMDevice (TrimSuffix device '':'') \<longrightarrow> path = dos_prefix @ TrimSuffix device '':'' \<and> name = TrimSuffix device '':'') \<and>
    (\<not> isCOMDevice (TrimSuffix device '':'') \<longrightarrow> path = device)"
    using assms t by (auto simp: normalizeWindowsDevice_def Let_def split: if_splits)
  have l: "prefix (snd (dos_loop q 256)) [256, 512, 1024, 2048, 4096] \<and>
    (fst (dos_loop q 256) \<longleftrightarrow>
       (\<exists>n. find (\<lambda>s. q s \<noteq> DosInsufficientBuffer) [256, 512, 1024, 2048, 4096] = Some n \<and>
            (\<exists>k > 0. q n = DosCount k)))"
    by (cases "q 256"; cases "q 512"; cases "q 1024"; cases "q 2048"; cases "q 4096")
      (simp_all add: dos_loop_small dos_loop_big)
  from n c l show ?thesis by blast
qed

lemma windows_device_witness:
  "fst (normalizeWindowsDevice ''COM5:'') = dos_prefix @ ''COM5''"
  using windows_device [of "fst (normalizeWindowsDevice ''COM5:'')" "snd (normalizeWindowsDevice ''COM5:'')" "''COM5:''"]
  by (simp add: TrimSuffix_def suffix_def isCOMDevice_def upper_char_def code_def)

text \<open>The name that the unit test of \<open>isCOMDevice\<close> expects to be refused.\<close>

lemma isCOMDevice_letters: "isCOMDevice ''COMA''"
  by (simp add: isCOMDevice_def upper_char_def code_def)

text \<open>The control flags on Windows, for every previous value.\<close>

lemma win_raw_flags:
  assumes "f = dcb_Flags (wt_DCB (win_SetRawMode t))"
  shows "f AND (dcbBinary OR dcbTxContinueOnXoff) = (dcbBinary OR dcbTxContinueOnXoff)"
    and "f AND (dcbParity OR dcbOutxCtsFlow OR dcbOutxDsrFlow OR dcbDsrSensitivity OR dcbOutX OR dcbInX OR
      dcbErrorChar OR dcbNull OR dcbAbortOnError) = 0"
    and "f AND dcbDtrControlMask = dcbDtrControlEnable" and "f AND dcbRtsControlMask = dcbRtsControlEnable"
  by (simp_all add: assms win_SetRawMode_def Let_def dcb_consts bit.conj_disj_distrib2
      bit.conj_disj_distrib and.assoc)

text \<open>The control flags on macOS: the same bits as on Linux, with the speed only in the speed fields.\<close>

lemma darwin_settings:
  assumes "map_of (baudrateMap darwin_bauds U) baud = Some rate"
  shows "\<exists>t. darwin_line_settings U baud t0 = Some t \<and> Ispeed t = rate \<and> Ospeed t = rate \<and>
    Cflag t = ((Cflag t0 AND NOT (u_CSIZE U OR u_PARENB U OR u_CSTOPB U OR u_CRTSCTS U)) OR
      (u_CS8 U OR u_CLOCAL U OR u_CREAD U)) AND NOT (u_HUPCL U)"
proof -
  have "(c OR (e OR l OR q)) OR (l OR q) = c OR (e OR l OR q)" for c e l q :: "64 word"
    by (auto simp: bit_eq_iff bit_simps)
  with assms show ?thesis
    by (simp add: darwin_line_settings_def darwin_SetBaudRate_def darwin_SetRawMode_def raw_mode_def Let_def)
qed

end
