(* ===== verification/Stopping.thy ===== *)
theory Stopping
  imports BrokerSystem Sample
begin

text \<open>
  How a broker stops: once \<open>done\<close> is closed it stays closed through every operation and
  every step of the system, and \<open>Run\<close> returns only when its \<open>select\<close> wakes up. A failed
  write closes \<open>done\<close>, after which \<open>readSerial\<close> returns without sending to \<open>errCh\<close>; then
  nothing but the context can wake \<open>Run\<close>.
\<close>

section \<open>The context\<close>

text \<open>In this step the \<open>select\<close> of \<open>Run\<close> takes the cancelled context, not \<open>errCh\<close>.\<close>

definition woken_by_ctx :: "sys \<Rightarrow> sys \<Rightarrow> bool" where
  "woken_by_ctx s t \<longleftrightarrow> s_run s \<and> \<not> s_run t \<and> s_errCh t = s_errCh s"

text \<open>The context of \<open>Run\<close> is cancelled in this step.\<close>

definition ctx_step :: "sys \<Rightarrow> sys \<Rightarrow> bool" where
  "ctx_step s t \<longleftrightarrow>
     (\<exists>m. t = s\<lparr>s_broker := fail (Some (ErrContext m)) (s_broker s), s_run := False\<rparr>)"

lemma woken_ctx_step: "sys_step E s t \<Longrightarrow> woken_by_ctx s t \<Longrightarrow> ctx_step s t"
  by (erule sys_step.cases) (auto simp: woken_by_ctx_def ctx_step_def)

lemma woken_same [simp]:
  "s_run t = s_run s \<Longrightarrow> \<not> woken_by_ctx s t"
  "s_errCh s \<Longrightarrow> \<not> s_errCh t \<Longrightarrow> \<not> woken_by_ctx s t"
  by (simp_all add: woken_by_ctx_def)

section \<open>How the signal and the error move\<close>

text \<open>
  \<open>done\<close> and \<open>err\<close> together. No operation but \<open>fail\<close> touches them, and the errors the handlers
  fail with come from the serial link, never from the context.
\<close>

definition ending :: "broker \<Rightarrow> bool \<times> go_error option" where
  "ending b = (b_done b, b_err b)"

definition from_ctx :: "go_error option \<Rightarrow> bool" where
  "from_ctx e \<longleftrightarrow> (case e of Some (ErrContext m) \<Rightarrow> True | _ \<Rightarrow> False)"

lemma from_ctx_simps [simp]:
  "from_ctx (Some (ErrContext m))" "\<not> from_ctx None" "\<not> from_ctx (Some ErrSerialClosed)" "\<not> from_ctx (Some ErrMarshal)"
  by (simp_all add: from_ctx_def)

lemma ending_same [simp]:
  "ending (logDecodedPayload d a p k b) = ending b" "ending (PublishStatus E b) = ending b"
  "ending (set_client cl c b) = ending b" "ending (dropPendingForClient cl b) = ending b"
  "ending (removeClient E cl b) = ending b" "ending (warnReadOnlyClient cl b) = ending b"
  "ending (disconnectSlowClient E cl b) = ending b" "ending (snd (AddClient E addr b)) = ending b"
  "ending (unregisterCannedWait i b) = ending b" "ending (snd (registerCannedWait i b)) = ending b"
  "ending (snd (cachedCanned b)) = ending b" "ending (snd (tryDeliverCanned E pkt b)) = ending b"
  "ending (snd (takeConfigRequest i b)) = ending b" "ending (snd (consumeOutboundOrigin pkt b)) = ending b"
  "ending (noteOutboundPacket cl pkt b) = ending b"
  by (auto simp: ending_def logDecodedPayload_def PublishStatus_def set_client_def dropPendingForClient_def
      removeClient_def warnReadOnlyClient_def disconnectSlowClient_def AddClient_def unregisterCannedWait_def
      registerCannedWait_def cachedCanned_def tryDeliverCanned_def takeConfigRequest_def storeCannedCache_def
      consumeOutboundOrigin_def noteOutboundPacket_def Let_def split: payloadKind.split option.split)

lemma ending_updates [simp]:
  "ending (b\<lparr>b_cache := c\<rparr>) = ending b" "ending (b\<lparr>b_now := n\<rparr>) = ending b" "ending (b\<lparr>b_hub := h\<rparr>) = ending b"
  "ending (b\<lparr>b_serial_out := w\<rparr>) = ending b" "ending (b\<lparr>b_pendingConfig := m\<rparr>) = ending b"
  by (simp_all add: ending_def)

lemma ending_send [simp]:
  "ending (sendToClient E cl p b) = ending b" "ending (snd (sendToClientBlocking E w cl p b)) = ending b"
  by (simp_all add: sendToClient_def sendToClientBlocking_def split: prod.split bool.split)

lemma ending_broadcast [simp]:
  "ending (broadcastExcept E p ex b) = ending b" "ending (broadcast E p b) = ending b"
  "ending (CloseAll E b) = ending b"
proof -
  have s: "ending (send_each E p ex cls b) = ending b" for ex cls
    by (induction cls arbitrary: b) simp_all
  have r: "ending (remove_each E cls b) = ending b" for cls
    by (induction cls arbitrary: b) simp_all
  show "ending (broadcastExcept E p ex b) = ending b" "ending (broadcast E p b) = ending b"
    "ending (CloseAll E b) = ending b"
    by (simp_all add: broadcastExcept_def broadcast_def CloseAll_def s r)
qed

lemma ending_serial [simp]:
  "ending (snd (writeSerial E p b)) = ending b" "ending (snd (forwardToSerial E t b)) = ending b"
  by (simp_all add: forwardToSerial_def writeSerial_def Let_def split: option.split prod.split)

lemma ending_pair:
  "writeSerial E p b = (e, b') \<Longrightarrow> ending b' = ending b"
  "forwardToSerial E t b = (e, b') \<Longrightarrow> ending b' = ending b"
  "takeConfigRequest i b = (req, b') \<Longrightarrow> ending b' = ending b"
  "tryDeliverCanned E pkt b = (ok, b') \<Longrightarrow> ending b' = ending b"
  "consumeOutboundOrigin pkt b = (cl, b') \<Longrightarrow> ending b' = ending b"
  "registerCannedWait i b = (ch, b') \<Longrightarrow> ending b' = ending b"
  "cachedCanned b = (ms, b') \<Longrightarrow> ending b' = ending b"
  "sendToClientBlocking E' w c q b = (ok, b') \<Longrightarrow> ending b' = ending b"
  by (metis ending_serial ending_same ending_send snd_conv)+

lemma serial_errors:
  "writeSerial E p b = (e, b') \<Longrightarrow> \<not> from_ctx e"
  "forwardToSerial E t b = (e, b') \<Longrightarrow> \<not> from_ctx e"
  by (auto simp: forwardToSerial_def writeSerial_def Let_def split: option.splits prod.splits if_splits)

lemma ending_reserve: "reserveConfigRequest cl i b = Some (n, b') \<Longrightarrow> ending b' = ending b"
  by (auto simp: ending_def reserveConfigRequest_def split: option.splits)

lemma ending_nextPacketID: "nextPacketID b = Some (n, b') \<Longrightarrow> ending b' = ending b"
  by (auto simp: ending_def nextPacketID_def split: list.splits rand_draw.splits)

lemma ending_SendText: "SendTextMessage E ch dest input b = Some (r, b') \<Longrightarrow> ending b' = ending b"
  by (auto simp: SendTextMessage_def Let_def dest!: ending_pair ending_nextPacketID
      split: if_splits prod.splits option.splits)

lemma ending_FetchBegin: "FetchCanned_begin E b = Some (r, b') \<Longrightarrow> ending b' = ending b"
  by (auto simp: FetchCanned_begin_def dest!: ending_pair ending_nextPacketID
      split: if_splits prod.splits option.splits)

lemma ending_FetchEnd: "ending (snd (FetchCanned_end w pktID ch b)) = ending b"
  by (simp add: FetchCanned_end_def ending_def chan_recv_def unregisterCannedWait_def storeCannedCache_def
      split: fetch_case.split prod.split list.split)

text \<open>
  A property of the two that a failure on the serial link keeps is kept by every operation, and
  by every step that is not the context's.
\<close>

locale kept_by_failures =
  fixes P :: "bool \<times> go_error option \<Rightarrow> bool"
  assumes kept: "P (ending b) \<Longrightarrow> \<not> from_ctx e \<Longrightarrow> P (ending (fail e b))"
begin

lemma kept_serial_failure:
  "forwardToSerial E t b = (e, b') \<Longrightarrow> P (ending b) \<Longrightarrow> P (ending (fail e b'))"
  "writeSerial E p b = (e, b') \<Longrightarrow> P (ending b) \<Longrightarrow> P (ending (fail e b'))"
  by (simp_all add: kept serial_errors ending_pair)

lemma kept_forward_or_fail: "P (ending b) \<Longrightarrow> P (ending (forward_or_fail E t b))"
  by (auto simp: forward_or_fail_def dest: ending_pair intro: kept_serial_failure split: prod.split option.split)

lemma kept_reissue: "reissue E old b = Some b' \<Longrightarrow> P (ending b) \<Longrightarrow> P (ending b')"
proof (induction old arbitrary: b)
  case (Cons kr old)
  show ?case
  proof (cases "case cr_client (snd kr) of None \<Rightarrow> False | Some cl \<Rightarrow> isClosed (the_client b cl)")
    case True
    with Cons show ?thesis by (simp add: Let_def)
  next
    case False
    from Cons.prems(1) False obtain n b1 where r: "reserveConfigRequest (cr_client (snd kr)) (cr_originalID (snd kr)) b = Some (n, b1)"
      by (auto simp: Let_def split: option.splits)
    obtain e b2 where f: "forwardToSerial E (mk_ToRadio (ToRadio_WantConfigId n)) b1 = (e, b2)" by fastforce
    have "P (ending b2)" using Cons.prems(2) ending_reserve [OF r] ending_pair(2) [OF f] by simp
    with Cons.prems(1) Cons.IH False r f serial_errors(2) [OF f] show ?thesis
      by (auto simp: Let_def kept split: option.splits)
  qed
qed simp

lemma kept_route: "routeFromRadio E frame b = Some (r, b') \<Longrightarrow> P (ending b) \<Longrightarrow> P (ending b')"
proof -
  have h: "ending (handleConfigComplete E i b) = ending b" for i
    by (auto simp: handleConfigComplete_def dest: ending_pair split: prod.split option.split)
  assume "routeFromRadio E frame b = Some (r, b')" "P (ending b)"
  then show ?thesis
    by (auto simp: routeFromRadio_def h handleRebooted_def Let_def
        dest: kept_reissue split: option.splits FromRadio_PayloadVariant.splits)
qed

lemma kept_handleSerial:
  assumes "handleSerialPayload E p b = Some b'" and "P (ending b)"
  shows "P (ending b')"
proof (cases "unmarshal_FromRadio E p")
  case None
  with assms show ?thesis by (auto simp: handleSerialPayload_def Let_def)
next
  case (Some msg)
  let ?b1 = "logDecodedPayload ''serial -> broker'' '''' p payloadFromRadio b"
  let ?b2 = "?b1\<lparr>b_cache := cache_update msg p (b_cache ?b1)\<rparr>"
  obtain r b3 where rt: "routeFromRadio E msg ?b2 = Some (r, b3)"
    using assms(1) Some by (auto simp: handleSerialPayload_def Let_def split: option.splits)
  have b3: "P (ending b3)" using kept_route [OF rt] assms(2) by simp
  obtain d b4 where t: "tryDeliverCanned E (FromRadio_GetPacket msg) b3 = (d, b4)" by fastforce
  obtain o5 b5 where c: "consumeOutboundOrigin (FromRadio_GetPacket msg) b4 = (o5, b5)" by fastforce
  have "P (ending b4)" "P (ending b5)" using b3 ending_pair(4) [OF t] ending_pair(5) [OF c] by simp_all
  then show ?thesis
    using assms(1) Some rt t c b3
    by (auto simp: handleSerialPayload_def Let_def split: bool.splits if_splits option.splits)
qed

lemma kept_announce: "P (ending b) \<Longrightarrow> P (ending (announcePacket E cl pkt b))"
  by (simp add: announcePacket_def Let_def split: option.split)

lemma kept_forward:
  assumes "readLoop_forward E cl p b = Some (pkt, b')" and "P (ending b)"
  shows "P (ending b')"
proof -
  let ?b = "logDecodedPayload ''client -> broker'' (cl_addr (the_client b cl)) p payloadToRadio b"
  from assms(1) obtain t where "forwardToSerial E t ?b = (None, b')"
    by (auto simp: readLoop_forward_def Let_def
        split: option.splits ToRadio_PayloadVariant.splits if_splits prod.splits)
  from ending_pair(2) [OF this] assms(2) show ?thesis by simp
qed

lemma kept_handleClient:
  assumes "readLoop_frame E cl p b = Some (b', ps)" and "P (ending b)"
  shows "P (ending b')"
proof -
  let ?b = "logDecodedPayload ''client -> broker'' (cl_addr (the_client b cl)) p payloadToRadio b"
  have d: "P (ending ?b)" using assms(2) by simp
  have w: "P (ending (handleClientPacket E cl t pkt ?b))" for t pkt
    using d
    by (auto simp: handleClientPacket_def intro!: kept_announce intro: kept_serial_failure dest: ending_pair
        split: prod.split option.split)
  have c: "handleWantConfig E cl t i ?b = Some (x, ys) \<Longrightarrow> P (ending x)" for t i x ys
    using d by (auto simp: handleWantConfig_def dest!: ending_reserve intro: kept_forward_or_fail
        split: if_splits option.splits)
  have s: "P (ending (case writeSerial E p ?b of (Some e, b1) \<Rightarrow> fail (Some e) b1 | (None, b1) \<Rightarrow> b1))"
    using d by (auto intro: kept_serial_failure dest: ending_pair split: prod.split option.split)
  from assms(1) have "handleClientPayload E cl p ?b = Some (b', ps)" by (simp add: readLoop_frame_def)
  then show ?thesis
    using d w c s kept_forward_or_fail [OF d]
    by (auto simp: handleClientPayload_def split: option.splits ToRadio_PayloadVariant.splits if_splits)
qed

lemma kept_step:
  assumes "sys_step E s t" and "\<not> woken_by_ctx s t" and "P (ending (s_broker s))"
  shows "P (ending (s_broker t))"
  using assms(1)
proof cases
  case (SendText ch dest input r b)
  with assms(3) ending_SendText [OF SendText(2)] show ?thesis by simp
next
  case (FetchBegin r b fs)
  with assms(3) ending_FetchBegin [OF FetchBegin(2)] show ?thesis by simp
next
  case (FetchEnd pktID ch w r b)
  with assms(3) ending_FetchEnd [of w pktID ch "s_broker s"] show ?thesis by simp
next
  case (WriterTurn cl w p q ok wire b)
  with assms(3) show ?thesis
    by (auto simp: writeLoop_turn_def Let_def split: prod.splits option.splits recv_result.splits bool.splits)
next
  case (Bootstrap b)
  with assms(3) show ?thesis
    by (auto simp: bootstrapConfig_def dest!: ending_reserve intro!: kept_forward_or_fail split: if_splits option.splits)
next
  case (CtxDone m)
  with assms(2) show ?thesis by (simp add: woken_by_ctx_def)
qed (use assms(3) in \<open>auto intro: kept kept_handleSerial kept_handleClient kept_forward kept_announce dest: ending_pair\<close>)

end

text \<open>A closed signal stays closed, and an error that is not the context's stays so.\<close>

interpretation stays_done: kept_by_failures fst
  by unfold_locales (simp add: ending_def fail_def)

interpretation no_ctx_error: kept_by_failures "\<lambda>(d, e). \<not> from_ctx e"
  by unfold_locales (auto simp: ending_def fail_def split: option.split)

lemma stopped_step:
  assumes "sys_step E s t" and "b_done (s_broker s)"
  shows "b_done (s_broker t)"
proof (cases "woken_by_ctx s t")
  case True
  with woken_ctx_step [OF assms(1)] show ?thesis by (auto simp: ctx_step_def fail_def)
next
  case False
  from stays_done.kept_step [OF assms(1) this] assms(2) show ?thesis by (simp add: ending_def)
qed

lemma no_ctx_error_step:
  assumes "sys_step E s t" and "\<not> woken_by_ctx s t" and "\<not> from_ctx (b_err (s_broker s))"
  shows "\<not> from_ctx (b_err (s_broker t))"
  using no_ctx_error.kept_step [OF assms(1,2)] assms(3) by (simp add: ending_def)

section \<open>Properties\<close>

text \<open>\<open>done\<close> is closed, the serial reader is gone, and nothing waits in \<open>errCh\<close>.\<close>

definition run_stuck :: "sys \<Rightarrow> bool" where
  "run_stuck s \<longleftrightarrow> s_run s \<and> b_done (s_broker s) \<and> \<not> s_serial_reader s \<and> \<not> s_errCh s"

lemma stuck_step:
  assumes "sys_step E s t" and "\<not> ctx_step s t" and "run_stuck s"
  shows "run_stuck t"
proof -
  have "b_done (s_broker t)" using stopped_step [OF assms(1)] assms(3) by (simp add: run_stuck_def)
  moreover have "s_run t \<and> \<not> s_serial_reader t \<and> \<not> s_errCh t"
    using assms by cases (auto simp: run_stuck_def ctx_step_def)
  ultimately show ?thesis by (simp add: run_stuck_def)
qed

interpretation stuck_sys: invariant_system run_stuck "\<lambda>s t. sys_step E s t \<and> \<not> ctx_step s t" run_stuck for E
  by unfold_locales (auto intro: stuck_step)

text \<open>
  C40: a failed write to the radio can hang the bridge. When the serial write of a client's
  packet fails, the broker closes \<open>done\<close>; the serial reader, still alive, finds it closed and returns
  without telling \<open>Run\<close>. From then on, whatever the goroutines and clients do, \<open>Run\<close> stays in
  its \<open>select\<close> until the process is told to stop: the session neither works nor
  ends, and the server loop never reconnects.
\<close>

theorem write_failure_hangs_run:
  assumes "s_run s" and "s_serial_reader s" and "\<not> s_errCh s"
    and "live s cl" and "s_reader s cl = RIdle" and "frame_ok p"
    and "readLoop_frame E cl p (s_broker s) = Some (b, ps)" and "b_done b"
  shows "\<exists>u. (sys_step E)\<^sup>*\<^sup>* s u \<and> s_broker u = b \<and>
    (\<forall>t. (\<lambda>s t. sys_step E s t \<and> \<not> ctx_step s t)\<^sup>*\<^sup>* u t \<longrightarrow> s_run t \<and> b_done (s_broker t))"
proof -
  let ?t = "s\<lparr>s_broker := b, s_reader := (s_reader s)(cl := replay_pc ps)\<rparr>"
  let ?u = "?t\<lparr>s_serial_reader := False\<rparr>"
  have 1: "sys_step E s ?t" using assms(4-7) by (rule ClientFrame)
  have 2: "sys_step E ?t ?u" using assms(2,8) by (intro SerialStop) simp_all
  have "run_stuck ?u" using assms(1,3,8) by (simp add: run_stuck_def)
  then have "s_run t \<and> b_done (s_broker t)"
    if "(\<lambda>s t. sys_step E s t \<and> \<not> ctx_step s t)\<^sup>*\<^sup>* ?u t" for t
    using stuck_sys.inv_reachable [OF _ that] by (simp add: run_stuck_def)
  moreover have "(sys_step E)\<^sup>*\<^sup>* s ?u" using 1 2 by (meson converse_rtranclp_into_rtranclp r_into_rtranclp)
  ultimately show ?thesis by (intro exI [of _ ?u]) auto
qed

text \<open>A serial device whose writes fail.\<close>

definition broken_env :: env where
  "broken_env = sample_env\<lparr>e_writer := (\<lambda>out buf. (0, Some ErrUnexpectedEOF))\<rparr>"

theorem write_failure_witness:
  "\<exists>u. (sys_step broken_env)\<^sup>*\<^sup>* (sys_init (sample_broker False)) u \<and> s_run u \<and> b_done (s_broker u)"
proof -
  let ?p = "[2, 8, 1] :: bytes"
  have d: "unmarshal_ToRadio broken_env ?p = Some (mk_ToRadio (ToRadio_Packet (Some (sample_packet 8 1))))"
    by (simp add: broken_env_def sample_unmarshal_ToRadio_def)
  have w: "writeAll (\<lambda>out buf. (0, Some ErrUnexpectedEOF)) [] (frame_header q) = (Some (WriteErr ErrUnexpectedEOF), [])" for q
    by (subst writeAll.simps) (simp add: frame_header_def)
  have f: "fst (forwardToSerial broken_env (mk_ToRadio (ToRadio_Packet (Some (sample_packet 8 1)))) (sample_broker False)) =
      Some ErrSerialClosed"
    by (simp add: forwardToSerial_def broken_env_def sample_marshal_ToRadio_def mk_ToRadio_def writeSerial_def
        logDecodedPayload_def WriteFrame_def MaxSize_def w)
  have l: "logDecodedPayload di ad pl k (sample_broker False) = sample_broker False" for di ad pl k
    by (simp add: logDecodedPayload_def)
  obtain b where r: "readLoop_frame broken_env 0 ?p (sample_broker False) = Some (b, [])" and b: "b_done b"
    using f by (cases "forwardToSerial broken_env (mk_ToRadio (ToRadio_Packet (Some (sample_packet 8 1)))) (sample_broker False)")
      (auto simp: readLoop_frame_def l handleClientPayload_def d mk_ToRadio_def handleClientPacket_def isPrimary_def fail_def)
  have "\<exists>u. (sys_step broken_env)\<^sup>*\<^sup>* (sys_init (sample_broker False)) u \<and> s_broker u = b \<and>
    (\<forall>t. (\<lambda>s t. sys_step broken_env s t \<and> \<not> ctx_step s t)\<^sup>*\<^sup>* u t \<longrightarrow> s_run t \<and> b_done (s_broker t))"
    by (rule write_failure_hangs_run [where cl = 0 and p = ?p and ps = "[]"])
      (use r b in \<open>simp_all add: sys_init_def frame_ok_def MaxSize_def\<close>)
  then show ?thesis by blast
qed

end
