(* ===== verification/Config.thy ===== *)
theory Config
  imports GoFlag
begin

text \<open>
  \<open>internal/config\<close>: the settings from the environment and the command line. The
  environment is a map from names to values, \<open>os.Args[1:]\<close> a list of strings. \<open>Load\<close>
  returns the configuration and the healthcheck flag, or the exit code of the flag
  package when the command line is wrong. A \<open>time.Duration\<close> is a 64-bit count of
  nanoseconds and the multiplication wraps.
\<close>

section \<open>The configuration\<close>

record Config =
  cfg_Device :: string
  cfg_Baud :: int
  cfg_TCPPort :: int
  cfg_ReconnectDelay :: int
  cfg_ServiceName :: string
  cfg_MDNSEnabled :: bool
  cfg_ReadOnlyClients :: bool
  cfg_Debug :: bool
  cfg_WebUI :: bool
  cfg_WebUIAddr :: string

type_synonym environ = "string \<Rightarrow> string option"

definition os_Getenv :: "environ \<Rightarrow> string \<Rightarrow> string" where
  "os_Getenv e key = (case e key of Some v \<Rightarrow> v | None \<Rightarrow> '''')"

definition getenv :: "environ \<Rightarrow> string \<Rightarrow> string \<Rightarrow> string" where
  "getenv e key fallback =
     (let val = TrimSpace (os_Getenv e key) in if val = '''' then fallback else val)"

definition getenvInt :: "environ \<Rightarrow> string \<Rightarrow> int \<Rightarrow> int" where
  "getenvInt e key fallback =
     (let val = TrimSpace (os_Getenv e key) in
      if val = '''' then fallback
      else (case Atoi val of
          None \<Rightarrow> fallback
        | Some parsed \<Rightarrow> if parsed \<le> 0 then fallback else parsed))"

text \<open>\<open>strings.ToLower\<close> as far as the comparison with ASCII words sees it.\<close>

definition ToLower :: "string \<Rightarrow> string" where
  "ToLower s = map lower_char s"

definition getenvBool :: "environ \<Rightarrow> string \<Rightarrow> bool \<Rightarrow> bool" where
  "getenvBool e key fallback =
     (let val = TrimSpace (os_Getenv e key) in
      if val = '''' then fallback
      else if ToLower val \<in> {''1'', ''true'', ''yes'', ''on''} then True
      else if ToLower val \<in> {''0'', ''false'', ''no'', ''off''} then False
      else fallback)"

definition normalizePositiveInt :: "int \<Rightarrow> int \<Rightarrow> int" where
  "normalizePositiveInt val fallback = (if val \<le> 0 then fallback else val)"

definition sanitizeDeviceName :: "string \<Rightarrow> string" where
  "sanitizeDeviceName device =
     map (\<lambda>c. if c = CHR ''/'' \<or> c = CHR ''.'' then CHR ''_'' else c) device"

text \<open>The loop of \<open>flagPassed\<close>; \<^term>\<open>n\<close> is \<open>len(os.Args)\<close>.\<close>

fun flag_passed_from :: "string \<Rightarrow> nat \<Rightarrow> nat \<Rightarrow> string list \<Rightarrow> bool" where
  "flag_passed_from pre i n [] = False"
| "flag_passed_from pre i n (arg # args) =
     (if arg = pre \<or> prefix (pre @ ''='') arg then True
      else if arg = pre \<and> i + 1 < n - 1 then True
      else flag_passed_from pre (Suc i) n args)"

definition flagPassed :: "string list \<Rightarrow> string \<Rightarrow> bool" where
  "flagPassed args name = flag_passed_from (CHR ''-'' # name) 0 (Suc (length args)) args"

definition seconds :: "int \<Rightarrow> int" where
  "seconds n = sint (word_of_int (n * 1000000000) :: 64 word)"

section \<open>Load\<close>

definition config_flags :: "environ \<Rightarrow> flags" where
  "config_flags e =
     [(''healthcheck'', FBool False),
      (''device'', FString (getenv e ''SERIAL_DEVICE'' ''/dev/ttyUSB0'')),
      (''baud'', FInt (getenvInt e ''BAUD_RATE'' 115200)),
      (''tcp-port'', FInt (getenvInt e ''TCP_PORT'' 4403)),
      (''reconnect-delay'', FInt (getenvInt e ''RECONNECT_DELAY'' 5)),
      (''mdns'', FBool (getenvBool e ''MDNS_ENABLED'' True)),
      (''read-only-clients'', FBool (getenvBool e ''READ_ONLY_CLIENTS'' False)),
      (''debug'', FBool (getenvBool e ''DEBUG'' False)),
      (''D'', FBool False),
      (''web-ui'', FBool (getenvBool e ''WEB_UI'' False)),
      (''web-ui-addr'', FString (getenv e ''WEB_UI_ADDR'' ''127.0.0.1:9080'')),
      (''service-name'', FString (getenv e ''SERVICE_NAME'' ''''))]"

definition flag_bool :: "flags \<Rightarrow> string \<Rightarrow> bool" where
  "flag_bool fs k = (case map_of fs k of Some (FBool b) \<Rightarrow> b | _ \<Rightarrow> False)"

definition flag_int :: "flags \<Rightarrow> string \<Rightarrow> int" where
  "flag_int fs k = (case map_of fs k of Some (FInt i) \<Rightarrow> i | _ \<Rightarrow> 0)"

definition flag_string :: "flags \<Rightarrow> string \<Rightarrow> string" where
  "flag_string fs k = (case map_of fs k of Some (FString s) \<Rightarrow> s | _ \<Rightarrow> '''')"

datatype load_result = Loaded Config bool | Exit nat

definition Load :: "environ \<Rightarrow> string list \<Rightarrow> load_result" where
  "Load e args =
     (let defaultDevice = getenv e ''SERIAL_DEVICE'' ''/dev/ttyUSB0'';
          baud = getenvInt e ''BAUD_RATE'' 115200;
          tcpPort = getenvInt e ''TCP_PORT'' 4403;
          reconnectDelaySeconds = getenvInt e ''RECONNECT_DELAY'' 5;
          webUIAddrFromEnv = (e ''WEB_UI_ADDR'' \<noteq> None);
          webUIAddrFromCLI = flagPassed args ''web-ui-addr''
      in case flag_parse (config_flags e) args of
           FlagExit n \<Rightarrow> Exit n
         | FlagsOk fs \<Rightarrow>
             let device0 = TrimSpace (flag_string fs ''device'');
                 device = (if device0 = '''' then defaultDevice else device0);
                 addr = TrimSpace (flag_string fs ''web-ui-addr'');
                 service = TrimSpace (flag_string fs ''service-name'')
             in Loaded
               \<lparr>cfg_Device = device,
                cfg_Baud = normalizePositiveInt (flag_int fs ''baud'') baud,
                cfg_TCPPort = normalizePositiveInt (flag_int fs ''tcp-port'') tcpPort,
                cfg_ReconnectDelay =
                  seconds (normalizePositiveInt (flag_int fs ''reconnect-delay'') reconnectDelaySeconds),
                cfg_ServiceName =
                  (if service = ''''
                   then ''Meshtastic Serial Bridge ('' @ sanitizeDeviceName device @ '')'' else service),
                cfg_MDNSEnabled = flag_bool fs ''mdns'',
                cfg_ReadOnlyClients = flag_bool fs ''read-only-clients'',
                cfg_Debug = (flag_bool fs ''debug'' \<or> flag_bool fs ''D''),
                cfg_WebUI = (flag_bool fs ''web-ui'' \<or> webUIAddrFromEnv \<or> webUIAddrFromCLI),
                cfg_WebUIAddr = (if addr = '''' then ''127.0.0.1:9080'' else addr)\<rparr>
               (flag_bool fs ''healthcheck''))"

section \<open>Lemmas\<close>

lemma getenvInt_pos: "0 < fallback \<Longrightarrow> 0 < getenvInt e key fallback"
  by (simp add: getenvInt_def Let_def split: option.split)

lemma getenv_nonempty: "fallback \<noteq> '''' \<Longrightarrow> getenv e key fallback \<noteq> ''''"
  by (simp add: getenv_def Let_def)

lemma normalize_pos: "0 < fallback \<Longrightarrow> 0 < normalizePositiveInt v fallback"
  by (simp add: normalizePositiveInt_def)

lemma flagPassed_iff:
  "flagPassed args name \<longleftrightarrow>
     (\<exists>arg \<in> set args. arg = CHR ''-'' # name \<or> prefix (CHR ''-'' # name @ ''='') arg)"
proof -
  have "flag_passed_from pre i n args \<longleftrightarrow> (\<exists>arg \<in> set args. arg = pre \<or> prefix (pre @ ''='') arg)" for pre i n
    by (induction args arbitrary: i) auto
  then show ?thesis by (simp add: flagPassed_def)
qed

lemma plain_trimmed:
  assumes "\<forall>c \<in> set s. 33 \<le> code c \<and> code c \<le> 126"
  shows "trimmed s"
proof -
  have r: "\<forall>p \<in> set space_runes. \<forall>c \<in> set p. \<not> (33 \<le> code c \<and> code c \<le> 126)"
    by (simp add: space_runes_def code_def)
  have "\<not> prefix p t" if "p \<noteq> []" "\<forall>c \<in> set p. \<not> (33 \<le> code c \<and> code c \<le> 126)" "set t = set s" for p t
    using that assms by (cases p) (auto simp: prefix_def)
  with r show ?thesis by (auto simp: trimmed_def starts_clean_def)
qed

lemma Itoa_plain:
  assumes "0 \<le> i"
  shows "trimmed (Itoa i)"
proof (rule plain_trimmed)
  have "\<forall>c \<in> set (show_base 10 n). 33 \<le> code c \<and> code c \<le> 126" for n
  proof (induction n rule: less_induct)
    case (less n)
    have d: "33 \<le> code (digit_char d) \<and> code (digit_char d) \<le> 126" if "d < 10" for d
      using that by (simp add: code_def digit_char_def)
    show ?case
      using less [of "n div 10"] d by (subst show_base.simps) auto
  qed
  then show "\<forall>c \<in> set (Itoa i). 33 \<le> code c \<and> code c \<le> 126" using assms by (simp add: Itoa_def)
qed

lemma Itoa_nonempty: "Itoa i \<noteq> ''''"
  using show_base_hd by (auto simp: Itoa_def) (metis list.distinct(1))+

lemma getenvInt_valid:
  assumes "e key = Some (Itoa i)" and "0 < i" and "i < 2 ^ 63"
  shows "getenvInt e key fallback = i"
  using assms Atoi_Itoa [of i] TrimSpace_id [OF Itoa_plain [of i]] Itoa_nonempty [of i]
  by (simp add: getenvInt_def os_Getenv_def)

lemma seconds_exact: "0 < d \<Longrightarrow> d \<le> 9223372036 \<Longrightarrow> seconds d = d * 1000000000"
  unfolding seconds_def sint_sbintrunc' by (rule signed_take_bit_int_eq_self) simp_all

section \<open>Properties\<close>


text \<open>
  Settings read back. A positive number that fits into 64 bits, written in decimal into
  \<open>BAUD_RATE\<close>, \<open>TCP_PORT\<close> or \<open>RECONNECT_DELAY\<close>, is the value that is loaded when the command line
  sets nothing, and every setting that is absent takes its documented default.
\<close>

lemma environment_read_back:
  assumes "e ''BAUD_RATE'' = Some (Itoa baud)" and "0 < baud" and "baud < 2 ^ 63"
    and "e ''TCP_PORT'' = Some (Itoa port)" and "0 < port" and "port < 2 ^ 63"
    and "e ''RECONNECT_DELAY'' = Some (Itoa d)" and "0 < d" and "d < 2 ^ 63"
    and "\<And>k. k \<notin> {''BAUD_RATE'', ''TCP_PORT'', ''RECONNECT_DELAY''} \<Longrightarrow> e k = None"
  shows "Load e [] = Loaded
    \<lparr>cfg_Device = ''/dev/ttyUSB0'', cfg_Baud = baud, cfg_TCPPort = port, cfg_ReconnectDelay = seconds d,
     cfg_ServiceName = ''Meshtastic Serial Bridge (_dev_ttyUSB0)'', cfg_MDNSEnabled = True,
     cfg_ReadOnlyClients = False, cfg_Debug = False, cfg_WebUI = False,
     cfg_WebUIAddr = ''127.0.0.1:9080''\<rparr> False"
proof -
  note ints = getenvInt_valid [of e "''BAUD_RATE''" baud, OF assms(1-3)]
    getenvInt_valid [of e "''TCP_PORT''" port, OF assms(4-6)]
    getenvInt_valid [of e "''RECONNECT_DELAY''" d, OF assms(7-9)]
  have "getenv e k f = f" "getenvBool e k b = b" if "k \<notin> {''BAUD_RATE'', ''TCP_PORT'', ''RECONNECT_DELAY''}" for k f b
    using assms(10) [OF that] by (simp_all add: getenv_def getenvBool_def os_Getenv_def)
  note rest = this [of "''SERIAL_DEVICE''"] this [of "''MDNS_ENABLED''"] this [of "''READ_ONLY_CLIENTS''"]
    this [of "''DEBUG''"] this [of "''WEB_UI''"] this [of "''WEB_UI_ADDR''"] this [of "''SERVICE_NAME''"]
  have t: "TrimSpace ''/dev/ttyUSB0'' = ''/dev/ttyUSB0''" "TrimSpace ''127.0.0.1:9080'' = ''127.0.0.1:9080''"
    by (intro TrimSpace_id plain_trimmed; simp add: code_def)+
  show ?thesis
    using assms(2,5,8,10) rest
    by (simp add: Load_def Let_def config_flags_def ints flag_string_def flag_int_def flag_bool_def t
        normalizePositiveInt_def sanitizeDeviceName_def flagPassed_def)
qed

lemma environment_witness:
  "Load (Map.empty(''BAUD_RATE'' \<mapsto> ''9600'', ''TCP_PORT'' \<mapsto> ''4000'', ''RECONNECT_DELAY'' \<mapsto> ''7'')) [] = Loaded
    \<lparr>cfg_Device = ''/dev/ttyUSB0'', cfg_Baud = 9600, cfg_TCPPort = 4000, cfg_ReconnectDelay = 7000000000,
     cfg_ServiceName = ''Meshtastic Serial Bridge (_dev_ttyUSB0)'', cfg_MDNSEnabled = True,
     cfg_ReadOnlyClients = False, cfg_Debug = False, cfg_WebUI = False,
     cfg_WebUIAddr = ''127.0.0.1:9080''\<rparr> False"
proof -
  have i: "''9600'' = Itoa 9600" "''4000'' = Itoa 4000" "''7'' = Itoa 7"
    by (simp_all add: Itoa_def show_base.simps digit_char_def char_of_def bit_0)
  let ?e = "Map.empty(''BAUD_RATE'' \<mapsto> ''9600'', ''TCP_PORT'' \<mapsto> ''4000'', ''RECONNECT_DELAY'' \<mapsto> ''7'')"
  have s: "seconds 7 = 7000000000" using seconds_exact [of 7] by simp
  show ?thesis
    by (rule environment_read_back [of ?e 9600 4000 7, unfolded s])
      (simp_all flip: i)
qed

text \<open>
  The flag package takes a flag with one dash or with two; \<open>flagPassed\<close> only knows one. So
  an address given with two dashes is used but does not enable the web UI, against the
  documentation of the flag, and with one dash it does.
\<close>

lemma double_dash_web_ui:
  assumes "e ''WEB_UI'' = None" and "e ''WEB_UI_ADDR'' = None"
    and "trimmed addr" and "addr \<noteq> ''''"
  shows "(\<exists>cfg. Load e [''--web-ui-addr='' @ addr] = Loaded cfg False \<and> cfg_WebUIAddr cfg = addr \<and> \<not> cfg_WebUI cfg) \<and>
    (\<exists>cfg. Load e [''-web-ui-addr='' @ addr] = Loaded cfg False \<and> cfg_WebUIAddr cfg = addr \<and> cfg_WebUI cfg)"
proof -
  have p: "parse_one (config_flags e) (''--web-ui-addr='' @ addr) [] =
      FlagNext (AList.update ''web-ui-addr'' (FString addr) (config_flags e)) []"
    and q: "parse_one (config_flags e) (''-web-ui-addr='' @ addr) [] =
      FlagNext (AList.update ''web-ui-addr'' (FString addr) (config_flags e)) []"
    by (simp_all add: parse_one_def cut_flag_def config_flags_def flag_set_def)
  have b: "getenvBool e ''WEB_UI'' False = False" using assms(1) by (simp add: getenvBool_def os_Getenv_def)
  let ?fs = "AList.update ''web-ui-addr'' (FString addr) (config_flags e)"
  have fs: "flag_string ?fs ''web-ui-addr'' = addr" "\<not> flag_bool ?fs ''web-ui''" "\<not> flag_bool ?fs ''healthcheck''"
    by (simp_all add: flag_string_def flag_bool_def update_conv' config_flags_def b)
  have one: "\<not> flagPassed [''--web-ui-addr='' @ addr] ''web-ui-addr''"
    and two: "flagPassed [''-web-ui-addr='' @ addr] ''web-ui-addr''"
    by (simp_all add: flagPassed_iff)
  have p1: "flag_parse (config_flags e) [''--web-ui-addr='' @ addr] = FlagsOk ?fs"
    and q1: "flag_parse (config_flags e) [''-web-ui-addr='' @ addr] = FlagsOk ?fs"
    using p q by (simp_all del: append_Cons)
  show ?thesis
    using fs one two assms(2-4) TrimSpace_id [OF assms(3)]
    by (simp add: Load_def Let_def p1 q1 del: append_Cons flag_parse.simps)
qed

lemma double_dash_witness:
  "\<exists>cfg. Load Map.empty [''--web-ui-addr=0.0.0.0:80''] = Loaded cfg False \<and> \<not> cfg_WebUI cfg"
proof -
  have "trimmed ''0.0.0.0:80''" by (rule plain_trimmed) (simp add: code_def)
  then show ?thesis using double_dash_web_ui [of Map.empty "''0.0.0.0:80''"] by auto
qed

end
