(* ===== verification/Server.thy ===== *)
theory Server
  imports Stopping WebChat Config
begin

text \<open>
  \<open>internal/server\<close>: the reconnect loop \<open>Run\<close> with its accept goroutine, the wait for
  the device, the sleep between attempts and the count of rapid failures. The state is a
  record with the loop's program counter; the world (device, opening, clock, signals) shows in which
  steps are taken. During a session the broker runs as the system of \<open>BrokerSystem\<close> and its calls
  reach the hub. Nothing waits for the goroutines of a session that has ended: they run on, as an
  entry of \<open>sv_old\<close>, and the accept goroutine may still hand such a session a client. A call of a
  broker into the hub asks the radio for its number; when it finds no broker there, the process ends
  (\<open>sv_crashed\<close>).
\<close>

section \<open>The count of rapid failures\<close>

definition minRuntime :: int where "minRuntime = 3 * 1000000000"
definition maxRapidFails :: nat where "maxRapidFails = 5"

datatype run_end = EndNil | EndContext | EndTooManyFailures | EndListen

text \<open>How a session ended: the value of \<open>brokerErr\<close>.\<close>

datatype session_err = SessNil | SessCanceled | SessSerialClosed | SessOther

definition clean_end :: "session_err \<Rightarrow> bool" where
  "clean_end e \<longleftrightarrow> e = SessNil \<or> e = SessCanceled"

text \<open>The end of the loop, or the new count.\<close>

definition after_open_failure :: "nat \<Rightarrow> run_end + nat" where
  "after_open_failure rapid =
     (if maxRapidFails \<le> rapid + 1 then Inl EndTooManyFailures else Inr (rapid + 1))"

definition after_session :: "session_err \<Rightarrow> int \<Rightarrow> nat \<Rightarrow> run_end + nat" where
  "after_session err runtime rapid =
     (if clean_end err then Inl EndNil
      else if runtime < minRuntime then
        (if maxRapidFails \<le> rapid + 1 then Inl EndTooManyFailures else Inr (rapid + 1))
      else Inr 0)"

section \<open>Waiting\<close>

datatype wait_event = WaitCtxDone | WaitTick bool   \<comment> \<open>the answer of \<open>DeviceExists\<close>\<close>

datatype wait_result = WaitFound | WaitCancelled | WaitPending

fun wait_loop :: "wait_event list \<Rightarrow> wait_result" where
  "wait_loop [] = WaitPending"
| "wait_loop (WaitCtxDone # es) = WaitCancelled"
| "wait_loop (WaitTick exists # es) = (if exists then WaitFound else wait_loop es)"

definition waitForDevice :: "bool \<Rightarrow> wait_event list \<Rightarrow> wait_result" where
  "waitForDevice exists es = (if exists then WaitFound else wait_loop es)"

text \<open>Accepting with a deadline of one second that only serves to look at the context.\<close>

datatype accept_event = AcceptTimeout bool | AcceptError | AcceptConn string

datatype accept_result = AcceptedConn string | AcceptCancelled | AcceptFailed | AcceptPending

fun acceptWithContext :: "accept_event list \<Rightarrow> accept_result" where
  "acceptWithContext [] = AcceptPending"
| "acceptWithContext (AcceptTimeout cancelled # es) =
     (if cancelled then AcceptCancelled else acceptWithContext es)"
| "acceptWithContext (AcceptError # es) = AcceptFailed"
| "acceptWithContext (AcceptConn addr # es) = AcceptedConn addr"

datatype sleep_case = SleepCtxDone | SleepTimer

text \<open>True: the sleep was cut short.\<close>

definition sleepWithContext :: "sleep_case \<Rightarrow> bool" where
  "sleepWithContext c \<longleftrightarrow> c = SleepCtxDone"

definition RunHealthcheck :: "bool \<Rightarrow> nat" where
  "RunHealthcheck reachable = (if reachable then 0 else 1)"

section \<open>The loop over attempts\<close>

datatype attempt = OpenFails | Session session_err int   \<comment> \<open>with its running time\<close>

definition after_attempt :: "attempt \<Rightarrow> nat \<Rightarrow> run_end + nat" where
  "after_attempt a rapid =
     (case a of OpenFails \<Rightarrow> after_open_failure rapid | Session e t \<Rightarrow> after_session e t rapid)"

text \<open>The end of \<open>Run\<close>, or the count with which it goes on.\<close>

fun run_from :: "nat \<Rightarrow> attempt list \<Rightarrow> run_end + nat" where
  "run_from n [] = Inr n"
| "run_from n (a # as) =
     (case after_attempt a n of Inl e \<Rightarrow> Inl e | Inr m \<Rightarrow> run_from m as)"

definition rapid :: "attempt \<Rightarrow> bool" where
  "rapid a = (case a of OpenFails \<Rightarrow> True | Session e t \<Rightarrow> \<not> clean_end e \<and> t < minRuntime)"

definition stops_cleanly :: "attempt \<Rightarrow> bool" where
  "stops_cleanly a = (case a of OpenFails \<Rightarrow> False | Session e t \<Rightarrow> clean_end e)"

lemma after_attempt_eq:
  "after_attempt a n =
     (if stops_cleanly a then Inl EndNil
      else if rapid a then (if 5 \<le> n + 1 then Inl EndTooManyFailures else Inr (n + 1))
      else Inr 0)"
  by (simp add: after_attempt_def stops_cleanly_def rapid_def after_open_failure_def after_session_def
      maxRapidFails_def split: attempt.split)

text \<open>The number of rapid failures at the end of a history.\<close>

definition trailing :: "attempt list \<Rightarrow> nat" where
  "trailing as = length (takeWhile rapid (rev as))"

lemma trailing_snoc: "trailing (as @ [a]) = (if rapid a then Suc (trailing as) else 0)"
  by (simp add: trailing_def)

lemma run_from_append:
  "run_from n (as @ bs) = (case run_from n as of Inl e \<Rightarrow> Inl e | Inr m \<Rightarrow> run_from m bs)"
  by (induction as arbitrary: n) (auto split: sum.split)

definition five_rapid :: "attempt list \<Rightarrow> bool" where
  "five_rapid as \<longleftrightarrow> (\<exists>k \<le> length as. 5 \<le> trailing (take k as))"

lemma five_rapid_snoc: "five_rapid (as @ [a]) \<longleftrightarrow> five_rapid as \<or> 5 \<le> trailing (as @ [a])"
proof
  assume "five_rapid (as @ [a])"
  then obtain k where k: "k \<le> Suc (length as)" "5 \<le> trailing (take k (as @ [a]))"
    by (auto simp: five_rapid_def)
  show "five_rapid as \<or> 5 \<le> trailing (as @ [a])"
  proof (cases "k \<le> length as")
    case True
    then have "take k (as @ [a]) = take k as" by simp
    with True k show ?thesis by (auto simp: five_rapid_def)
  next
    case False
    with k(1) have "take k (as @ [a]) = as @ [a]" by simp
    with k(2) show ?thesis by simp
  qed
next
  assume "five_rapid as \<or> 5 \<le> trailing (as @ [a])"
  then show "five_rapid (as @ [a])"
  proof
    assume "five_rapid as"
    then obtain k where "k \<le> length as" "5 \<le> trailing (take k as)" by (auto simp: five_rapid_def)
    then show ?thesis unfolding five_rapid_def by (intro exI [of _ k]) simp
  next
    assume "5 \<le> trailing (as @ [a])"
    then show ?thesis unfolding five_rapid_def by (intro exI [of _ "length (as @ [a])"]) simp
  qed
qed

lemma run_from_counts:
  "list_all (\<lambda>a. \<not> stops_cleanly a) as \<Longrightarrow>
     run_from 0 as = (if five_rapid as then Inl EndTooManyFailures else Inr (trailing as))"
proof (induction as rule: rev_induct)
  case Nil
  then show ?case by (simp add: five_rapid_def trailing_def)
next
  case (snoc a as)
  have b: "trailing as < 5" if "\<not> five_rapid as"
    using that unfolding five_rapid_def by (metis linorder_not_le order_refl take_all)
  show ?case
  proof (cases "five_rapid as")
    case True
    with snoc show ?thesis by (simp add: run_from_append five_rapid_snoc)
  next
    case False
    with snoc b show ?thesis
      by (auto simp: run_from_append five_rapid_snoc after_attempt_eq trailing_snoc)
  qed
qed

section \<open>The server as a system\<close>

datatype srv_pc =
    AtWait                \<comment> \<open>\<open>waitForDevice\<close>\<close>
  | AtOpen                \<comment> \<open>\<open>DisableHUPCL\<close> and \<open>Open\<close>\<close>
  | AtServe int           \<comment> \<open>the \<open>select\<close> of a session, with its start\<close>
  | AtSleep               \<comment> \<open>\<open>sleepWithContext\<close>\<close>
  | AtEnd run_end

record server =
  sv_pc :: srv_pc
  sv_rapidFailCount :: nat
  sv_current :: "sys option"
  sv_provider :: bool          \<comment> \<open>\<open>SetRadioProvider\<close> was called\<close>
  sv_hub :: "hub option"
  sv_now :: int
  sv_ctx :: bool               \<comment> \<open>the context is cancelled\<close>
  sv_accepting :: bool         \<comment> \<open>the accept goroutine runs\<close>
  sv_grab :: "(string \<times> nat) option"   \<comment> \<open>its connection and the session it read from \<open>current\<close>\<close>
  sv_acceptErr :: bool         \<comment> \<open>its error waits in \<open>acceptErrCh\<close>\<close>
  sv_rejected :: nat
  sv_opened :: nat
  sv_closed :: nat
  sv_old :: "(nat \<times> sys) list" \<comment> \<open>the sessions that ended, by number\<close>
  sv_crashed :: bool           \<comment> \<open>a goroutine panicked\<close>
  sv_history :: "attempt list" \<comment> \<open>the attempts so far, for the statements only\<close>

definition srv_init :: "hub option \<Rightarrow> int \<Rightarrow> server" where
  "srv_init hb now =
     \<lparr>sv_pc = AtWait, sv_rapidFailCount = 0, sv_current = None, sv_provider = False, sv_hub = hb, sv_now = now, sv_ctx = False,
      sv_accepting = True, sv_grab = None, sv_acceptErr = False, sv_rejected = 0, sv_opened = 0, sv_closed = 0,
      sv_old = [], sv_crashed = False, sv_history = []\<rparr>"

definition Run_listen :: "bool \<Rightarrow> hub option \<Rightarrow> int \<Rightarrow> run_end + server" where
  "Run_listen listening hb now = (if listening then Inr (srv_init hb now) else Inl EndListen)"

text \<open>Where the loop goes after an attempt: the end, a sleep, or the next attempt at once.\<close>

definition next_attempt :: "Config \<Rightarrow> attempt \<Rightarrow> server \<Rightarrow> server" where
  "next_attempt cfg a s =
     (case after_attempt a (sv_rapidFailCount s) of
        Inl e \<Rightarrow> s\<lparr>sv_history := sv_history s @ [a], sv_pc := AtEnd e\<rparr>
      | Inr n \<Rightarrow> s\<lparr>sv_history := sv_history s @ [a], sv_rapidFailCount := n,
                  sv_pc := (if 0 < cfg_ReconnectDelay cfg then AtSleep else AtWait)\<rparr>)"

definition disconnected_status :: Status where
  "disconnected_status = zero_Status"

definition connected_status :: Status where
  "connected_status = zero_Status\<lparr>st_SerialConnected := True\<rparr>"

definition start_session ::
  "webenv \<Rightarrow> env \<Rightarrow> Config \<Rightarrow> rand_draw list \<Rightarrow> server \<Rightarrow> server" where
  "start_session W E cfg rnd s =
     (let b = New (cfg_ReadOnlyClients cfg) (sv_hub s \<noteq> None) (sv_now s) rnd;
          b1 = (if sv_hub s \<noteq> None then PublishStatus E b else b);
          hb = map_option (\<lambda>h. hub_calls W E b1 (new_calls b b1) (SetStatus (sv_now s) connected_status h)) (sv_hub s)
      in s\<lparr>sv_provider := sv_provider s \<or> sv_hub s \<noteq> None, sv_hub := hb, sv_current := Some (sys_init b1),
           sv_opened := Suc (sv_opened s), sv_pc := AtServe (sv_now s)\<rparr>)"

text \<open>
  The end of a session: no current broker, the status, then \<open>CloseAll\<close>, whose calls reach the
  hub after the status, and the serial connection closed.
\<close>

definition close_session :: "webenv \<Rightarrow> env \<Rightarrow> sys \<Rightarrow> server \<Rightarrow> server" where
  "close_session W E q s =
     (let b = s_broker q; b1 = CloseAll E b;
          hb = map_option (\<lambda>h. hub_calls W E b1 (new_calls b b1) (SetStatus (sv_now s) disconnected_status h)) (sv_hub s)
      in s\<lparr>sv_current := None, sv_hub := hb, sv_closed := Suc (sv_closed s),
           sv_old := sv_old s @ [(sv_opened s, q\<lparr>s_broker := b1\<rparr>)]\<rparr>)"

definition end_session ::
  "webenv \<Rightarrow> env \<Rightarrow> Config \<Rightarrow> session_err \<Rightarrow> int \<Rightarrow> sys \<Rightarrow> server \<Rightarrow> server" where
  "end_session W E cfg err start q s =
     next_attempt cfg (Session err (sv_now s - start)) (close_session W E q s)"

definition broker_session_err :: "broker \<Rightarrow> session_err" where
  "broker_session_err b =
     (case b_err b of
        None \<Rightarrow> SessNil
      | Some ErrSerialClosed \<Rightarrow> SessSerialClosed
      | Some (ErrContext m) \<Rightarrow> (if m = ''context canceled'' then SessCanceled else SessOther)
      | Some _ \<Rightarrow> SessOther)"

section \<open>Sessions that ended\<close>

text \<open>
  The calls of a broker into the hub, which finds the radio through the provider: the broker that is
  current at that time.
\<close>

primrec run_calls ::
  "webenv \<Rightarrow> 'b env_scheme \<Rightarrow> int \<Rightarrow> radio_ref \<Rightarrow> hub_call list \<Rightarrow> hub \<Rightarrow> hub call" where
  "run_calls W E now r [] h = Returned h"
| "run_calls W E now r (c # cs) h =
     (case hub_call_run W E now r c h of
        Returned h' \<Rightarrow> run_calls W E now r cs h'
      | Panicked \<Rightarrow> Panicked
      | Drawing \<Rightarrow> Drawing)"

definition current_radio :: "server \<Rightarrow> radio_ref" where
  "current_radio s = radio (sv_provider s) (map_option s_broker (sv_current s))"

definition set_old :: "nat \<Rightarrow> sys \<Rightarrow> (nat \<times> sys) list \<Rightarrow> (nat \<times> sys) list" where
  "set_old n q old = map (\<lambda>(m, p). if m = n then (m, q) else (m, p)) old"

definition old_session :: "webenv \<Rightarrow> env \<Rightarrow> nat \<Rightarrow> sys \<Rightarrow> sys \<Rightarrow> server \<Rightarrow> server" where
  "old_session W E n q q' s =
     (let s1 = s\<lparr>sv_old := set_old n q' (sv_old s)\<rparr>; b = s_broker q' in
      case sv_hub s of
        None \<Rightarrow> s1
      | Some h \<Rightarrow>
          (case run_calls W E (b_now b) (current_radio s) (new_calls (s_broker q) b) h of
             Returned h' \<Rightarrow> s1\<lparr>sv_hub := Some h'\<rparr>
           | _ \<Rightarrow> s1\<lparr>sv_crashed := True\<rparr>))"

section \<open>The accept goroutine\<close>

text \<open>It reads the current broker, and adds the client in a step of its own.\<close>

definition accept_read :: "string \<Rightarrow> server \<Rightarrow> server" where
  "accept_read addr s =
     (if sv_current s = None then s\<lparr>sv_rejected := Suc (sv_rejected s)\<rparr>
      else s\<lparr>sv_grab := Some (addr, sv_opened s)\<rparr>)"

definition accept_client :: "webenv \<Rightarrow> env \<Rightarrow> string \<Rightarrow> sys \<Rightarrow> server \<Rightarrow> server" where
  "accept_client W E addr q s =
     (let b = s_broker q; b1 = snd (AddClient E addr b) in
      s\<lparr>sv_current := Some (q\<lparr>s_broker := b1\<rparr>),
        sv_hub := map_option (hub_calls W E b1 (new_calls b b1)) (sv_hub s)\<rparr>)"

definition accept_add :: "webenv \<Rightarrow> env \<Rightarrow> string \<Rightarrow> nat \<Rightarrow> server \<Rightarrow> server" where
  "accept_add W E addr n s0 =
     (let s = s0\<lparr>sv_grab := None\<rparr> in
      case (if n = sv_opened s then sv_current s else None) of
        Some q \<Rightarrow> accept_client W E addr q s
      | None \<Rightarrow>
          (case map_of (sv_old s) n of
             Some q \<Rightarrow> old_session W E n q (q\<lparr>s_broker := snd (AddClient E addr (s_broker q))\<rparr>) s
           | None \<Rightarrow> s))"

text \<open>
  The steps of the broker other than a new client, which comes from the accept goroutine,
  are those that leave the number of clients ever made as it is. The context is the one the main
  program cancels on a signal; it is the same for the loop, the accept goroutine and every broker,
  so whatever waits for it waits for \<open>Signal\<close>.
\<close>

inductive srv_step :: "webenv \<Rightarrow> env \<Rightarrow> Config \<Rightarrow> server \<Rightarrow> server \<Rightarrow> bool"
  for W :: webenv and E :: env and cfg :: Config where
  WaitFoundStep: "sv_pc s = AtWait \<Longrightarrow> \<not> sv_crashed s \<Longrightarrow> srv_step W E cfg s (s\<lparr>sv_pc := AtOpen\<rparr>)"
| Signal: "\<not> sv_crashed s \<Longrightarrow> srv_step W E cfg s (s\<lparr>sv_ctx := True\<rparr>)"
| WaitCancel: "sv_pc s = AtWait \<Longrightarrow> sv_ctx s \<Longrightarrow> \<not> sv_crashed s \<Longrightarrow> srv_step W E cfg s (s\<lparr>sv_pc := AtEnd EndContext\<rparr>)"
| OpenFail: "sv_pc s = AtOpen \<Longrightarrow> \<not> sv_crashed s \<Longrightarrow>
    srv_step W E cfg s (next_attempt cfg OpenFails s)"
| OpenOk: "sv_pc s = AtOpen \<Longrightarrow> \<not> sv_crashed s \<Longrightarrow> srv_step W E cfg s (start_session W E cfg rnd s)"
| BrokerStep: "sv_pc s = AtServe t \<Longrightarrow> sv_current s = Some q \<Longrightarrow> sys_step E q q' \<Longrightarrow>
    b_next (s_broker q') = b_next (s_broker q) \<Longrightarrow> (woken_by_ctx q q' \<longrightarrow> sv_ctx s) \<Longrightarrow> \<not> sv_crashed s \<Longrightarrow>
    srv_step W E cfg s (s\<lparr>sv_current := Some q',
      sv_hub := map_option (hub_calls W E (s_broker q') (new_calls (s_broker q) (s_broker q'))) (sv_hub s)\<rparr>)"
| OldStep: "(n, q) \<in> set (sv_old s) \<Longrightarrow> sys_step E q q' \<Longrightarrow>
    b_next (s_broker q') = b_next (s_broker q) \<Longrightarrow> (woken_by_ctx q q' \<longrightarrow> sv_ctx s) \<Longrightarrow> \<not> sv_crashed s \<Longrightarrow>
    srv_step W E cfg s (old_session W E n q q' s)"
| AcceptRead: "sv_accepting s \<Longrightarrow> sv_grab s = None \<Longrightarrow> \<not> sv_crashed s \<Longrightarrow> srv_step W E cfg s (accept_read addr s)"
| AcceptAdd: "sv_grab s = Some (addr, n) \<Longrightarrow> \<not> sv_crashed s \<Longrightarrow> srv_step W E cfg s (accept_add W E addr n s)"
| AcceptErr: "sv_accepting s \<Longrightarrow> sv_grab s = None \<Longrightarrow> \<not> sv_crashed s \<Longrightarrow>
    srv_step W E cfg s (s\<lparr>sv_accepting := False, sv_acceptErr := True\<rparr>)"
| AcceptQuit: "sv_accepting s \<Longrightarrow> sv_grab s = None \<Longrightarrow> sv_ctx s \<Longrightarrow> \<not> sv_crashed s \<Longrightarrow>
    srv_step W E cfg s (s\<lparr>sv_accepting := False\<rparr>)"
| EndByContext: "sv_pc s = AtServe t \<Longrightarrow> sv_current s = Some q \<Longrightarrow> sv_ctx s \<Longrightarrow> \<not> sv_crashed s \<Longrightarrow>
    srv_step W E cfg s (end_session W E cfg SessCanceled t q s)"
| EndByAccept: "sv_pc s = AtServe t \<Longrightarrow> sv_current s = Some q \<Longrightarrow> sv_acceptErr s \<Longrightarrow> \<not> sv_crashed s \<Longrightarrow>
    srv_step W E cfg s (end_session W E cfg SessOther t q (s\<lparr>sv_acceptErr := False\<rparr>))"
| EndByBroker: "sv_pc s = AtServe t \<Longrightarrow> sv_current s = Some q \<Longrightarrow> \<not> s_run q \<Longrightarrow> \<not> sv_crashed s \<Longrightarrow>
    srv_step W E cfg s (end_session W E cfg (broker_session_err (s_broker q)) t q s)"
| SleepOver: "sv_pc s = AtSleep \<Longrightarrow> \<not> sv_crashed s \<Longrightarrow> srv_step W E cfg s (s\<lparr>sv_pc := AtWait\<rparr>)"
| SleepCancel: "sv_pc s = AtSleep \<Longrightarrow> sv_ctx s \<Longrightarrow> \<not> sv_crashed s \<Longrightarrow> srv_step W E cfg s (s\<lparr>sv_pc := AtEnd EndNil\<rparr>)"
| Clock: "0 \<le> d \<Longrightarrow> \<not> sv_crashed s \<Longrightarrow> srv_step W E cfg s (s\<lparr>sv_now := sv_now s + d\<rparr>)"

lemma run_calls_ok: "webenv_ok W \<Longrightarrow> run_calls W E now r cs h = Returned h' \<Longrightarrow> hub_ok h \<Longrightarrow> hub_ok h'"
proof (induction cs arbitrary: h)
  case (Cons c cs)
  then obtain h1 where r: "hub_call_run W E now r c h = Returned h1" "run_calls W E now r cs h1 = Returned h'"
    by (auto split: call.splits)
  then have "hub_ok h1" using Cons.prems(1,3) by (auto simp: hub_call_run_def hub_ok_apply split: if_splits call.splits)
  with r Cons show ?case by simp
qed simp

lemma old_session_fields [simp]:
  "sv_pc (old_session W E n q q' s) = sv_pc s" "sv_current (old_session W E n q q' s) = sv_current s"
  "sv_rapidFailCount (old_session W E n q q' s) = sv_rapidFailCount s" "sv_now (old_session W E n q q' s) = sv_now s"
  "sv_opened (old_session W E n q q' s) = sv_opened s" "sv_closed (old_session W E n q q' s) = sv_closed s"
  "sv_accepting (old_session W E n q q' s) = sv_accepting s" "sv_acceptErr (old_session W E n q q' s) = sv_acceptErr s"
  "sv_history (old_session W E n q q' s) = sv_history s" "sv_grab (old_session W E n q q' s) = sv_grab s"
  "sv_rejected (old_session W E n q q' s) = sv_rejected s" "sv_provider (old_session W E n q q' s) = sv_provider s"
  "sv_ctx (old_session W E n q q' s) = sv_ctx s"
  "sv_old (old_session W E n q q' s) = set_old n q' (sv_old s)"
  by (simp_all add: old_session_def Let_def split: option.split call.split)

lemma old_session_hub:
  assumes "webenv_ok W" and "\<forall>h. sv_hub s = Some h \<longrightarrow> hub_ok h"
  shows "\<forall>h. sv_hub (old_session W E n q q' s) = Some h \<longrightarrow> hub_ok h"
  using assms by (auto simp: old_session_def Let_def dest: run_calls_ok split: option.split call.split)


section \<open>The invariant\<close>

definition serving :: "server \<Rightarrow> bool" where
  "serving s \<longleftrightarrow> (\<exists>t. sv_pc s = AtServe t \<and> t \<le> sv_now s)"

text \<open>The loop's state against the attempts made.\<close>

definition history_ok :: "srv_pc \<Rightarrow> nat \<Rightarrow> attempt list \<Rightarrow> bool" where
  "history_ok pc n as =
     (if pc = AtEnd EndTooManyFailures then run_from 0 as = Inl EndTooManyFailures
      else if pc = AtEnd EndNil \<or> pc = AtEnd EndContext then run_from 0 as = Inl EndNil \<or> run_from 0 as = Inr n
      else run_from 0 as = Inr n)"

definition srv_inv :: "server \<Rightarrow> bool" where
  "srv_inv s \<longleftrightarrow>
     sv_rapidFailCount s < maxRapidFails \<and>
     (sv_current s \<noteq> None \<longleftrightarrow> serving s) \<and> ((\<exists>t. sv_pc s = AtServe t) \<longrightarrow> serving s) \<and>
     (\<forall>q. sv_current s = Some q \<longrightarrow> sys_inv q) \<and>
     (\<forall>h. sv_hub s = Some h \<longrightarrow> hub_ok h) \<and>
     sv_opened s = sv_closed s + (if serving s then 1 else 0) \<and>
     (sv_acceptErr s \<longrightarrow> \<not> sv_accepting s) \<and> (sv_grab s \<noteq> None \<longrightarrow> sv_accepting s) \<and>
     history_ok (sv_pc s) (sv_rapidFailCount s) (sv_history s)"

lemma hub_ok_calls: "webenv_ok W \<Longrightarrow> hub_ok h \<Longrightarrow> hub_ok (hub_calls W E b cs h)"
  unfolding hub_calls_def by (induction cs arbitrary: h) (simp_all add: hub_ok_apply)

lemma after_small: "after_attempt a n = Inr m \<Longrightarrow> m < maxRapidFails"
  by (auto simp: after_attempt_eq maxRapidFails_def split: if_splits)

lemma after_ends: "after_attempt a n = Inl e \<Longrightarrow> e = EndNil \<or> e = EndTooManyFailures"
  by (auto simp: after_attempt_eq split: if_splits)

lemma history_next:
  "run_from 0 as = Inr n \<Longrightarrow> after_attempt a n = Inl e \<Longrightarrow> history_ok (AtEnd e) k (as @ [a])"
  "run_from 0 as = Inr n \<Longrightarrow> after_attempt a n = Inr m \<Longrightarrow> pc = AtSleep \<or> pc = AtWait \<Longrightarrow>
     history_ok pc m (as @ [a])"
  by (auto simp: history_ok_def run_from_append dest: after_ends)

lemma inv_next_attempt:
  assumes "sv_rapidFailCount s < maxRapidFails"
    and "sv_current s = None" and "\<forall>h. sv_hub s = Some h \<longrightarrow> hub_ok h"
    and "sv_opened s = sv_closed s" and "sv_acceptErr s \<longrightarrow> \<not> sv_accepting s"
    and "sv_grab s \<noteq> None \<longrightarrow> sv_accepting s" and "run_from 0 (sv_history s) = Inr (sv_rapidFailCount s)"
  shows "srv_inv (next_attempt cfg a s)"
  using assms by (auto simp: srv_inv_def next_attempt_def serving_def history_next
      dest: after_small split: sum.split)

lemma inv_end_session:
  assumes "srv_inv s" and "webenv_ok W" and "sv_current s = Some q"
  shows "srv_inv (end_session W E cfg err t q s)"
proof -
  have h: "hub_ok (hub_calls W E b cs (SetStatus now st h))" if "sv_hub s = Some h" for b cs now st h
    using assms(1,2) that by (intro hub_ok_calls hub_ok_SetStatus) (simp_all add: srv_inv_def)
  have "serving s" using assms(1,3) by (simp add: srv_inv_def)
  with assms(1) h show ?thesis
    unfolding end_session_def
    by (intro inv_next_attempt) (auto simp: close_session_def Let_def srv_inv_def serving_def history_ok_def)
qed

lemma inv_start_session:
  assumes "srv_inv s" and "webenv_ok W" and "env_ok E" and "sv_pc s = AtOpen"
  shows "srv_inv (start_session W E cfg rnd s)"
proof -
  have h: "hub_ok (hub_calls W E b cs (SetStatus now st h))" if "sv_hub s = Some h" for b cs now st h
    using assms(1,2) that by (intro hub_ok_calls hub_ok_SetStatus) (simp_all add: srv_inv_def)
  let ?b = "New (cfg_ReadOnlyClients cfg) (sv_hub s \<noteq> None) (sv_now s) rnd"
  have i: "sys_inv (sys_init ?b)" by (rule broker_sys.inv_init) (auto simp: initial_def)
  have "sys_step E (sys_init ?b) ((sys_init ?b)\<lparr>s_broker := PublishStatus E (s_broker (sys_init ?b))\<rparr>)"
    by (rule Publish)
  from sys_inv_step [OF i this assms(3)] have p: "sys_inv (sys_init (PublishStatus E ?b))"
    by (simp add: sys_init_def)
  have "\<not> serving s" using assms(4) by (simp add: serving_def)
  with assms(1,4) h i p show ?thesis
    by (auto simp: start_session_def Let_def srv_inv_def serving_def history_ok_def)
qed

lemma serving_frame [simp]:
  "serving (s\<lparr>sv_current := c\<rparr>) = serving s" "serving (s\<lparr>sv_hub := hb\<rparr>) = serving s"
  "serving (s\<lparr>sv_rejected := n\<rparr>) = serving s" "serving (s\<lparr>sv_accepting := a\<rparr>) = serving s"
  "serving (s\<lparr>sv_grab := g\<rparr>) = serving s" "serving (s\<lparr>sv_acceptErr := a\<rparr>) = serving s" "serving (s\<lparr>sv_closed := n\<rparr>) = serving s"
  by (simp_all add: serving_def)

lemma inv_session_update:
  assumes "srv_inv s" and "sv_current s = Some q" and "sys_inv q'"
    and "\<And>h. hub_ok h \<Longrightarrow> hub_ok (f h)"
  shows "srv_inv (s\<lparr>sv_current := Some q', sv_hub := map_option f (sv_hub s)\<rparr>)"
proof -
  have "serving s" using assms(1,2) by (simp add: srv_inv_def)
  with assms show ?thesis by (simp add: srv_inv_def) (metis (no_types, lifting))
qed

lemma inv_old_session:
  assumes "srv_inv s" and "webenv_ok W"
  shows "srv_inv (old_session W E n q q' s)"
proof -
  have "\<forall>h. sv_hub (old_session W E n q q' s) = Some h \<longrightarrow> hub_ok h"
    using assms by (intro old_session_hub) (simp_all add: srv_inv_def)
  with assms(1) show ?thesis unfolding srv_inv_def serving_def old_session_fields
    by (elim conjE) (intro conjI; assumption)
qed

lemma inv_accept_client:
  assumes "srv_inv s" and "sv_current s = Some q" and "webenv_ok W" and "env_ok E"
  shows "srv_inv (accept_client W E addr q s)"
proof -
  have "sys_inv (q\<lparr>s_broker := snd (AddClient E addr (s_broker q))\<rparr>)"
    using assms(1,2,4) by (intro sys_inv_step [OF _ Accept]) (simp_all add: srv_inv_def)
  with assms show ?thesis
    by (simp add: accept_client_def Let_def inv_session_update hub_ok_calls)
qed

lemma inv_accept_add:
  assumes "srv_inv s" and "webenv_ok W" and "env_ok E"
  shows "srv_inv (accept_add W E addr n s)"
proof -
  have i: "srv_inv (s\<lparr>sv_grab := None\<rparr>)" using assms(1) by (simp add: srv_inv_def)
  show ?thesis
  proof (cases "if n = sv_opened s then sv_current s else None")
    case (Some q)
    then have q: "n = sv_opened s" "sv_current (s\<lparr>sv_grab := None\<rparr>) = Some q" by (simp_all split: if_splits)
    from inv_accept_client [OF i q(2) assms(2,3)] q show ?thesis by (simp add: accept_add_def Let_def)
  next
    case None
    with i inv_old_session [OF i assms(2)] show ?thesis
      by (cases "map_of (sv_old s) n"; cases "n = sv_opened s") (simp_all add: accept_add_def Let_def)
  qed
qed

lemma inv_srv_step:
  assumes "srv_inv s" and "srv_step W E cfg s s'" and "webenv_ok W" and "env_ok E"
  shows "srv_inv s'"
  using assms(2)
proof cases
  case OpenFail
  have "srv_inv (next_attempt cfg OpenFails s)"
    using assms(1) OpenFail
    by (intro inv_next_attempt) (auto simp: srv_inv_def serving_def history_ok_def)
  with OpenFail show ?thesis by simp
next
  case (OpenOk rnd)
  with assms show ?thesis by (simp add: inv_start_session)
next
  case (BrokerStep t q q')
  have "sys_inv q" using assms(1) BrokerStep(3) by (simp add: srv_inv_def)
  then have "sys_inv q'" using BrokerStep(4) assms(4) by (rule sys_inv_step)
  with assms(1) BrokerStep(3) have "srv_inv (s\<lparr>sv_current := Some q', sv_hub := map_option f (sv_hub s)\<rparr>)"
    if "\<And>h. hub_ok h \<Longrightarrow> hub_ok (f h)" for f
    using that by (rule inv_session_update)
  with BrokerStep(1) show ?thesis by (simp add: hub_ok_calls assms(3))
next
  case (AcceptAdd addr n)
  with assms show ?thesis by (simp add: inv_accept_add)
next
  case (OldStep n q q')
  with assms show ?thesis by (simp add: inv_old_session)
next
  case (AcceptRead addr)
  with assms(1) show ?thesis by (auto simp: accept_read_def srv_inv_def serving_def)
next
  case (EndByAccept t q)
  have "srv_inv (s\<lparr>sv_acceptErr := False\<rparr>)" using assms(1) by (simp add: srv_inv_def serving_def)
  with assms EndByAccept show ?thesis by (simp add: inv_end_session)
next
  case (EndByContext t q)
  with assms show ?thesis by (simp add: inv_end_session)
next
  case (EndByBroker t q)
  with assms show ?thesis by (simp add: inv_end_session)
next
  case (Clock d)
  with assms(1) show ?thesis by (auto simp: srv_inv_def serving_def)
qed (use assms(1) in \<open>auto simp: srv_inv_def serving_def history_ok_def\<close>)

interpretation server_sys: invariant_system
  "\<lambda>s. \<exists>hb now. s = srv_init hb now \<and> (\<forall>h. hb = Some h \<longrightarrow> hub_ok h)"
  "\<lambda>s s'. webenv_ok W \<and> env_ok E \<and> srv_step W E cfg s s'" srv_inv for W E cfg
proof unfold_locales
  fix s
  assume "\<exists>hb now. s = srv_init hb now \<and> (\<forall>h. hb = Some h \<longrightarrow> hub_ok h)"
  then show "srv_inv s" by (auto simp: srv_init_def srv_inv_def serving_def maxRapidFails_def history_ok_def)
next
  fix s t
  assume "srv_inv s" and "webenv_ok W \<and> env_ok E \<and> srv_step W E cfg s t"
  then show "srv_inv t" by (auto elim: inv_srv_step)
qed

section \<open>What a reader of the loop relies on\<close>

lemma reach_srv_inv:
  assumes "webenv_ok W" and "env_ok E" and "\<forall>h. hb = Some h \<longrightarrow> hub_ok h"
    and "(srv_step W E cfg)\<^sup>*\<^sup>* (srv_init hb now) s"
  shows "srv_inv s"
proof -
  have "(\<lambda>s s'. webenv_ok W \<and> env_ok E \<and> srv_step W E cfg s s')\<^sup>*\<^sup>* (srv_init hb now) s"
    using assms(1,2,4) by simp
  with assms(3) show ?thesis by (intro server_sys.inv_reachable [of "srv_init hb now" W E cfg s]) auto
qed

lemma run_from_0:
  "run_from 0 as =
     (let bs = takeWhile (\<lambda>a. \<not> stops_cleanly a) as in
      if five_rapid bs then Inl EndTooManyFailures
      else if list_all (\<lambda>a. \<not> stops_cleanly a) as then Inr (trailing as) else Inl EndNil)"
proof -
  let ?P = "\<lambda>a. \<not> stops_cleanly a"
  let ?bs = "takeWhile ?P as" and ?cs = "dropWhile ?P as"
  have bs: "run_from 0 ?bs = (if five_rapid ?bs then Inl EndTooManyFailures else Inr (trailing ?bs))"
    by (rule run_from_counts) (auto simp: list_all_iff dest: set_takeWhileD)
  have "run_from 0 (?bs @ ?cs) = (case run_from 0 ?bs of Inl e \<Rightarrow> Inl e | Inr m \<Rightarrow> run_from m ?cs)"
    by (rule run_from_append)
  then have eq: "run_from 0 as = (case run_from 0 ?bs of Inl e \<Rightarrow> Inl e | Inr m \<Rightarrow> run_from m ?cs)"
    by (simp only: takeWhile_dropWhile_id)
  show ?thesis
  proof (cases "list_all ?P as")
    case True
    then have "?bs = as" by (simp add: list_all_iff)
    with bs True show ?thesis by (simp only: Let_def if_True)
  next
    case False
    then obtain c cs where c: "?cs = c # cs" by (cases ?cs) (auto simp: list_all_iff dropWhile_eq_Nil_conv)
    then have "stops_cleanly c" by (metis hd_dropWhile list.distinct(1) list.sel(1))
    with eq bs c False show ?thesis by (simp add: Let_def after_attempt_eq)
  qed
qed


definition sample_config :: Config where
  "sample_config = \<lparr>cfg_Device = ''/dev/ttyACM0'', cfg_Baud = 115200, cfg_TCPPort = 4403, cfg_ReconnectDelay = 0,
     cfg_ServiceName = ''mesh'', cfg_MDNSEnabled = False, cfg_ReadOnlyClients = False, cfg_Debug = False,
     cfg_WebUI = True, cfg_WebUIAddr = '':8080''\<rparr>"

lemma sample_session:
  "(srv_step W E cfg)\<^sup>*\<^sup>* (srv_init hb now) (start_session W E cfg rnd ((srv_init hb now)\<lparr>sv_pc := AtOpen\<rparr>))"
proof -
  have "srv_step W E cfg (srv_init hb now) ((srv_init hb now)\<lparr>sv_pc := AtOpen\<rparr>)"
    by (rule WaitFoundStep) (simp_all add: srv_init_def)
  moreover have "srv_step W E cfg ((srv_init hb now)\<lparr>sv_pc := AtOpen\<rparr>)
      (start_session W E cfg rnd ((srv_init hb now)\<lparr>sv_pc := AtOpen\<rparr>))"
    by (rule OpenOk) (simp_all add: srv_init_def)
  ultimately show ?thesis by (meson converse_rtranclp_into_rtranclp r_into_rtranclp)
qed


text \<open>
  C9: the server gives up exactly after five rapid failures in a row. In every reachable state the
  loop has ended with that error if and only if, before any clean stop, five attempts in a row failed
  rapidly (the device could not be opened, or the session failed in less than three seconds);
  while it runs, no attempt stopped cleanly and its count is the number of rapid failures since
  the last longer session.
\<close>

theorem server_gives_up:
  assumes "webenv_ok W" and "env_ok E" and "\<forall>h. hb = Some h \<longrightarrow> hub_ok h"
    and "(srv_step W E cfg)\<^sup>*\<^sup>* (srv_init hb now) s"
  shows "(sv_pc s = AtEnd EndTooManyFailures \<longleftrightarrow>
        five_rapid (takeWhile (\<lambda>a. \<not> stops_cleanly a) (sv_history s))) \<and>
    ((\<forall>e. sv_pc s \<noteq> AtEnd e) \<longrightarrow>
       list_all (\<lambda>a. \<not> stops_cleanly a) (sv_history s) \<and> sv_rapidFailCount s = trailing (sv_history s))"
proof -
  have "history_ok (sv_pc s) (sv_rapidFailCount s) (sv_history s)"
    using reach_srv_inv [OF assms] by (simp add: srv_inv_def)
  then show ?thesis
    by (auto simp: history_ok_def run_from_0 Let_def split: if_splits)
qed

lemma sample_failures:
  assumes "n < 5"
  shows "(srv_step W E sample_config)\<^sup>*\<^sup>* (srv_init None 0)
    ((srv_init None 0)\<lparr>sv_rapidFailCount := n, sv_history := replicate n OpenFails, sv_pc := AtOpen\<rparr>)"
  using assms
proof (induction n)
  case 0
  have "srv_step W E sample_config (srv_init None 0) ((srv_init None 0)\<lparr>sv_pc := AtOpen\<rparr>)"
    by (rule WaitFoundStep) (simp_all add: srv_init_def)
  then show ?case by (simp add: srv_init_def r_into_rtranclp)
next
  case (Suc n)
  let ?s = "\<lambda>n pc. (srv_init None 0)\<lparr>sv_rapidFailCount := n, sv_history := replicate n OpenFails, sv_pc := pc\<rparr>"
  have "next_attempt sample_config OpenFails (?s n AtOpen) = ?s (Suc n) AtWait"
    using Suc.prems by (simp add: next_attempt_def after_attempt_def after_open_failure_def maxRapidFails_def
        sample_config_def srv_init_def replicate_append_same)
  moreover have "srv_step W E sample_config (?s n AtOpen) (next_attempt sample_config OpenFails (?s n AtOpen))"
    by (rule OpenFail) (simp_all add: srv_init_def)
  moreover have "srv_step W E sample_config (?s (Suc n) AtWait) ((?s (Suc n) AtWait)\<lparr>sv_pc := AtOpen\<rparr>)"
    by (rule WaitFoundStep) (simp_all add: srv_init_def)
  ultimately show ?case using Suc by (simp add: srv_init_def)
qed

theorem server_gives_up_witness:
  "\<exists>s. (srv_step sample_web sample_env sample_config)\<^sup>*\<^sup>* (srv_init None 0) s \<and>
     sv_pc s = AtEnd EndTooManyFailures \<and> sv_history s = replicate 5 OpenFails \<and> five_rapid (replicate 5 OpenFails)"
proof -
  let ?s = "(srv_init None 0)\<lparr>sv_rapidFailCount := 4, sv_history := replicate 4 OpenFails, sv_pc := AtOpen\<rparr>"
  let ?t = "next_attempt sample_config OpenFails ?s"
  have "srv_step sample_web sample_env sample_config ?s ?t" by (rule OpenFail) (simp_all add: srv_init_def)
  with sample_failures [of 4 sample_web sample_env]
  have r: "(srv_step sample_web sample_env sample_config)\<^sup>*\<^sup>* (srv_init None 0) ?t" by simp
  have t: "sv_pc ?t = AtEnd EndTooManyFailures" "sv_history ?t = replicate 5 OpenFails"
    by (simp_all add: next_attempt_def after_attempt_def after_open_failure_def maxRapidFails_def
        replicate_append_same [symmetric] numeral_eq_Suc)
  with server_gives_up [OF webenv_ok_sample env_ok_sample _ r]
  have "five_rapid (replicate 5 OpenFails)" by (simp add: stops_cleanly_def)
  with r t show ?thesis by blast
qed

section \<open>Delivery across the whole program\<close>

lemma next_attempt_fields [simp]:
  "sv_current (next_attempt cfg a s) = sv_current s" "sv_opened (next_attempt cfg a s) = sv_opened s"
  "sv_ctx (next_attempt cfg a s) = sv_ctx s" "sv_accepting (next_attempt cfg a s) = sv_accepting s" "sv_rejected (next_attempt cfg a s) = sv_rejected s"
  by (simp_all add: next_attempt_def split: sum.split)

lemma session_end_fields [simp]:
  "sv_current (end_session W E cfg err t q s) = None" "sv_opened (end_session W E cfg err t q s) = sv_opened s"
  "sv_accepting (end_session W E cfg err t q s) = sv_accepting s" "sv_rejected (end_session W E cfg err t q s) = sv_rejected s"
  "sv_ctx (end_session W E cfg err t q s) = sv_ctx s" "sv_ctx (start_session W E cfg rnd s) = sv_ctx s"
  "sv_opened (start_session W E cfg rnd s) = Suc (sv_opened s)"
  "sv_accepting (start_session W E cfg rnd s) = sv_accepting s" "sv_rejected (start_session W E cfg rnd s) = sv_rejected s"
  by (simp_all add: end_session_def close_session_def start_session_def Let_def)

text \<open>A step either opens a new session, leaves the running one alone or ends it, or is a step of its broker.\<close>

lemma accept_add_fields:
  "sv_accepting (accept_add W E addr n s) = sv_accepting s" "sv_rejected (accept_add W E addr n s) = sv_rejected s"
  "sv_opened (accept_add W E addr n s) = sv_opened s"
  by (simp_all add: accept_add_def accept_client_def Let_def split: option.split)

lemma accept_add_current:
  "sv_current (accept_add W E addr n s) =
     (if n = sv_opened s
      then map_option (\<lambda>q. q\<lparr>s_broker := snd (AddClient E addr (s_broker q))\<rparr>) (sv_current s) else sv_current s)"
  by (simp add: accept_add_def accept_client_def Let_def split: option.split)

lemma srv_step_session:
  assumes "srv_step W E cfg s t"
  shows "sv_opened t = Suc (sv_opened s) \<or>
    sv_opened t = sv_opened s \<and>
      (sv_current t = None \<or> sv_current t = sv_current s \<or>
       (\<exists>q q'. sv_current s = Some q \<and> sv_current t = Some q' \<and> sys_step E q q'))"
  using assms
proof cases
  case (AcceptAdd addr n)
  have "sys_step E q (q\<lparr>s_broker := snd (AddClient E addr (s_broker q))\<rparr>)" for q by (rule Accept)
  then show ?thesis using AcceptAdd(1) by (auto simp: accept_add_fields accept_add_current)
next
  case (AcceptRead addr)
  then show ?thesis by (simp add: accept_read_def)
next
  case (BrokerStep t' q q')
  from BrokerStep(1,3,4) show ?thesis by auto
qed simp_all

lemma same_session:
  assumes "(srv_step W E cfg)\<^sup>*\<^sup>* s t" and "sv_current s = Some q"
  shows "sv_opened s \<le> sv_opened t \<and>
    (\<forall>q'. sv_opened t = sv_opened s \<and> sv_current t = Some q' \<longrightarrow> (sys_step E)\<^sup>*\<^sup>* q q')"
  using assms(1)
proof (induction rule: rtranclp_induct)
  case base
  with assms(2) show ?case by simp
next
  case (step t u)
  from srv_step_session [OF step.hyps(2)] step.IH show ?case
    by (auto intro: rtranclp.rtrancl_into_rtrancl)
qed

text \<open>
  C13: in-order delivery holds for the whole program. Take any two moments of a run of the server loop
  with the same session, with any connects, disconnects, web UI calls, accept
  errors and time in between: what a client known at the first moment had
  received and had waiting is a prefix of what it has received and has waiting at the second, as long as
  its write loop is alive, and its connection carries exactly the frames delivered.
\<close>

theorem session_delivery:
  assumes "webenv_ok W" and "env_ok E" and "\<forall>h. hb = Some h \<longrightarrow> hub_ok h"
    and "(srv_step W E cfg)\<^sup>*\<^sup>* (srv_init hb now) s" and "(srv_step W E cfg)\<^sup>*\<^sup>* s t"
    and "sv_current s = Some q" and "sv_current t = Some q'" and "sv_opened t = sv_opened s"
    and "live q cl" and "s_writer q' cl"
  shows "prefix (s_delivered q cl @ queue_of (s_broker q) cl) (s_delivered q' cl @ queue_of (s_broker q') cl) \<and>
    s_wire q' cl = concat (map encode_frame (s_delivered q' cl))"
proof -
  have r: "(sys_step E)\<^sup>*\<^sup>* q q'" using same_session [OF assms(5,6)] assms(7,8) by simp
  have "(srv_step W E cfg)\<^sup>*\<^sup>* (srv_init hb now) t" using assms(4,5) by simp
  with assms(1-3) have "srv_inv t" by (rule reach_srv_inv)
  with assms(7) have "sys_inv q'" by (simp add: srv_inv_def)
  then show ?thesis using run_streams [OF r assms(9)] assms(10) by (simp add: sys_inv_def stream_def)
qed

theorem session_delivery_witness:
  "\<exists>s t q q'. (srv_step sample_web sample_env sample_config)\<^sup>*\<^sup>* (srv_init None 0) s \<and>
     (srv_step sample_web sample_env sample_config)\<^sup>*\<^sup>* s t \<and> sv_current s = Some q \<and> sv_current t = Some q' \<and>
     live q 0 \<and> prefix (s_delivered q 0 @ queue_of (s_broker q) 0) (s_delivered q' 0 @ queue_of (s_broker q') 0)"
proof -
  let ?R = "srv_step sample_web sample_env sample_config"
  let ?o = "start_session sample_web sample_env sample_config [] ((srv_init None 0)\<lparr>sv_pc := AtOpen\<rparr>)"
  let ?g = "accept_read ''a'' ?o"
  let ?s = "accept_add sample_web sample_env ''a'' 1 ?g"
  let ?t = "?s\<lparr>sv_now := sv_now ?s + 1\<rparr>"
  have o: "?R\<^sup>*\<^sup>* (srv_init None 0) ?o" by (rule sample_session)
  have 0: "?R ?o ?g" by (rule AcceptRead) (simp_all add: srv_init_def start_session_def Let_def)
  have 1: "?R ?g ?s" by (rule AcceptAdd) (simp_all add: srv_init_def start_session_def Let_def accept_read_def)
  have 2: "?R ?s ?t"
    by (rule Clock) (simp_all add: accept_add_def accept_client_def srv_init_def start_session_def Let_def accept_read_def)
  from o 0 1 have s: "?R\<^sup>*\<^sup>* (srv_init None 0) ?s" by simp
  from 2 have t: "?R\<^sup>*\<^sup>* ?s ?t" by simp
  obtain q where q: "sv_current ?s = Some q" "live q 0" "s_writer q 0"
    by (auto simp: accept_add_current accept_read_def start_session_def srv_init_def Let_def sys_init_def AddClient_def New_def)
  from session_delivery [OF webenv_ok_sample env_ok_sample _ s t q(1) _ _ q(2)] q
  have "prefix (s_delivered q 0 @ queue_of (s_broker q) 0) (s_delivered q 0 @ queue_of (s_broker q) 0)" by simp
  moreover have "sv_current ?t = Some q" using q(1) by simp
  ultimately show ?thesis using s t q by blast
qed

section \<open>What goes wrong\<close>

lemma accept_goroutine_never_restarts:
  assumes "(srv_step W E cfg)\<^sup>*\<^sup>* s t" and "\<not> sv_accepting s"
  shows "\<not> sv_accepting t \<and> sv_rejected t = sv_rejected s"
  using assms
proof (induction rule: rtranclp_induct)
  case (step t u)
  from step.hyps(2) step.IH [OF step.prems] show ?case
    by cases (simp_all add: accept_add_fields)
qed simp

text \<open>The status the broker publishes always says that the serial link is up.\<close>

lemma remove_each_calls:
  "\<exists>sts. b_hub (remove_each E cls b) = b_hub b @ map HubStatus sts \<and> list_all st_SerialConnected sts \<and>
     (b_observability b \<and> set cls \<inter> set (b_clients b) \<noteq> {} \<longrightarrow> sts \<noteq> [])"
proof (induction cls arbitrary: b)
  case (Cons cl cls)
  let ?b = "removeClient E cl b"
  have h: "\<exists>sts. b_hub ?b = b_hub b @ map HubStatus sts \<and> list_all st_SerialConnected sts \<and>
      (b_observability b \<and> cl \<in> set (b_clients b) \<longrightarrow> sts \<noteq> [])"
  proof (cases "b_observability b \<and> cl \<in> set (b_clients b)")
    case True
    then obtain st where "b_hub ?b = b_hub b @ [HubStatus st]" "st_SerialConnected st"
      by (auto simp: removeClient_def PublishStatus_def broker_status_def dropPendingForClient_def set_client_def Let_def)
    then show ?thesis by (intro exI [of _ "[st]"]) simp
  next
    case False
    then show ?thesis
      by (intro exI [of _ "[]"])
        (auto simp: removeClient_def PublishStatus_def dropPendingForClient_def set_client_def Let_def)
  qed
  have c: "set (b_clients b) - {cl} \<subseteq> set (b_clients ?b)" "b_observability ?b = b_observability b"
    by (auto simp: removeClient_def PublishStatus_def dropPendingForClient_def set_client_def Let_def
        intro: ccontr in_set_remove1 [THEN iffD2])
  from h obtain ss where ss: "b_hub ?b = b_hub b @ map HubStatus ss" "list_all st_SerialConnected ss"
    "b_observability b \<and> cl \<in> set (b_clients b) \<longrightarrow> ss \<noteq> []" by auto
  from Cons.IH [of ?b] obtain ts where ts: "b_hub (remove_each E cls ?b) = b_hub ?b @ map HubStatus ts"
    "list_all st_SerialConnected ts" "b_observability ?b \<and> set cls \<inter> set (b_clients ?b) \<noteq> {} \<longrightarrow> ts \<noteq> []" by auto
  from ss ts c show ?case by (intro exI [of _ "ss @ ts"]) auto
qed (intro exI [of _ "[]"], simp)

lemma fold_status:
  "sts \<noteq> [] \<Longrightarrow> list_all st_SerialConnected sts \<Longrightarrow>
     st_SerialConnected (h_status (fold (hub_apply W E now l) (map HubStatus sts) h))"
proof (induction sts rule: rev_induct)
  case (snoc st sts)
  have "h_status (SetStatus now st h) = st" for h
    by (simp add: SetStatus_def notifyNodes_def Let_def)
  with snoc show ?case by simp
qed simp

lemma disconnect_shown_as_connected:
  assumes "env_ok E" and "sv_hub s = Some h"
    and "b_observability (s_broker q)" and "b_clients (s_broker q) \<noteq> []"
  shows "\<exists>h'. sv_hub (close_session W E q s) = Some h' \<and> sv_current (close_session W E q s) = None \<and>
    st_SerialConnected (h_status h')"
proof -
  let ?b = "s_broker q"
  have "set (snapshotClients E ?b) \<inter> set (b_clients ?b) \<noteq> {}"
    using assms(1,4) by (simp add: snapshotClients_def env_ok_client_order)
  with remove_each_calls [of E "snapshotClients E ?b" ?b] assms(3) obtain sts where
    "b_hub (CloseAll E ?b) = b_hub ?b @ map HubStatus sts" "list_all st_SerialConnected sts" "sts \<noteq> []"
    unfolding CloseAll_def by auto
  then show ?thesis using assms(2)
    by (simp add: close_session_def Let_def new_calls_def hub_calls_def fold_status)
qed

end
