(* ===== verification/MainProgram.thy ===== *)
theory MainProgram
  imports Server
begin

text \<open>
  \<open>main.go\<close> and \<open>internal/mdns\<close>: the version shown, the record announced over mDNS, and how the
  program starts its parts and ends. What the parts answer (the health check, the mDNS library, the
  server loop) is the record \<open>started\<close>; the server loop itself is \<open>Server\<close>.
\<close>

section \<open>The version\<close>

definition TrimPrefix :: "string \<Rightarrow> string \<Rightarrow> string" where
  "TrimPrefix s p = (if take (length p) s = p then drop (length p) s else s)"

text \<open>The output of \<open>git describe\<close>, none when the command fails.\<close>

definition gitDescribe :: "string option \<Rightarrow> string option" where
  "gitDescribe out = map_option (\<lambda>s. TrimPrefix (TrimSpace s) ''v'') out"

definition appVersion :: "string \<Rightarrow> string option \<Rightarrow> string" where
  "appVersion version out =
     (let v = TrimSpace version in
      if v \<noteq> '''' \<and> v \<noteq> ''dev'' then v
      else (case gitDescribe out of
              Some d \<Rightarrow> if d \<noteq> '''' then d else if v = '''' then ''dev'' else v
            | None \<Rightarrow> if v = '''' then ''dev'' else v))"

lemma appVersion_not_empty: "appVersion version out \<noteq> ''''"
  by (auto simp: appVersion_def Let_def split: option.split)

section \<open>The mDNS record\<close>

record mdns_service =
  md_Instance :: string
  md_Service :: string
  md_Domain :: string
  md_Port :: int
  md_Text :: "string list"

definition mdns_Start :: "Config \<Rightarrow> mdns_service" where
  "mdns_Start cfg =
     \<lparr>md_Instance = cfg_ServiceName cfg, md_Service = ''_meshtastic._tcp'', md_Domain = ''local.'',
      md_Port = cfg_TCPPort cfg,
      md_Text = [''bridge=serial'', ''port='' @ Itoa (cfg_TCPPort cfg), ''serial_device='' @ cfg_Device cfg,
                 ''baud_rate='' @ Itoa (cfg_Baud cfg)]\<rparr>"

section \<open>The program\<close>

record started =
  sd_reachable :: bool      \<comment> \<open>the dial of the health check succeeded\<close>
  sd_registered :: bool     \<comment> \<open>\<open>zeroconf.Register\<close> succeeded\<close>
  sd_run :: run_end         \<comment> \<open>what \<open>server.Run\<close> returned\<close>

record main_result =
  mr_exit :: nat
  mr_service :: "mdns_service option"   \<comment> \<open>what was announced\<close>
  mr_withdrawn :: bool                  \<comment> \<open>\<open>Shutdown\<close> of the mDNS server\<close>
  mr_hub :: "hub option"                \<comment> \<open>the hub given to the server loop and the web UI\<close>

definition run_failed :: "run_end \<Rightarrow> bool" where
  "run_failed e \<longleftrightarrow> e \<noteq> EndNil"

definition main :: "load_result \<Rightarrow> started \<Rightarrow> main_result" where
  "main l w =
     (case l of
        Exit n \<Rightarrow> \<lparr>mr_exit = n, mr_service = None, mr_withdrawn = False, mr_hub = None\<rparr>
      | Loaded cfg healthcheck \<Rightarrow>
          if healthcheck then
            \<lparr>mr_exit = RunHealthcheck (sd_reachable w), mr_service = None, mr_withdrawn = False, mr_hub = None\<rparr>
          else
            let mdnsServer = (if cfg_MDNSEnabled cfg \<and> sd_registered w then Some (mdns_Start cfg) else None);
                hub = (if cfg_WebUI cfg then Some NewHub else None)
            in if run_failed (sd_run w)
               then \<lparr>mr_exit = 1, mr_service = mdnsServer, mr_withdrawn = False, mr_hub = hub\<rparr>
               else \<lparr>mr_exit = 0, mr_service = mdnsServer, mr_withdrawn = mdnsServer \<noteq> None, mr_hub = hub\<rparr>)"

text \<open>The announced port is the port clients connect to, also as text.\<close>

lemma mdns_port:
  assumes "Load e args = Loaded cfg False" and "cfg_TCPPort cfg < 2 ^ 63"
  shows "Atoi (drop 5 (md_Text (mdns_Start cfg) ! 1)) = Some (md_Port (mdns_Start cfg))"
proof -
  have "0 < cfg_TCPPort cfg"
    using assms(1) by (auto simp: Load_def Let_def normalize_pos getenvInt_pos split: flag_result.splits)
  with assms(2) show ?thesis by (simp add: mdns_Start_def Atoi_Itoa)
qed

text \<open>
  The exit code over every run of the server loop: 0 exactly when the loop ended without an
  error. A signal ends a session or a sleep cleanly; the same signal during the wait for the device
  exits with 1, and then an announced service is not withdrawn.
\<close>

lemma exit_code:
  assumes "sv_pc s = AtEnd (sd_run w)" and "Load e args = Loaded cfg False"
  shows "mr_exit (main (Load e args) w) = 0 \<longleftrightarrow> sv_pc s = AtEnd EndNil"
  using assms by (auto simp: main_def Let_def run_failed_def)

lemma signal_while_waiting:
  assumes "sv_pc s = AtWait" and "\<not> sv_crashed s" and "Load e args = Loaded cfg False"
  shows "\<exists>s'. (srv_step W E cfg)\<^sup>*\<^sup>* s s' \<and> (\<forall>w. sv_pc s' = AtEnd (sd_run w) \<longrightarrow>
    mr_exit (main (Load e args) w) = 1 \<and> \<not> mr_withdrawn (main (Load e args) w))"
proof -
  let ?c = "s\<lparr>sv_ctx := True\<rparr>" and ?e = "s\<lparr>sv_ctx := True, sv_pc := AtEnd EndContext\<rparr>"
  have "srv_step W E cfg s ?c" using assms(2) by (rule Signal)
  moreover have "srv_step W E cfg ?c (?c\<lparr>sv_pc := AtEnd EndContext\<rparr>)" using assms(1,2) by (intro WaitCancel) simp_all
  ultimately have "(srv_step W E cfg)\<^sup>*\<^sup>* s ?e" by simp
  with assms(3) show ?thesis by (intro exI [of _ ?e]) (auto simp: main_def Let_def run_failed_def)
qed

end
