(* ===== verification/Sessions.thy ===== *)
theory Sessions
  imports Server
begin

text \<open>
  Sessions that have ended in the server of \<open>Server\<close>: their goroutines run on, a client may still be
  added to one of them, and what they show the hub is looked up under the broker that is current by then.
  A late client is always disconnected; a call that asks for the radio while no session is served ends
  the process.
\<close>

section \<open>Every session can close its signal\<close>

text \<open>\<open>done\<close> is closed, or \<open>Run\<close> waits and the serial reader will report to it.\<close>

definition can_stop :: "sys \<Rightarrow> bool" where
  "can_stop q \<longleftrightarrow> b_done (s_broker q) \<or> s_run q \<and> (s_serial_reader q \<or> s_errCh q)"

lemma fail_done [simp]: "b_done (fail e b)"
  by (simp add: fail_def)

lemma can_stop_step:
  assumes "sys_step E q q'" and "can_stop q"
  shows "can_stop q'"
proof (cases "b_done (s_broker q)")
  case True
  from stopped_step [OF assms(1) True] show ?thesis by (simp add: can_stop_def)
next
  case False
  with assms(2) have r: "s_run q" "s_serial_reader q \<or> s_errCh q" by (simp_all add: can_stop_def)
  from assms(1) show ?thesis by cases (use r False in \<open>auto simp: can_stop_def\<close>)
qed

text \<open>The ended sessions are numbered in their order, and the accept goroutine holds one that exists.\<close>

definition old_inv :: "server \<Rightarrow> bool" where
  "old_inv s \<longleftrightarrow>
     map fst (sv_old s) = [1..<Suc (sv_closed s)] \<and>
     (\<forall>(n, q) \<in> set (sv_old s). sys_inv q \<and> can_stop q) \<and>
     (\<forall>q. sv_current s = Some q \<longrightarrow> can_stop q) \<and>
     (\<forall>addr n. sv_grab s = Some (addr, n) \<longrightarrow> n \<in> {1..sv_opened s})"

lemma set_old_fst [simp]: "map fst (set_old n q old) = map fst old"
  by (induction old) (auto simp: set_old_def)

lemma set_old_in: "(m, p) \<in> set (set_old n q old) \<Longrightarrow> (m, p) \<in> set old \<or> p = q"
  by (auto simp: set_old_def split: if_splits)

lemma set_old_new: "(n, q) \<in> set old \<Longrightarrow> (n, q') \<in> set (set_old n q' old)"
  by (force simp: set_old_def)

lemma old_inv_old_session:
  assumes "old_inv s" and "(n, q) \<in> set (sv_old s)" and "sys_step E' q q'" and "env_ok E'"
  shows "old_inv (old_session W E n q q' s)"
proof -
  have "sys_inv q" "can_stop q" using assms(1,2) by (auto simp: old_inv_def)
  then have "sys_inv q'" "can_stop q'" using sys_inv_step [OF _ assms(3,4)] can_stop_step [OF assms(3)] by simp_all
  with assms(1) show ?thesis by (auto simp: old_inv_def dest!: set_old_in)
qed

lemma old_inv_accept_add:
  assumes "old_inv s" and "env_ok E"
  shows "old_inv (accept_add W E addr n s)"
proof -
  have a: "sys_step E q (q\<lparr>s_broker := snd (AddClient E addr (s_broker q))\<rparr>)" for q by (rule Accept)
  have i: "old_inv (s\<lparr>sv_grab := None\<rparr>)" using assms(1) by (simp add: old_inv_def)
  show ?thesis
  proof (cases "if n = sv_opened s then sv_current s else None")
    case (Some q)
    then have q: "n = sv_opened s" "sv_current s = Some q" by (simp_all split: if_splits)
    with i can_stop_step [OF a, of q] show ?thesis
      by (simp add: accept_add_def accept_client_def Let_def old_inv_def)
  next
    case None
    show ?thesis
    proof (cases "map_of (sv_old s) n")
      case n: (Some q)
      then have "(n, q) \<in> set (sv_old (s\<lparr>sv_grab := None\<rparr>))" by (simp add: map_of_SomeD)
      from old_inv_old_session [OF i this a assms(2)] None n show ?thesis
        by (cases "n = sv_opened s") (simp_all add: accept_add_def Let_def)
    qed (use i None in \<open>cases "n = sv_opened s"; simp add: accept_add_def Let_def\<close>)
  qed
qed

lemma old_inv_end_session:
  assumes "srv_inv s" and "old_inv s" and "sv_current s = Some q" and "env_ok E"
  shows "old_inv (end_session W E cfg err t q s)"
proof -
  let ?q = "q\<lparr>s_broker := CloseAll E (s_broker q)\<rparr>"
  have step: "sys_step E q ?q" by (rule Shutdown)
  have "sys_inv q" "sv_opened s = Suc (sv_closed s)"
    using assms(1,3) by (auto simp: srv_inv_def)
  moreover have "can_stop q" using assms(2,3) by (simp add: old_inv_def)
  ultimately show ?thesis
    using sys_inv_step [OF _ step assms(4)] can_stop_step [OF step] assms(2)
    by (auto simp: end_session_def close_session_def next_attempt_def Let_def old_inv_def split: sum.split)
qed

lemma old_inv_step:
  assumes "srv_step W E cfg s t" and "srv_inv s" and "old_inv s" and "env_ok E"
  shows "old_inv t"
  using assms(1)
proof cases
  case (OldStep n q q')
  with assms show ?thesis by (simp add: old_inv_old_session)
next
  case (AcceptAdd addr n)
  with assms show ?thesis by (simp add: old_inv_accept_add)
next
  case (AcceptRead addr)
  with assms(2,3) show ?thesis by (auto simp: accept_read_def old_inv_def srv_inv_def)
next
  case (BrokerStep t q q')
  with assms(3) can_stop_step [OF BrokerStep(4)] show ?thesis by (simp add: old_inv_def)
next
  case (OpenOk rnd)
  with assms(3) show ?thesis
    by (auto simp: old_inv_def start_session_def Let_def can_stop_def sys_init_def)
next
  case OpenFail
  with assms(3) show ?thesis by (auto simp: old_inv_def next_attempt_def split: sum.split)
next
  case (EndByAccept t q)
  have "srv_inv (s\<lparr>sv_acceptErr := False\<rparr>)" "old_inv (s\<lparr>sv_acceptErr := False\<rparr>)"
    using assms(2,3) by (auto simp: srv_inv_def old_inv_def)
  with EndByAccept assms(4) show ?thesis by (simp add: old_inv_end_session)
next
  case (EndByContext t q)
  with assms show ?thesis by (simp add: old_inv_end_session)
next
  case (EndByBroker t q)
  with assms show ?thesis by (simp add: old_inv_end_session)
qed (use assms(3) in \<open>simp_all add: old_inv_def\<close>)

interpretation session_sys: invariant_system
  "\<lambda>s. \<exists>hb now. s = srv_init hb now \<and> (\<forall>h. hb = Some h \<longrightarrow> hub_ok h)"
  "\<lambda>s s'. webenv_ok W \<and> env_ok E \<and> srv_step W E cfg s s'" "\<lambda>s. srv_inv s \<and> old_inv s" for W E cfg
proof unfold_locales
  fix s
  assume i: "\<exists>hb now. s = srv_init hb now \<and> (\<forall>h. hb = Some h \<longrightarrow> hub_ok h)"
  then have "old_inv s" by (auto simp: srv_init_def old_inv_def)
  with server_sys.inv_init [OF i] show "srv_inv s \<and> old_inv s" ..
next
  fix s t
  assume "srv_inv s \<and> old_inv s" and "webenv_ok W \<and> env_ok E \<and> srv_step W E cfg s t"
  then show "srv_inv t \<and> old_inv t" by (auto elim: inv_srv_step old_inv_step)
qed

lemma reach_old_inv:
  assumes "webenv_ok W" and "env_ok E" and "\<forall>h. hb = Some h \<longrightarrow> hub_ok h"
    and "(srv_step W E cfg)\<^sup>*\<^sup>* (srv_init hb now) s"
  shows "srv_inv s \<and> old_inv s"
proof -
  have "(\<lambda>s s'. webenv_ok W \<and> env_ok E \<and> srv_step W E cfg s s')\<^sup>*\<^sup>* (srv_init hb now) s"
    using assms(1,2,4) by simp
  with assms(3) show ?thesis by (intro session_sys.inv_reachable [of "srv_init hb now" W E cfg s]) auto
qed

section \<open>When the process ends\<close>

lemma run_calls_local:
  "list_all (\<lambda>c. \<not> asks_radio E c) cs \<Longrightarrow> \<exists>h'. run_calls W E now r cs h = Returned h'"
  by (induction cs arbitrary: h) (simp_all add: hub_call_run_def)

lemma run_calls_cases:
  "(case run_calls W E now (radio provider current) cs h of Returned _ \<Rightarrow> False | _ \<Rightarrow> True) \<longleftrightarrow>
     provider \<and> current = None \<and> list_ex (asks_radio E) cs"
proof (induction cs arbitrary: h)
  case (Cons c cs)
  show ?case
  proof (cases "asks_radio E c \<and> provider \<and> current = None")
    case True
    then show ?thesis by (simp add: hub_call_run_def radio_def radio_local_def)
  next
    case False
    then obtain h1 where "hub_call_run W E now (radio provider current) c h = Returned h1"
      by (cases "asks_radio E c"; cases current; cases provider) (auto simp: hub_call_run_def radio_def radio_local_def)
    with False Cons show ?thesis by auto
  qed
qed simp

lemma old_session_crashes:
  assumes "\<not> sv_crashed s"
  shows "sv_crashed (old_session W E n q q' s) \<longleftrightarrow>
    sv_hub s \<noteq> None \<and> sv_provider s \<and> sv_current s = None \<and>
    list_ex (asks_radio E) (new_calls (s_broker q) (s_broker q'))"
proof (cases "sv_hub s")
  case None
  then show ?thesis using assms by (simp add: old_session_def)
next
  case (Some h)
  have "sv_crashed (old_session W E n q q' s) \<longleftrightarrow>
      (case run_calls W E (b_now (s_broker q')) (current_radio s) (new_calls (s_broker q) (s_broker q')) h of
         Returned _ \<Rightarrow> False | _ \<Rightarrow> True)"
    using assms Some by (simp add: old_session_def Let_def split: call.split)
  then show ?thesis by (simp add: Some current_radio_def run_calls_cases)
qed

text \<open>Removing clients, closing the signal and adding a client only publish the status.\<close>

lemma status_calls:
  "list_all (\<lambda>c. \<not> asks_radio E c) (new_calls b (removeClient E' cl b))"
  "list_all (\<lambda>c. \<not> asks_radio E c) (new_calls b (snd (AddClient E' addr b)))"
  "new_calls b b = []" "new_calls b (fail e b) = []"
  by (auto simp: new_calls_def removeClient_def AddClient_def PublishStatus_def dropPendingForClient_def set_client_def
      fail_def Let_def asks_radio_def)

lemma accept_add_keeps_running:
  assumes "\<not> sv_crashed s"
  shows "\<not> sv_crashed (accept_add W E addr n s)"
proof -
  have "\<not> sv_crashed (old_session W E k q (q\<lparr>s_broker := snd (AddClient E addr (s_broker q))\<rparr>) (s\<lparr>sv_grab := None\<rparr>))" for k q
    using assms status_calls(2) [of E "s_broker q" E addr] by (simp add: old_session_crashes list_ex_iff list_all_iff)
  with assms show ?thesis
    by (simp add: accept_add_def accept_client_def Let_def split: option.split)
qed

lemma crash_cases:
  assumes "srv_step W E cfg s t"
  shows "sv_crashed t \<longleftrightarrow>
    sv_hub s \<noteq> None \<and> sv_provider s \<and> sv_current s = None \<and>
    (\<exists>n q q'. (n, q) \<in> set (sv_old s) \<and> sys_step E q q' \<and> b_next (s_broker q') = b_next (s_broker q) \<and>
       t = old_session W E n q q' s \<and> list_ex (asks_radio E) (new_calls (s_broker q) (s_broker q')))"
    (is "_ \<longleftrightarrow> ?R")
proof
  assume "sv_crashed t"
  with assms show ?R
  proof cases
    case (OldStep n q q')
    with \<open>sv_crashed t\<close> show ?thesis using old_session_crashes [OF OldStep(6)] by auto
  next
    case (AcceptAdd addr n)
    with \<open>sv_crashed t\<close> accept_add_keeps_running show ?thesis by simp
  qed (simp_all add: next_attempt_def end_session_def close_session_def start_session_def accept_read_def Let_def
      split: sum.splits if_splits)
next
  assume ?R
  moreover have "\<not> sv_crashed s" using assms by cases
  ultimately show "sv_crashed t" using old_session_crashes by auto
qed

section \<open>A client that comes too late\<close>

lemma old_step_quiet:
  assumes "(n, q) \<in> set (sv_old s)" and "sys_step E q q'" and "b_next (s_broker q') = b_next (s_broker q)"
    and "\<not> woken_by_ctx q q'" and "\<not> sv_crashed s" and "list_all (\<lambda>c. \<not> asks_radio E c) (new_calls (s_broker q) (s_broker q'))"
  shows "\<exists>t. srv_step W E cfg s t \<and> (n, q') \<in> set (sv_old t) \<and> \<not> sv_crashed t \<and>
    sv_pc t = sv_pc s \<and> sv_current t = sv_current s"
proof -
  have "\<not> sv_crashed (old_session W E n q q' s)"
    using assms(6) by (auto simp: old_session_crashes [OF assms(5)] list_ex_iff list_all_iff)
  with OldStep [OF assms(1-3) _ assms(5)] assms(4) show ?thesis
    using set_old_new [OF assms(1)] by (intro exI [of _ "old_session W E n q q' s"]) simp
qed

text \<open>The reader reports, \<open>Run\<close> closes the signal.\<close>

lemma old_session_stops:
  assumes "(n, q) \<in> set (sv_old s)" and "can_stop q" and "\<not> sv_crashed s"
  shows "\<exists>t q'. (srv_step W E cfg)\<^sup>*\<^sup>* s t \<and> (n, q') \<in> set (sv_old t) \<and> \<not> sv_crashed t \<and> sv_pc t = sv_pc s \<and>
    sv_current t = sv_current s \<and> b_done (s_broker q') \<and> s_writer q' = s_writer q \<and>
    b_next (s_broker q') = b_next (s_broker q)"
proof (cases "b_done (s_broker q)")
  case True
  with assms show ?thesis by blast
next
  case False
  let ?r = "\<lambda>q. q\<lparr>s_broker := fail (Some ErrSerialClosed) (s_broker q), s_errCh := False, s_run := False\<rparr>"
  have run: "\<exists>t. srv_step W E cfg u t \<and> (n, ?r p) \<in> set (sv_old t) \<and> \<not> sv_crashed t \<and> sv_pc t = sv_pc u \<and>
      sv_current t = sv_current u"
    if "(n, p) \<in> set (sv_old u)" "s_run p" "s_errCh p" "\<not> sv_crashed u" for u p
  proof (rule old_step_quiet [OF that(1) RunSerial [OF that(2,3)] _ _ that(4)])
    show "list_all (\<lambda>c. \<not> asks_radio E c) (new_calls (s_broker p) (s_broker (?r p)))"
      by (simp add: status_calls(4))
  qed (use that in simp_all)
  show ?thesis
  proof (cases "s_errCh q")
    case True
    with False assms have "s_run q" by (simp add: can_stop_def)
    from run [OF assms(1) this True assms(3)] show ?thesis
      by (elim exE conjE) (intro exI conjI, rule r_into_rtranclp, assumption+, simp_all)
  next
    case no: False
    let ?e = "q\<lparr>s_serial_reader := False, s_errCh := True\<rparr>"
    from no False assms(2) have r: "s_run q" "s_serial_reader q" by (simp_all add: can_stop_def)
    have "\<exists>t. srv_step W E cfg s t \<and> (n, ?e) \<in> set (sv_old t) \<and> \<not> sv_crashed t \<and> sv_pc t = sv_pc s \<and>
        sv_current t = sv_current s"
      by (rule old_step_quiet [OF assms(1) SerialEnd [OF r(2)] _ _ assms(3)]) (simp_all add: status_calls)
    then obtain u where u: "srv_step W E cfg s u" "(n, ?e) \<in> set (sv_old u)" "\<not> sv_crashed u"
      "sv_pc u = sv_pc s" "sv_current u = sv_current s"
      by blast
    obtain t where t: "srv_step W E cfg u t" "(n, ?r ?e) \<in> set (sv_old t)" "\<not> sv_crashed t" "sv_pc t = sv_pc u"
      "sv_current t = sv_current u"
      using run [OF u(2) _ _ u(3)] r by auto
    have "(srv_step W E cfg)\<^sup>*\<^sup>* s t" using u(1) t(1) by (meson converse_rtranclp_into_rtranclp r_into_rtranclp)
    with u t show ?thesis by (intro exI [of _ t] exI [of _ "?r ?e"]) simp
  qed
qed



section \<open>A packet that comes too late\<close>

text \<open>What the handler of a client's packet tells the hub comes after the observation of the frame itself.\<close>

definition tells_more :: "broker \<Rightarrow> broker \<Rightarrow> bool" where
  "tells_more b b' \<longleftrightarrow> calls_only (\<lambda>_. True) b b' \<and> b_next b' = b_next b"

lemma tells_more_trans: "tells_more a b \<Longrightarrow> tells_more b c \<Longrightarrow> tells_more a c"
  by (auto simp: tells_more_def intro: calls_only_trans)

lemma tells_more_simple [simp]:
  "tells_more b b" "tells_more b (fail e b)" "tells_more b (noteOutboundPacket cl pkt b)"
  "tells_more b (warnReadOnlyClient cl b)"
  by (auto simp: tells_more_def calls_only_def fail_def noteOutboundPacket_def warnReadOnlyClient_def set_client_def Let_def)

lemma tells_more_forward: "forwardToSerial E t b = (e, b') \<Longrightarrow> tells_more b b'"
  using calls_only_forward [of E t "\<lambda>_. True" b] forward_fields(2) [of E t b] by (simp add: tells_more_def)

lemma tells_more_broadcast: "tells_more b (broadcastExcept E p except b)"
proof -
  have "tells_more b (sendToClient E cl p b)" for cl b
    using calls_only_send [where P = "\<lambda>_. True" and b = b and E = E and cl = cl and p = p] core_fields(2) [of "sendToClient E cl p b" b]
    by (simp add: tells_more_def)
  then have "tells_more b (send_each E p except cls b)" for cls
    by (induction cls arbitrary: b) (auto intro: tells_more_trans)
  then show ?thesis by (simp add: broadcastExcept_def)
qed

lemma tells_more_packet: "tells_more b (handleClientPacket E cl t pkt b)"
proof (cases "forwardToSerial E t b")
  case (Pair e b1)
  then have f: "tells_more b b1" by (rule tells_more_forward)
  have "tells_more b1 (broadcastExcept E w (Some cl) (noteOutboundPacket cl pkt b1))" for w
    by (rule tells_more_trans [OF tells_more_simple(3) tells_more_broadcast])
  with Pair tells_more_trans [OF f] show ?thesis
    by (auto simp: handleClientPacket_def announcePacket_def Let_def split: option.split)
qed

lemma packet_asks:
  assumes "b_observability b" and "p \<noteq> []" and "unmarshal_ToRadio E p = Some m"
    and "ToRadio_Variant m = Some (ToRadio_Packet (Some pkt))"
  obtains b' where "readLoop_frame E cl p b = Some (b', [])" and "b_next b' = b_next b"
    and "list_ex (asks_radio E) (new_calls b b')"
proof -
  let ?obs = "HubObserve ''client -> broker'' (cl_addr (the_client b cl)) p False"
  let ?b = "logDecodedPayload ''client -> broker'' (cl_addr (the_client b cl)) p payloadToRadio b"
  let ?c = "handleClientPacket E cl m (Some pkt) ?b"
  have h: "b_hub ?b = b_hub b @ [?obs]" "b_next ?b = b_next b" using assms(1) by (simp_all add: logDecodedPayload_def)
  from tells_more_packet [of ?b E cl m "Some pkt"] obtain cs where cs: "b_hub ?c = b_hub ?b @ cs" "b_next ?c = b_next ?b"
    by (auto simp: tells_more_def calls_only_def)
  have "asks_radio E ?obs" using assms(2-4) by (simp add: asks_radio_def)
  with cs h have "list_ex (asks_radio E) (new_calls b ?c)" by (simp add: new_calls_def)
  with that [of ?c] cs h assms(3,4) show thesis by (simp add: readLoop_frame_def handleClientPayload_def)
qed

lemma late_packet_step:
  assumes "\<not> sv_crashed s" and "(n, q) \<in> set (sv_old s)" and "b_observability (s_broker q)"
    and "live q cl" and "s_reader q cl = RIdle" and "frame_ok p"
    and "unmarshal_ToRadio E p = Some m" and "ToRadio_Variant m = Some (ToRadio_Packet (Some pkt))"
  obtains q' where "srv_step W E cfg s (old_session W E n q q' s)" and "sys_step E q q'"
    and "b_next (s_broker q') = b_next (s_broker q)"
    and "list_ex (asks_radio E) (new_calls (s_broker q) (s_broker q'))"
proof -
  have "p \<noteq> []" using assms(6) by (simp add: frame_ok_def)
  from packet_asks [OF assms(3) this assms(7,8)] obtain b' where
    r: "readLoop_frame E cl p (s_broker q) = Some (b', [])" and n: "b_next b' = b_next (s_broker q)"
    and a: "list_ex (asks_radio E) (new_calls (s_broker q) b')" .
  let ?q = "q\<lparr>s_broker := b', s_reader := (s_reader q)(cl := replay_pc [])\<rparr>"
  have q: "sys_step E q ?q" using assms(4-6) r by (rule ClientFrame)
  with OldStep [OF assms(2) this _ _ assms(1)] n a that [of ?q] show thesis by simp
qed

text \<open>The serial link is lost while a client is connected, with the web UI on.\<close>

lemma sample_lost_link:
  "\<exists>s q. (srv_step sample_web text_env sample_config)\<^sup>*\<^sup>* (srv_init (Some NewHub) 0) s \<and> \<not> sv_crashed s \<and>
     sv_current s = None \<and> sv_provider s \<and> sv_hub s \<noteq> None \<and> (1, q) \<in> set (sv_old s) \<and>
     b_observability (s_broker q) \<and> live q 0 \<and> s_reader q 0 = RIdle"
proof -
  let ?R = "srv_step sample_web text_env sample_config"
  let ?o = "start_session sample_web text_env sample_config [] ((srv_init (Some NewHub) 0)\<lparr>sv_pc := AtOpen\<rparr>)"
  let ?c = "accept_add sample_web text_env ''a'' 1 (accept_read ''a'' ?o)"
  have o: "?R\<^sup>*\<^sup>* (srv_init (Some NewHub) 0) ?o" by (rule sample_session)
  obtain q0 where q0: "sv_current ?o = Some q0" "q0 = sys_init (PublishStatus text_env (New False True 0 []))"
    by (simp add: start_session_def srv_init_def Let_def sample_config_def)
  have f: "sv_pc ?o = AtServe 0" "\<not> sv_crashed ?o" "sv_opened ?o = 1" "sv_old ?o = []"
    "sv_grab ?o = None" "sv_accepting ?o" "sv_hub ?o \<noteq> None" "sv_provider ?o"
    by (simp_all add: start_session_def srv_init_def Let_def)
  have 1: "?R ?o (accept_read ''a'' ?o)" using f by (intro AcceptRead) simp_all
  have 2: "?R (accept_read ''a'' ?o) ?c" using f q0 by (intro AcceptAdd) (simp_all add: accept_read_def)
  let ?q = "q0\<lparr>s_broker := snd (AddClient text_env ''a'' (s_broker q0))\<rparr>"
  have c: "sv_current ?c = Some ?q" "sv_pc ?c = AtServe 0" "\<not> sv_crashed ?c" "sv_opened ?c = 1" "sv_old ?c = []"
    "sv_hub ?c \<noteq> None" "sv_provider ?c"
    using f q0 by (simp_all add: accept_read_def accept_add_def accept_client_def Let_def)
  have q: "b_observability (s_broker ?q)" "live ?q 0" "s_reader ?q 0 = RIdle" "s_serial_reader ?q" "s_run ?q"
    by (simp_all add: q0(2) AddClient_def PublishStatus_def New_def Let_def sys_init_def)
  let ?q1 = "?q\<lparr>s_serial_reader := False, s_errCh := True\<rparr>"
  let ?q2 = "?q1\<lparr>s_broker := fail (Some ErrSerialClosed) (s_broker ?q1), s_errCh := False, s_run := False\<rparr>"
  have 3: "\<exists>d. ?R ?c d \<and> sv_current d = Some ?q1 \<and> sv_pc d = AtServe 0 \<and> \<not> sv_crashed d \<and> sv_opened d = 1 \<and>
      sv_hub d \<noteq> None \<and> sv_provider d"
    by (rule exI, rule conjI, rule BrokerStep [OF c(2,1) SerialEnd [OF q(4)] _ _ c(3)]) (use c in simp_all)
  then obtain d where d: "?R ?c d" "sv_current d = Some ?q1" "sv_pc d = AtServe 0" "\<not> sv_crashed d" "sv_opened d = 1"
    "sv_hub d \<noteq> None" "sv_provider d" by blast
  have "sys_step text_env ?q1 ?q2" by (rule RunSerial) (use q in simp_all)
  then have "\<exists>e. ?R d e \<and> sv_current e = Some ?q2 \<and> sv_pc e = AtServe 0 \<and> \<not> sv_crashed e \<and> sv_opened e = 1 \<and>
      sv_hub e \<noteq> None \<and> sv_provider e"
    by (intro exI conjI, rule BrokerStep [OF d(3,2) _ _ _ d(4)]) (use d in simp_all)
  then obtain e where e: "?R d e" "sv_current e = Some ?q2" "sv_pc e = AtServe 0" "\<not> sv_crashed e" "sv_opened e = 1"
    "sv_hub e \<noteq> None" "sv_provider e" by blast
  let ?s = "end_session sample_web text_env sample_config (broker_session_err (s_broker ?q2)) 0 ?q2 e"
  have 4: "?R e ?s" using e by (intro EndByBroker) simp_all
  have r: "?R\<^sup>*\<^sup>* (srv_init (Some NewHub) 0) ?s"
    using o 1 2 d(1) e(1) 4 by (meson rtranclp.rtrancl_into_rtrancl)
  let ?p = "?q2\<lparr>s_broker := CloseAll text_env (s_broker ?q2)\<rparr>"
  have "(1, ?p) \<in> set (sv_old ?s)" "\<not> sv_crashed ?s" "sv_current ?s = None" "sv_provider ?s" "sv_hub ?s \<noteq> None"
    using e by (auto simp: end_session_def close_session_def next_attempt_def Let_def split: sum.split)
  moreover have "b_observability (s_broker ?p)" "live ?p 0" "s_reader ?p 0 = RIdle"
    using q core_fields(2,5) [OF core_remove_each] by (simp_all add: CloseAll_def fail_def)
  ultimately show ?thesis using r by blast
qed

text \<open>
  C10: a disconnect can end the whole bridge. The web UI looks at every packet and asks the current broker for its node
  number; between two sessions there is none, and the interface the provider returns is not nil. So while no session
  is served, one packet that a client had sent and the ended session's reader still handles is enough: the goroutine
  panics, and with it the process, for every client.
\<close>

theorem late_packet_crashes:
  assumes "\<not> sv_crashed s" and "sv_current s = None" and "sv_provider s" and "sv_hub s \<noteq> None"
    and "(n, q) \<in> set (sv_old s)" and "b_observability (s_broker q)"
    and "live q cl" and "s_reader q cl = RIdle" and "frame_ok p"
    and "unmarshal_ToRadio E p = Some m" and "ToRadio_Variant m = Some (ToRadio_Packet (Some pkt))"
  shows "\<exists>t. srv_step W E cfg s t \<and> sv_crashed t"
proof -
  from late_packet_step [OF assms(1,5-11)] obtain q' where "srv_step W E cfg s (old_session W E n q q' s)"
    "list_ex (asks_radio E) (new_calls (s_broker q) (s_broker q'))" .
  then show ?thesis using assms(2-4) old_session_crashes [OF assms(1)] by blast
qed

theorem late_packet_crashes_witness:
  "\<exists>s t. (srv_step sample_web text_env sample_config)\<^sup>*\<^sup>* (srv_init (Some NewHub) 0) s \<and> \<not> sv_crashed s \<and>
     srv_step sample_web text_env sample_config s t \<and> sv_crashed t"
proof -
  obtain s q where s: "(srv_step sample_web text_env sample_config)\<^sup>*\<^sup>* (srv_init (Some NewHub) 0) s"
    "\<not> sv_crashed s" "sv_current s = None" "sv_provider s" "sv_hub s \<noteq> None" "(1, q) \<in> set (sv_old s)"
    "b_observability (s_broker q)" "live q 0" "s_reader q 0 = RIdle"
    using sample_lost_link by blast
  have p: "frame_ok [2]" "unmarshal_ToRadio text_env [2] = Some (mk_ToRadio (ToRadio_Packet (Some text_sample)))"
    "ToRadio_Variant (mk_ToRadio (ToRadio_Packet (Some text_sample))) = Some (ToRadio_Packet (Some text_sample))"
    by (simp_all add: frame_ok_def MaxSize_def text_env_def mk_ToRadio_def)
  from late_packet_crashes [OF s(2-9) p] s(1,2) show ?thesis by blast
qed



end
