(* ===== verification/Ending.thy ===== *)
theory Ending
  imports Sessions
begin

text \<open>
  How the server loop of \<open>Server\<close> comes to an end: only the cancelled context ends it without the
  error of five rapid failures, and a cancelled context ends it, wherever the loop is.
\<close>

section \<open>What a clean end tells\<close>

text \<open>A broker whose \<open>Run\<close> has returned has an error, and it is the context's only if that was cancelled.\<close>

definition run_told :: "bool \<Rightarrow> sys \<Rightarrow> bool" where
  "run_told ctx q \<longleftrightarrow> (s_run q \<or> b_done (s_broker q)) \<and> (from_ctx (b_err (s_broker q)) \<longrightarrow> ctx)"

definition told :: "server \<Rightarrow> bool" where
  "told s \<longleftrightarrow>
     sv_pc s \<noteq> AtEnd EndListen \<and> (sv_pc s = AtEnd EndNil \<or> sv_pc s = AtEnd EndContext \<longrightarrow> sv_ctx s) \<and>
     (\<forall>q. sv_current s = Some q \<longrightarrow> run_told (sv_ctx s) q)"

lemma run_told_step:
  assumes "sys_step E q q'" and "run_told ctx q" and "woken_by_ctx q q' \<longrightarrow> ctx"
  shows "run_told ctx q'"
proof -
  have "s_run q' \<or> b_done (s_broker q')"
  proof (cases "b_done (s_broker q)")
    case True
    then show ?thesis using stopped_step [OF assms(1)] by simp
  next
    case False
    with assms(2) have "s_run q" by (simp add: run_told_def)
    with assms(1) show ?thesis by cases auto
  qed
  moreover have "ctx" if "from_ctx (b_err (s_broker q'))"
    using that no_ctx_error_step [OF assms(1)] assms(2,3) by (auto simp: run_told_def)
  ultimately show ?thesis by (simp add: run_told_def)
qed

lemma clean_broker_end:
  assumes "run_told ctx q" and "broker_inv (s_broker q)" and "\<not> s_run q"
    and "clean_end (broker_session_err (s_broker q))"
  shows "ctx"
proof -
  have "b_err (s_broker q) \<noteq> None"
    using assms(1-3) by (simp add: run_told_def broker_inv_def error_inv_def)
  with assms(1,4) show ?thesis
    by (auto simp: run_told_def clean_end_def broker_session_err_def from_ctx_def split: option.splits go_error.splits)
qed

lemma next_attempt_pc:
  "sv_pc (next_attempt cfg a s) = AtEnd e \<longleftrightarrow> after_attempt a (sv_rapidFailCount s) = Inl e"
  by (simp add: next_attempt_def split: sum.split)

lemma told_end_session:
  assumes "clean_end err \<longrightarrow> sv_ctx s"
  shows "told (end_session W E cfg err t q s)"
proof -
  have "after_attempt (Session err d) n \<noteq> Inl EndContext" "after_attempt (Session err d) n \<noteq> Inl EndListen"
    "after_attempt (Session err d) n = Inl EndNil \<longrightarrow> clean_end err" for d n
    by (simp_all add: after_attempt_eq stops_cleanly_def)
  with assms show ?thesis
    by (auto simp: told_def end_session_def next_attempt_pc close_session_def Let_def)
qed

lemma told_accept_add:
  assumes "told s"
  shows "told (accept_add W E addr n s)"
proof -
  let ?s = "s\<lparr>sv_grab := None\<rparr>"
  have i: "told ?s" using assms by (simp add: told_def)
  have o: "told (old_session W E k p p' ?s)" for k p p' using i by (simp add: told_def)
  have a: "sys_step E q (q\<lparr>s_broker := snd (AddClient E addr (s_broker q))\<rparr>)" for q by (rule Accept)
  have c: "told (accept_client W E addr q ?s)" if "sv_current s = Some q" for q
    using i that run_told_step [OF a, of "sv_ctx s" q] by (simp add: told_def accept_client_def Let_def)
  show ?thesis
    using i o c by (auto simp: accept_add_def Let_def split: option.split)
qed

lemma told_step:
  assumes "srv_step W E cfg s t" and "srv_inv s" and "told s"
  shows "told t"
  using assms(1)
proof cases
  case OpenFail
  with assms(3) show ?thesis
    by (auto simp: told_def next_attempt_pc after_attempt_eq stops_cleanly_def split: if_splits)
next
  case (OpenOk rnd)
  then show ?thesis
    by (auto simp: told_def run_told_def start_session_def Let_def sys_init_def New_def PublishStatus_def)
next
  case (BrokerStep t q q')
  with assms(3) run_told_step [OF BrokerStep(4), of "sv_ctx s"] show ?thesis by (simp add: told_def)
next
  case (AcceptAdd addr n)
  with assms(3) told_accept_add show ?thesis by simp
next
  case (EndByContext t q)
  then show ?thesis by (simp add: told_end_session)
next
  case (EndByAccept t q)
  then show ?thesis by (simp add: told_end_session clean_end_def)
next
  case (EndByBroker t q)
  have "run_told (sv_ctx s) q" using assms(3) EndByBroker(3) by (simp add: told_def)
  moreover have "broker_inv (s_broker q)" using assms(2) EndByBroker(3) by (simp add: srv_inv_def sys_inv_def)
  ultimately have "clean_end (broker_session_err (s_broker q)) \<longrightarrow> sv_ctx s"
    using clean_broker_end EndByBroker(4) by blast
  with EndByBroker(1) show ?thesis by (simp add: told_end_session)
qed (use assms(3) in \<open>auto simp: told_def accept_read_def run_told_def\<close>)

interpretation ending_sys: invariant_system
  "\<lambda>s. \<exists>hb now. s = srv_init hb now \<and> (\<forall>h. hb = Some h \<longrightarrow> hub_ok h)"
  "\<lambda>s s'. webenv_ok W \<and> env_ok E \<and> srv_step W E cfg s s'" "\<lambda>s. srv_inv s \<and> told s" for W E cfg
proof unfold_locales
  fix s
  assume i: "\<exists>hb now. s = srv_init hb now \<and> (\<forall>h. hb = Some h \<longrightarrow> hub_ok h)"
  then have "told s" by (auto simp: srv_init_def told_def)
  with server_sys.inv_init [OF i] show "srv_inv s \<and> told s" ..
next
  fix s t
  assume "srv_inv s \<and> told s" and "webenv_ok W \<and> env_ok E \<and> srv_step W E cfg s t"
  then show "srv_inv t \<and> told t" by (auto elim: inv_srv_step told_step)
qed

lemma reach_told:
  assumes "webenv_ok W" and "env_ok E" and "\<forall>h. hb = Some h \<longrightarrow> hub_ok h"
    and "(srv_step W E cfg)\<^sup>*\<^sup>* (srv_init hb now) s"
  shows "srv_inv s \<and> told s"
proof -
  have "(\<lambda>s s'. webenv_ok W \<and> env_ok E \<and> srv_step W E cfg s s')\<^sup>*\<^sup>* (srv_init hb now) s"
    using assms(1,2,4) by simp
  with assms(3) show ?thesis by (intro ending_sys.inv_reachable [of "srv_init hb now" W E cfg s]) auto
qed

text \<open>A signal while a session is served.\<close>

lemma sample_signal:
  "\<exists>s. (srv_step sample_web sample_env sample_config)\<^sup>*\<^sup>* (srv_init None 0) s \<and> sv_ctx s \<and> \<not> sv_crashed s \<and>
     sv_pc s = AtServe 0"
proof -
  let ?o = "start_session sample_web sample_env sample_config [] ((srv_init None 0)\<lparr>sv_pc := AtOpen\<rparr>)"
  have "srv_step sample_web sample_env sample_config ?o (?o\<lparr>sv_ctx := True\<rparr>)"
    by (rule Signal) (simp add: start_session_def srv_init_def Let_def)
  moreover have "sv_pc ?o = AtServe 0" "\<not> sv_crashed ?o" by (simp_all add: start_session_def srv_init_def Let_def)
  ultimately show ?thesis
    using sample_session [of sample_web sample_env sample_config None 0 "[]"]
    by (intro exI [of _ "?o\<lparr>sv_ctx := True\<rparr>"]) (simp add: rtranclp.rtrancl_into_rtrancl)
qed

section \<open>Properties\<close>

text \<open>
  C16: the bridge stops only when it is told to. In every reachable state, if the loop has returned without the
  error of five rapid failures, the context was cancelled: no
  failing device, lost link, failed accept or client makes it stop quietly, however its sessions end.
\<close>

theorem stops_only_when_told:
  assumes "webenv_ok W" and "env_ok E" and "\<forall>h. hb = Some h \<longrightarrow> hub_ok h"
    and "(srv_step W E cfg)\<^sup>*\<^sup>* (srv_init hb now) s"
    and "sv_pc s = AtEnd e" and "e \<noteq> EndTooManyFailures"
  shows "sv_ctx s"
proof -
  have "told s" using reach_told [OF assms(1-4)] ..
  with assms(5,6) show ?thesis by (cases e) (auto simp: told_def)
qed

theorem stops_only_when_told_witness:
  "\<exists>s. (srv_step sample_web sample_env sample_config)\<^sup>*\<^sup>* (srv_init None 0) s \<and> sv_pc s = AtEnd EndNil \<and> sv_ctx s"
proof -
  obtain s where s: "(srv_step sample_web sample_env sample_config)\<^sup>*\<^sup>* (srv_init None 0) s" "sv_ctx s" "\<not> sv_crashed s"
    "sv_pc s = AtServe 0" using sample_signal by blast
  have "srv_inv s" using reach_srv_inv [OF webenv_ok_sample env_ok_sample _ s(1)] by simp
  with s(4) obtain q where "sv_current s = Some q" by (auto simp: srv_inv_def)
  let ?t = "end_session sample_web sample_env sample_config SessCanceled 0 q s"
  from EndByContext [OF s(4) \<open>sv_current s = Some q\<close> s(2,3)]
  have t: "(srv_step sample_web sample_env sample_config)\<^sup>*\<^sup>* (srv_init None 0) ?t"
    using s(1) by (meson rtranclp.rtrancl_into_rtrancl)
  have p: "sv_pc ?t = AtEnd EndNil"
    by (simp add: end_session_def next_attempt_pc after_attempt_eq stops_cleanly_def clean_end_def)
  from stops_only_when_told [OF webenv_ok_sample env_ok_sample _ t p] t p show ?thesis by blast
qed

section \<open>What a signal does\<close>

text \<open>The next step of the loop can be its return.\<close>

definition stops_at_once :: "webenv \<Rightarrow> env \<Rightarrow> Config \<Rightarrow> server \<Rightarrow> bool" where
  "stops_at_once W E cfg s \<longleftrightarrow>
     (\<exists>e. sv_pc s = AtEnd e) \<or>
     (\<exists>t. srv_step W E cfg s t \<and> (sv_pc t = AtEnd EndNil \<or> sv_pc t = AtEnd EndContext))"

lemma cancelled_stops:
  assumes "srv_inv s" and "sv_ctx s" and "\<not> sv_crashed s" and "sv_pc s \<noteq> AtOpen"
  shows "stops_at_once W E cfg s"
proof (cases "sv_pc s")
  case AtWait
  from WaitCancel [OF this assms(2,3)] show ?thesis
    unfolding stops_at_once_def by (intro disjI2 exI [of _ "s\<lparr>sv_pc := AtEnd EndContext\<rparr>"]) simp
next
  case AtSleep
  from SleepCancel [OF this assms(2,3)] show ?thesis
    unfolding stops_at_once_def by (intro disjI2 exI [of _ "s\<lparr>sv_pc := AtEnd EndNil\<rparr>"]) simp
next
  case (AtServe t)
  then obtain q where "sv_current s = Some q" using assms(1) by (auto simp: srv_inv_def)
  from EndByContext [OF AtServe this assms(2,3)]
  have "srv_step W E cfg s (end_session W E cfg SessCanceled t q s)" .
  moreover have "sv_pc (end_session W E cfg SessCanceled t q s) = AtEnd EndNil"
    by (simp add: end_session_def next_attempt_pc after_attempt_eq stops_cleanly_def clean_end_def)
  ultimately show ?thesis
    unfolding stops_at_once_def by blast
qed (use assms(4) in \<open>simp_all add: stops_at_once_def\<close>)

lemma leave_open:
  assumes "srv_step W E cfg s t" and "sv_pc s = AtOpen" and "sv_pc t \<noteq> AtOpen" and "sv_ctx s"
  shows "sv_ctx t \<and> \<not> sv_crashed t"
  using assms
  by cases (auto simp: accept_read_def accept_add_def accept_client_def next_attempt_def start_session_def Let_def
      split: option.splits sum.split if_splits)



end
