(* ===== verification/PayloadView.thy ===== *)
theory PayloadView
  imports BrokerState Json "HOL-Library.AList"
begin

text \<open>
  The second half of \<open>logDecodedPayload\<close> and its helpers in \<open>internal/broker/broker.go\<close>: how the debug log shows
  a frame and the payload inside it. The protobuf library (unmarshalling, \<open>protojson\<close>) and the text of a
  \<open>float64\<close> are the record \<open>debug_lib\<close>; the choice of the decoder by port, the text and hex forms, the JSON
  values as Go keeps them, the insertion into the JSON tree and the label are the definitions.
\<close>

section \<open>Text and hex\<close>

definition formatHexPayload :: "bytes \<Rightarrow> string" where
  "formatHexPayload payload = (if payload = [] then ''0x'' else ''0x'' @ hex_encode payload)"

definition formatTextPayload :: "bytes \<Rightarrow> string" where
  "formatTextPayload payload =
     (if payload = [] then '''' else if \<not> utf8_Valid (string_of_bytes payload) then formatHexPayload payload
      else string_of_bytes payload)"

section \<open>JSON values in Go\<close>

text \<open>
  Unmarshalled into \<open>any\<close>, an object is a map, in which the last of several members with a name wins, and
  a number is a \<open>float64\<close>; marshalled again, the members come in the order of their names and a number with
  the digits of its \<open>float64\<close>. A number out of range is an error.
\<close>

definition go_map :: "(string \<times> json) list \<Rightarrow> (string \<times> json) list" where
  "go_map ms = sort_key (map byte_of \<circ> fst) (fold (\<lambda>(k, v). AList.update k v) ms [])"

fun go_numbers_ok :: "(string \<Rightarrow> string option) \<Rightarrow> json \<Rightarrow> bool" where
  "go_numbers_ok f (JNumber t) \<longleftrightarrow> f t \<noteq> None"
| "go_numbers_ok f (JArray vs) \<longleftrightarrow> list_all (go_numbers_ok f) vs"
| "go_numbers_ok f (JObject ms) \<longleftrightarrow> list_all (\<lambda>(k, v). go_numbers_ok f v) ms"
| "go_numbers_ok f v \<longleftrightarrow> True"

fun go_any :: "(string \<Rightarrow> string option) \<Rightarrow> json \<Rightarrow> json" where
  "go_any f (JNumber t) = JNumber (case f t of Some u \<Rightarrow> u | None \<Rightarrow> t)"
| "go_any f (JArray vs) = JArray (map (go_any f) vs)"
| "go_any f (JObject ms) = JObject (go_map (map (\<lambda>(k, v). (k, go_any f v)) ms))"
| "go_any f v = v"

definition unmarshal_any :: "(string \<Rightarrow> string option) \<Rightarrow> string \<Rightarrow> json option" where
  "unmarshal_any f s =
     (case json_Unmarshal s of
        Some v \<Rightarrow> if go_numbers_ok f v then Some (go_any f v) else None
      | None \<Rightarrow> None)"

section \<open>Payloads\<close>

datatype payload_type =
    PayPosition | PayUser | PayRouting | PayAdminMessage | PayWaypoint | PayKeyVerificationAdmin | PayPaxcount
  | PayStoreAndForward | PayStatusMessage | PayTelemetry | PayRouteDiscovery | PayNeighborInfo | PayMapReport
  | PayPowerStressMessage

record debug_lib =
  dl_FromRadio :: "FromRadio \<Rightarrow> string option"               \<comment> \<open>\<open>protojson\<close>\<close>
  dl_ToRadio :: "ToRadio \<Rightarrow> string option"
  dl_payload :: "payload_type \<Rightarrow> bytes \<Rightarrow> string option"    \<comment> \<open>unmarshalled, then \<open>protojson\<close>\<close>
  dl_float :: "string \<Rightarrow> string option"                        \<comment> \<open>a number as its \<open>float64\<close> is written\<close>

definition formatProtoPayload :: "debug_lib \<Rightarrow> payload_type \<Rightarrow> bytes \<Rightarrow> json option" where
  "formatProtoPayload L t payload =
     (if payload = [] then Some (JString ''<empty>'')
      else (case dl_payload L t payload of
              None \<Rightarrow> None
            | Some data \<Rightarrow>
                (case unmarshal_any (dl_float L) data of None \<Rightarrow> Some (JString data) | Some decoded \<Rightarrow> Some decoded)))"

definition port_type :: "PortNum \<Rightarrow> payload_type option" where
  "port_type port =
     map_of [(PortNum_POSITION_APP, PayPosition), (PortNum_NODEINFO_APP, PayUser), (PortNum_ROUTING_APP, PayRouting),
       (PortNum_ADMIN_APP, PayAdminMessage), (PortNum_WAYPOINT_APP, PayWaypoint),
       (PortNum_KEY_VERIFICATION_APP, PayKeyVerificationAdmin), (PortNum_PAXCOUNTER_APP, PayPaxcount),
       (PortNum_STORE_FORWARD_APP, PayStoreAndForward), (PortNum_NODE_STATUS_APP, PayStatusMessage),
       (PortNum_TELEMETRY_APP, PayTelemetry), (PortNum_TRACEROUTE_APP, PayRouteDiscovery),
       (PortNum_NEIGHBORINFO_APP, PayNeighborInfo), (PortNum_MAP_REPORT_APP, PayMapReport),
       (PortNum_POWERSTRESS_APP, PayPowerStressMessage)] port"

definition fallback_payload :: "bytes \<Rightarrow> json" where
  "fallback_payload payload = JString (if payload = [] then ''<empty>'' else formatHexPayload payload)"

definition decodeDataPayload :: "debug_lib \<Rightarrow> Data option \<Rightarrow> json option" where
  "decodeDataPayload L data =
     (case data of
        None \<Rightarrow> None
      | Some d \<Rightarrow>
          let port = Data_Portnum d; payload = Data_Payload d in
          if port \<in> {PortNum_TEXT_MESSAGE_APP, PortNum_DETECTION_SENSOR_APP, PortNum_ALERT_APP, PortNum_REPLY_APP,
                     PortNum_RANGE_TEST_APP}
          then Some (JString (formatTextPayload payload))
          else if port = PortNum_TEXT_MESSAGE_COMPRESSED_APP then Some (JString (formatHexPayload payload))
          else (case port_type port of
                  Some t \<Rightarrow> (case formatProtoPayload L t payload of
                              Some out \<Rightarrow> Some out | None \<Rightarrow> Some (fallback_payload payload))
                | None \<Rightarrow> Some (fallback_payload payload)))"

datatype debug_msg = MsgFromRadio FromRadio | MsgToRadio ToRadio

definition extractMeshPacket :: "debug_msg \<Rightarrow> MeshPacket option" where
  "extractMeshPacket msg =
     (case msg of MsgFromRadio m \<Rightarrow> FromRadio_GetPacket m | MsgToRadio m \<Rightarrow> ToRadio_GetPacket m)"

definition describeMeshPayload :: "debug_lib \<Rightarrow> debug_msg \<Rightarrow> json option" where
  "describeMeshPayload L msg =
     (case extractMeshPacket msg of
        None \<Rightarrow> None
      | Some p \<Rightarrow> decodeDataPayload L (MeshPacket_GetDecoded (Some p)))"

text \<open>The new text, none for an error; a JSON \<open>null\<close> leaves the Go map nil, in which nothing is found.\<close>

definition inject_tree :: "json \<Rightarrow> (string \<times> json) list \<Rightarrow> json option" where
  "inject_tree v root =
     (case map_of root ''packet'' of
        Some (JObject packet) \<Rightarrow>
          (case map_of packet ''decoded'' of
             Some (JObject dec) \<Rightarrow>
               Some (JObject (AList.update ''packet''
                 (JObject (AList.update ''decoded'' (JObject (go_map (AList.update ''payload_decoded'' v dec))) packet)) root))
           | _ \<Rightarrow> None)
      | _ \<Rightarrow> None)"

definition injectDecodedPayloadJSON :: "debug_lib \<Rightarrow> string \<Rightarrow> json \<Rightarrow> string option" where
  "injectDecodedPayloadJSON L data v =
     (case unmarshal_any (dl_float L) data of
        Some (JObject root) \<Rightarrow>
          (case inject_tree v root of None \<Rightarrow> Some data | Some t \<Rightarrow> Some (json_Marshal t))
      | Some JNull \<Rightarrow> Some data
      | _ \<Rightarrow> None)"

section \<open>The line\<close>

definition debug_unmarshal :: "'a codec_scheme \<Rightarrow> payloadKind \<Rightarrow> bytes \<Rightarrow> debug_msg option" where
  "debug_unmarshal E kind payload =
     (case kind of
        payloadFromRadio \<Rightarrow> map_option MsgFromRadio (unmarshal_FromRadio E payload)
      | payloadToRadio \<Rightarrow> map_option MsgToRadio (unmarshal_ToRadio E payload)
      | payloadUnknown \<Rightarrow> None)"

definition debug_label :: "string \<Rightarrow> string \<Rightarrow> debug_msg \<Rightarrow> string" where
  "debug_label direction addr msg =
     (let label = (if addr \<noteq> '''' then direction @ '' ['' @ addr @ '']'' else direction);
          variant = (case msg of MsgFromRadio m \<Rightarrow> protoVariantLabel_FromRadio m | MsgToRadio m \<Rightarrow> protoVariantLabel_ToRadio m)
      in if variant \<noteq> '''' then label @ '' <'' @ variant @ ''>'' else label)"

definition debug_line ::
  "debug_lib \<Rightarrow> 'a codec_scheme \<Rightarrow> string \<Rightarrow> string \<Rightarrow> bytes \<Rightarrow> payloadKind \<Rightarrow> string option" where
  "debug_line L E direction addr payload kind =
     (case debug_unmarshal E kind payload of
        None \<Rightarrow> None
      | Some msg \<Rightarrow>
          (case (case msg of MsgFromRadio m \<Rightarrow> dl_FromRadio L m | MsgToRadio m \<Rightarrow> dl_ToRadio L m) of
             None \<Rightarrow> None
           | Some data \<Rightarrow>
               let data = (case describeMeshPayload L msg of
                             None \<Rightarrow> data
                           | Some v \<Rightarrow> (case injectDecodedPayloadJSON L data v of Some updated \<Rightarrow> updated | None \<Rightarrow> data));
                   (decoded, truncated) = truncate_decoded data
               in Some (debug_label direction addr msg @ '' decoded: '' @ decoded @ truncated)))"

section \<open>What the log shows\<close>

text \<open>Every packet with decoded data is described, whatever its port and payload.\<close>

lemma decodeDataPayload_total: "decodeDataPayload L (Some d) \<noteq> None"
  by (simp add: decodeDataPayload_def Let_def split: option.split)

text \<open>The hex form loses nothing, and neither does the text form of valid UTF-8.\<close>

lemma formatHexPayload_inject: "formatHexPayload p = formatHexPayload q \<longleftrightarrow> p = q"
proof -
  have "hex_encode p = hex_encode q \<longleftrightarrow> p = q" for p q
  proof (induction p arbitrary: q)
    case Nil
    show ?case by (cases q) (simp_all add: hex_encode_def hex_byte_def)
  next
    case (Cons a p)
    show ?case
    proof (cases q)
      case (Cons b r)
      have "hex_encode (a # p) = hex_encode (b # r) \<longleftrightarrow> hex_byte a = hex_byte b \<and> hex_encode p = hex_encode r"
        by (simp add: hex_encode_def hex_byte_def)
      with Cons.IH Cons show ?thesis by (simp add: hex_byte_inject)
    qed (simp add: hex_encode_def hex_byte_def)
  qed
  moreover have "formatHexPayload p = ''0x'' @ hex_encode p" for p
    by (simp add: formatHexPayload_def hex_encode_def)
  ultimately show ?thesis by simp
qed

lemma formatTextPayload_valid:
  "utf8_Valid (string_of_bytes p) \<Longrightarrow> bytes_of_string (formatTextPayload p) = p"
  by (cases "p = []") (simp_all add: formatTextPayload_def, simp add: bytes_of_string_def)

text \<open>A map keeps the last value of every name, whatever the order.\<close>

lemma map_of_update_fold: "map_of (fold (\<lambda>(k, v). AList.update k v) ms acc) = map_of acc ++ map_of (rev ms)"
  by (induction ms arbitrary: acc) (auto simp: update_conv' map_add_def fun_eq_iff split: option.split)

lemma distinct_update_fold:
  "distinct (map fst acc) \<Longrightarrow> distinct (map fst (fold (\<lambda>(k, v). AList.update k v) ms acc))"
  by (induction ms arbitrary: acc) (auto simp: distinct_update)

lemma map_of_permuted:
  assumes "distinct (map fst xs)" and "mset ys = mset xs"
  shows "map_of ys = map_of xs"
proof -
  have "mset (map fst ys) = mset (map fst xs)" using assms(2) by simp
  then have d: "distinct (map fst ys)" using assms(1) mset_eq_imp_distinct_iff by blast
  with assms show ?thesis using map_of_inject_set mset_eq_setD by blast
qed

lemma map_of_go_map: "map_of (go_map ms) = map_of (rev ms)"
  unfolding go_map_def
  by (subst map_of_permuted [of "fold (\<lambda>(k, v). AList.update k v) ms []"])
    (simp_all add: distinct_update_fold map_of_update_fold)

text \<open>The insertion adds one member and keeps everything else.\<close>

lemma inject_tree_lookup:
  assumes "map_of root ''packet'' = Some (JObject packet)" and "map_of packet ''decoded'' = Some (JObject dec)"
    and "distinct (map fst dec)"
  obtains root' packet' dec' where "inject_tree v root = Some (JObject root')"
    and "map_of root' = (map_of root)(''packet'' \<mapsto> JObject packet')"
    and "map_of packet' = (map_of packet)(''decoded'' \<mapsto> JObject dec')"
    and "map_of dec' = (map_of dec)(''payload_decoded'' \<mapsto> v)"
proof -
  have "distinct (map fst (AList.update ''payload_decoded'' v dec))" using assms(3) by (rule distinct_update)
  then have "map_of (go_map (AList.update ''payload_decoded'' v dec)) = (map_of dec)(''payload_decoded'' \<mapsto> v)"
    by (simp add: map_of_go_map map_of_permuted [OF _ mset_rev] update_conv')
  with that assms(1,2) show thesis by (simp add: inject_tree_def update_conv')
qed

text \<open>What the log line holds before its truncation parses to the tree with the new member.\<close>

lemma inject_read_back:
  assumes "unmarshal_any (dl_float L) data = Some (JObject root)" and "inject_tree v root = Some t"
    and "json_wf t" and "json_depth t \<le> maxNestingDepth"
  shows "\<exists>out. injectDecodedPayloadJSON L data v = Some out \<and> json_Unmarshal out = Some (json_valid t)"
  using assms by (simp add: injectDecodedPayloadJSON_def json_Unmarshal_Marshal)

text \<open>The text after the label is at most the limit of 2048 characters and the note.\<close>

lemma debug_line_bounded:
  assumes "debug_line L E direction addr payload kind = Some line"
  obtains msg decoded tail where "debug_unmarshal E kind payload = Some msg"
    and "line = debug_label direction addr msg @ '' decoded: '' @ decoded @ tail"
    and "length decoded \<le> debugMaxDecoded" and "tail = '''' \<or> tail = '' ...(truncated 0 chars)''"
proof -
  have t: "length (fst (truncate_decoded s)) \<le> debugMaxDecoded \<and>
      (snd (truncate_decoded s) = '''' \<or> snd (truncate_decoded s) = '' ...(truncated 0 chars)'')" for s
    by (cases "debugMaxDecoded < length s") (simp_all add: truncate_decoded_note, simp add: truncate_decoded_def)
  from assms obtain msg data where m: "debug_unmarshal E kind payload = Some msg"
    "line = debug_label direction addr msg @ '' decoded: '' @ fst (truncate_decoded data) @ snd (truncate_decoded data)"
    by (auto simp: debug_line_def Let_def case_prod_unfold split: option.splits)
  with t [of data] show thesis by (intro that [of msg "fst (truncate_decoded data)" "snd (truncate_decoded data)"]) simp_all
qed

end
