(* ===== verification/Banner.thy ===== *)
theory Banner
  imports Config
begin

text \<open>\<open>PrintBanner\<close> of \<open>internal/config\<close>: the lines logged at the start, with the text of a \<open>time.Duration\<close>.\<close>

text \<open>The digits of a fraction, without the zeros at its end.\<close>

definition frac_digits :: "nat \<Rightarrow> int \<Rightarrow> string" where
  "frac_digits w v =
     (let ds = rev (dropWhile (\<lambda>c. c = CHR ''0'') (rev (replicate (w - length (Itoa v)) (CHR ''0'') @ Itoa v)))
      in if ds = [] then '''' else CHR ''.'' # ds)"

definition Duration_String :: "int \<Rightarrow> string" where
  "Duration_String d =
     (let u = \<bar>d\<bar>; sign = (if d < 0 then ''-'' else '''') in
      if u = 0 then ''0s''
      else if u < 1000 then sign @ Itoa u @ ''ns''
      else if u < 1000000 then sign @ Itoa (u div 1000) @ frac_digits 3 (u mod 1000) @ [CHR 0xC2, CHR 0xB5] @ ''s''
      else if u < 1000000000 then sign @ Itoa (u div 1000000) @ frac_digits 6 (u mod 1000000) @ ''ms''
      else
        let secs = u div 1000000000; mins = secs div 60; hours = mins div 60;
            s = Itoa (secs mod 60) @ frac_digits 9 (u mod 1000000000) @ ''s''
        in sign @ (if mins = 0 then s
                   else if hours = 0 then Itoa mins @ ''m'' @ s
                   else Itoa hours @ ''h'' @ Itoa (mins mod 60) @ ''m'' @ s))"

definition PrintBanner :: "Config \<Rightarrow> string \<Rightarrow> string list" where
  "PrintBanner cfg version =
     (let ver0 = TrimSpace version; ver = (if ver0 = '''' then ''unknown'' else ver0) in
      [''Meshtastic Serial Bridge v'' @ ver, ''  Device: '' @ cfg_Device cfg, ''  Baud: '' @ Itoa (cfg_Baud cfg),
       ''  TCP Port: '' @ Itoa (cfg_TCPPort cfg), ''  Reconnect Delay: '' @ Duration_String (cfg_ReconnectDelay cfg)] @
      (if cfg_ReadOnlyClients cfg then [''  Read-Only Clients: enabled''] else []) @
      (if cfg_Debug cfg
       then [''  Debug Logging: enabled (protobuf decode + [config] WantConfigId/ConfigCompleteId)''] else []) @
      (if cfg_WebUI cfg then [''  Web UI: http://'' @ cfg_WebUIAddr cfg] else []))"

text \<open>A delay of whole seconds, below a minute, reads as the number configured.\<close>

lemma banner_delay:
  assumes "0 < n" and "n < 60"
  shows "Duration_String (n * 1000000000) = Itoa n @ ''s''"
proof -
  have z: "Itoa 0 = ''0''" by (simp add: Itoa_def show_base.simps digit_char_def char_of_eq_iff)
  have f: "frac_digits 9 0 = ''''" by (simp add: frac_digits_def z Let_def numeral_eq_Suc)
  show ?thesis using assms by (simp add: Duration_String_def Let_def f)
qed

end
