(* ===== verification/HubCalls.thy ===== *)
theory HubCalls
  imports Chat
begin

text \<open>
  The methods of the hub at the grain of its mutex (\<open>hub.go\<close>, \<open>nodes.go\<close>, \<open>chat.go\<close>, \<open>packet_proto.go\<close>). A call is a
  program of lock operations, of loads and stores under the lock, and of channel operations outside it.
  \<open>run_alone\<close> runs a program with nobody else about: then every method does what its definition
  in \<open>Hub\<close> and \<open>Chat\<close>, which takes it as one step, says.
\<close>

section \<open>Programs\<close>

datatype prog =
    Stop
  | RLock prog
  | RUnlock prog
  | Lock prog
  | Unlock prog
  | Load "hub \<Rightarrow> prog"
  | Store "hub \<Rightarrow> hub" prog
  | Chan "hub \<Rightarrow> hub" prog    \<comment> \<open>an offer to a channel, or its close\<close>

primrec run_alone :: "prog \<Rightarrow> hub \<Rightarrow> hub" where
  "run_alone Stop h = h"
| "run_alone (RLock p) h = run_alone p h"
| "run_alone (RUnlock p) h = run_alone p h"
| "run_alone (Lock p) h = run_alone p h"
| "run_alone (Unlock p) h = run_alone p h"
| "run_alone (Load f) h = run_alone (f h) h"
| "run_alone (Store f p) h = run_alone p (f h)"
| "run_alone (Chan f p) h = run_alone p (f h)"

definition read_section :: "(hub \<Rightarrow> 'a) \<Rightarrow> ('a \<Rightarrow> prog) \<Rightarrow> prog" where
  "read_section f k = RLock (Load (\<lambda>h. RUnlock (k (f h))))"

definition write_section :: "(hub \<Rightarrow> hub) \<Rightarrow> prog \<Rightarrow> prog" where
  "write_section f k = Lock (Store f (Unlock k))"

text \<open>The loop over the copied subscribers; their order does not matter (\<open>topic_send_order\<close>).\<close>

primrec offer_all :: "(nat \<Rightarrow> hub \<Rightarrow> hub) \<Rightarrow> nat list \<Rightarrow> prog \<Rightarrow> prog" where
  "offer_all f [] k = k"
| "offer_all f (i # ns) k = Chan (f i) (offer_all f ns k)"

section \<open>Events, channels, status and subscriptions\<close>

definition offer_event :: "Event \<Rightarrow> nat \<Rightarrow> hub \<Rightarrow> hub" where
  "offer_event ev i h = h\<lparr>h_subscribers := topic_offer ev i (h_subscribers h)\<rparr>"

definition offer_chat :: "ChatMessage \<Rightarrow> nat \<Rightarrow> hub \<Rightarrow> hub" where
  "offer_chat msg i h = h\<lparr>h_chatSubs := topic_offer msg i (h_chatSubs h)\<rparr>"

definition offer_nodes :: "NodeView list \<Rightarrow> nat \<Rightarrow> hub \<Rightarrow> hub" where
  "offer_nodes ns i h = h\<lparr>h_nodeSubs := topic_offer ns i (h_nodeSubs h)\<rparr>"

definition publish_prog :: "Event \<Rightarrow> prog \<Rightarrow> prog" where
  "publish_prog ev k =
     Lock (Store (store_event ev) (Load (\<lambda>h. Unlock (offer_all (offer_event ev) (tp_subs (h_subscribers h)) k))))"

definition Record_prog :: "int \<Rightarrow> Event \<Rightarrow> prog \<Rightarrow> prog" where
  "Record_prog now ev k =
     (let ev1 = (if ev_Time ev = None then ev\<lparr>ev_Time := Some now\<rparr> else ev)
      in case ev_ChannelIndex ev1 of
           Some i \<Rightarrow>
             if ev_ChannelName ev1 = ''''
             then read_section (channel_name i) (\<lambda>f. publish_prog (ev1\<lparr>ev_ChannelName := f ''''\<rparr>) k)
             else publish_prog ev1 k
         | None \<Rightarrow> publish_prog ev1 k)"

definition UpdateChannel_prog :: "int \<Rightarrow> i32 \<Rightarrow> string \<Rightarrow> string \<Rightarrow> prog \<Rightarrow> prog" where
  "UpdateChannel_prog now index name role k = write_section (UpdateChannel now index name role) k"

definition SnapshotNodes_prog :: "int \<Rightarrow> (NodeView list \<Rightarrow> prog) \<Rightarrow> prog" where
  "SnapshotNodes_prog now k = read_section (SnapshotNodes now) k"

definition notifyNodes_prog :: "int \<Rightarrow> prog \<Rightarrow> prog" where
  "notifyNodes_prog now k =
     SnapshotNodes_prog now (\<lambda>ns. read_section (\<lambda>h. tp_subs (h_nodeSubs h)) (\<lambda>is. offer_all (offer_nodes ns) is k))"

definition SetStatus_prog :: "int \<Rightarrow> Status \<Rightarrow> prog \<Rightarrow> prog" where
  "SetStatus_prog now st k =
     write_section
       (\<lambda>h. let h1 = h\<lparr>h_status := st\<rparr>
            in if st_LocalNodeNum st \<noteq> 0 then h1\<lparr>h_localNodeNum := st_LocalNodeNum st\<rparr> else h1)
       (if st_LocalNodeNum st \<noteq> 0 then notifyNodes_prog now k else k)"

definition Snapshot_prog :: "(Event list \<times> ChannelInfo list \<times> Status \<Rightarrow> prog) \<Rightarrow> prog" where
  "Snapshot_prog k = read_section Snapshot k"

definition Subscribe_prog :: "int \<Rightarrow> prog \<Rightarrow> prog" where
  "Subscribe_prog buffer k = write_section (snd \<circ> Subscribe buffer) k"

definition SubscribeChat_prog :: "int \<Rightarrow> prog \<Rightarrow> prog" where
  "SubscribeChat_prog buffer k = write_section (snd \<circ> SubscribeChat buffer) k"

definition SubscribeNodes_prog :: "int \<Rightarrow> prog \<Rightarrow> prog" where
  "SubscribeNodes_prog buffer k = write_section (snd \<circ> SubscribeNodes buffer) k"

text \<open>The cancel functions close the channel after they have released the lock.\<close>

definition Unsubscribe_prog :: "nat \<Rightarrow> prog \<Rightarrow> prog" where
  "Unsubscribe_prog i k =
     write_section (\<lambda>h. h\<lparr>h_subscribers := topic_remove i (h_subscribers h)\<rparr>)
       (Chan (\<lambda>h. h\<lparr>h_subscribers := topic_close i (h_subscribers h)\<rparr>) k)"

definition UnsubscribeChat_prog :: "nat \<Rightarrow> prog \<Rightarrow> prog" where
  "UnsubscribeChat_prog i k =
     write_section (\<lambda>h. h\<lparr>h_chatSubs := topic_remove i (h_chatSubs h)\<rparr>)
       (Chan (\<lambda>h. h\<lparr>h_chatSubs := topic_close i (h_chatSubs h)\<rparr>) k)"

definition UnsubscribeNodes_prog :: "nat \<Rightarrow> prog \<Rightarrow> prog" where
  "UnsubscribeNodes_prog i k =
     write_section (\<lambda>h. h\<lparr>h_nodeSubs := topic_remove i (h_nodeSubs h)\<rparr>)
       (Chan (\<lambda>h. h\<lparr>h_nodeSubs := topic_close i (h_nodeSubs h)\<rparr>) k)"

section \<open>Nodes\<close>

definition SetLocalNodeNum_prog :: "int \<Rightarrow> u32 \<Rightarrow> prog \<Rightarrow> prog" where
  "SetLocalNodeNum_prog now num k =
     (if num = 0 then k
      else write_section
        (\<lambda>h. let h1 = h\<lparr>h_localNodeNum := num\<rparr>
             in case map_of (h_nodes h1) num of
                  Some n \<Rightarrow> h1\<lparr>h_nodes := AList.update num (n\<lparr>nv_IsLocal := True\<rparr>) (h_nodes h1)\<rparr>
                | None \<Rightarrow> h1)
        (notifyNodes_prog now k))"

definition UpdateNodeFromInfo_prog :: "'a names_scheme \<Rightarrow> int \<Rightarrow> NodeInfo option \<Rightarrow> prog \<Rightarrow> prog" where
  "UpdateNodeFromInfo_prog N now info k =
     (case info of
        None \<Rightarrow> k
      | Some i \<Rightarrow>
          if NodeInfo_Num i = 0 then k
          else write_section
            (\<lambda>h. h\<lparr>h_nodes := AList.update (NodeInfo_Num i)
               (node_from_info N now (h_localNodeNum h) i (the_node (NodeInfo_Num i) h)) (h_nodes h)\<rparr>)
            (notifyNodes_prog now k))"

definition touchNodeActivity_prog :: "int \<Rightarrow> u32 \<Rightarrow> f32 \<Rightarrow> int \<Rightarrow> prog \<Rightarrow> prog" where
  "touchNodeActivity_prog now num snr at k =
     (if num = 0 \<or> num = 0xFFFFFFFF then k
      else write_section
        (\<lambda>h. h\<lparr>h_nodes := AList.update num
           (touched_node num snr at (h_localNodeNum h) (the_node num h)) (h_nodes h)\<rparr>)
        (notifyNodes_prog now k))"

section \<open>Chats\<close>

definition cachePacketProto_prog :: "'a webenv_scheme \<Rightarrow> MeshPacket option \<Rightarrow> prog \<Rightarrow> prog" where
  "cachePacketProto_prog W pkt k =
     (case pkt of
        None \<Rightarrow> k
      | Some p \<Rightarrow>
          if MeshPacket_GetId pkt = 0 \<or> marshalProtoJSONFull (w_json_MeshPacket W p) = '''' then k
          else write_section (cachePacketProto W pkt) k)"

definition protoJSONForPacket_prog :: "'a webenv_scheme \<Rightarrow> MeshPacket option \<Rightarrow> (string \<Rightarrow> prog) \<Rightarrow> prog" where
  "protoJSONForPacket_prog W pkt k =
     (case pkt of
        None \<Rightarrow> k ''''
      | Some p \<Rightarrow>
          if MeshPacket_GetId pkt \<noteq> 0
          then read_section (\<lambda>h. map_of (h_packetProtos h) (MeshPacket_GetId pkt))
            (\<lambda>r. k (case r of Some s \<Rightarrow> s | None \<Rightarrow> marshalProtoJSONFull (w_json_MeshPacket W p)))
          else k (marshalProtoJSONFull (w_json_MeshPacket W p)))"

definition lookupPacketProto_prog :: "u32 \<Rightarrow> (string \<Rightarrow> prog) \<Rightarrow> prog" where
  "lookupPacketProto_prog i k = (if i = 0 then k '''' else read_section (lookupPacketProto i) k)"

definition notifyChat_prog :: "ChatMessage \<Rightarrow> prog \<Rightarrow> prog" where
  "notifyChat_prog msg k = read_section (\<lambda>h. tp_subs (h_chatSubs h)) (\<lambda>is. offer_all (offer_chat msg) is k)"

definition mergeDuplicateChat_prog :: "ChatMessage \<Rightarrow> (ChatMessage option \<Rightarrow> prog) \<Rightarrow> prog" where
  "mergeDuplicateChat_prog msg k =
     Lock (Load (\<lambda>h. Store (snd \<circ> mergeDuplicateChat msg) (Unlock (k (fst (mergeDuplicateChat msg h))))))"

definition isDuplicateChat_prog :: "ChatMessage \<Rightarrow> (bool \<Rightarrow> prog) \<Rightarrow> prog" where
  "isDuplicateChat_prog msg k = read_section (isDuplicateChat msg) k"

definition add_chat_prog :: "ChatMessage \<Rightarrow> prog \<Rightarrow> prog" where
  "add_chat_prog msg k =
     mergeDuplicateChat_prog msg (\<lambda>updated.
       case updated of
         Some u \<Rightarrow> notifyChat_prog u k
       | None \<Rightarrow> isDuplicateChat_prog msg (\<lambda>dup.
           if dup then k else write_section (store_chat msg) (notifyChat_prog msg k)))"

definition RecordChat_prog :: "int \<Rightarrow> ChatMessage \<Rightarrow> prog \<Rightarrow> prog" where
  "RecordChat_prog now msg k =
     (let msg1 = (if cm_Time msg = None then msg\<lparr>cm_Time := Some now\<rparr> else msg)
      in if cm_ChannelName msg1 = ''''
         then read_section (channel_name (cm_Channel msg1)) (\<lambda>f. add_chat_prog (msg1\<lparr>cm_ChannelName := f ''''\<rparr>) k)
         else add_chat_prog msg1 k)"

text \<open>The loop of \<open>SnapshotChat\<close>, inside its read lock; \<open>lookupPacketProto\<close> takes the lock again.\<close>

primrec fill_chats :: "ChatMessage list \<Rightarrow> (ChatMessage list \<Rightarrow> prog) \<Rightarrow> prog" where
  "fill_chats [] k = k []"
| "fill_chats (m # ms) k =
     (if cm_ProtoJSON m = '''' \<and> cm_PacketID m \<noteq> 0
      then lookupPacketProto_prog (cm_PacketID m)
        (\<lambda>s. fill_chats ms (\<lambda>out. k ((if s \<noteq> '''' then m\<lparr>cm_ProtoJSON := s\<rparr> else m) # out)))
      else fill_chats ms (\<lambda>out. k (m # out)))"

definition SnapshotChat_prog :: "(ChatMessage list \<Rightarrow> prog) \<Rightarrow> prog" where
  "SnapshotChat_prog k = RLock (Load (\<lambda>h. fill_chats (h_chats h) (\<lambda>out. RUnlock (k out))))"

definition TryRecordChatFromPacket_prog ::
  "'a webenv_scheme \<Rightarrow> int \<Rightarrow> MeshPacket option \<Rightarrow> u32 \<Rightarrow> prog \<Rightarrow> prog" where
  "TryRecordChatFromPacket_prog W now pkt localNode k =
     (case MeshPacket_GetDecoded pkt of
        None \<Rightarrow> k
      | Some d \<Rightarrow>
          if \<not> isChatPort (Data_Portnum d) then k
          else
            let text = chatTextFromData d in
            if text = '''' then k
            else protoJSONForPacket_prog W pkt (\<lambda>json. RecordChat_prog now
              \<lparr>cm_Time = Some now, cm_Text = text, cm_From = MeshPacket_GetFrom pkt,
               cm_To = MeshPacket_GetTo pkt, cm_Channel = MeshPacket_GetChannel pkt,
               cm_ChannelName = '''',
               cm_Outgoing = (localNode \<noteq> 0 \<and> MeshPacket_GetFrom pkt = localNode),
               cm_PacketID = MeshPacket_GetId pkt, cm_ProtoJSON = json\<rparr> k))"

section \<open>Run alone, a program is the method taken as one step\<close>

named_theorems alone "what a program does when it runs alone"

lemma alone_sections [alone]:
  "run_alone (read_section f k) h = run_alone (k (f h)) h"
  "run_alone (write_section g p) h = run_alone p (g h)"
  by (simp_all add: read_section_def write_section_def)

lemma alone_offer_all [alone]: "run_alone (offer_all f ns k) h = run_alone k (fold f ns h)"
  by (induction ns arbitrary: h) simp_all

lemma fold_offers [alone]:
  "fold (offer_event ev) ns h = h\<lparr>h_subscribers := topic_send ev ns (h_subscribers h)\<rparr>"
  "fold (offer_chat msg) ns h = h\<lparr>h_chatSubs := topic_send msg ns (h_chatSubs h)\<rparr>"
  "fold (offer_nodes vs) ns h = h\<lparr>h_nodeSubs := topic_send vs ns (h_nodeSubs h)\<rparr>"
  by (induction ns arbitrary: h) (simp_all add: topic_send_def offer_event_def offer_chat_def offer_nodes_def)

lemma alone_Record [alone]: "run_alone (Record_prog now ev k) h = run_alone k (Record now ev h)"
  by (simp add: Record_prog_def publish_prog_def Record_def Record_begin_def Record_end_def complete_event_def
      alone Let_def split: option.split)

lemma alone_notifyNodes [alone]: "run_alone (notifyNodes_prog now k) h = run_alone k (notifyNodes now h)"
  by (simp add: notifyNodes_prog_def SnapshotNodes_prog_def notifyNodes_def topic_publish_def alone)

lemma alone_hub [alone]:
  "run_alone (UpdateChannel_prog now i name role k) h = run_alone k (UpdateChannel now i name role h)"
  "run_alone (SetStatus_prog now st k) h = run_alone k (SetStatus now st h)"
  "run_alone (Snapshot_prog sk) h = run_alone (sk (Snapshot h)) h"
  "run_alone (Subscribe_prog n k) h = run_alone k (snd (Subscribe n h))"
  "run_alone (SubscribeChat_prog n k) h = run_alone k (snd (SubscribeChat n h))"
  "run_alone (SubscribeNodes_prog n k) h = run_alone k (snd (SubscribeNodes n h))"
  "run_alone (Unsubscribe_prog j k) h = run_alone k (Unsubscribe j h)"
  "run_alone (UnsubscribeChat_prog j k) h = run_alone k (UnsubscribeChat j h)"
  "run_alone (UnsubscribeNodes_prog j k) h = run_alone k (UnsubscribeNodes j h)"
  by (simp_all add: UpdateChannel_prog_def SetStatus_prog_def SetStatus_def Snapshot_prog_def Subscribe_prog_def
      SubscribeChat_prog_def SubscribeNodes_prog_def Unsubscribe_prog_def UnsubscribeChat_prog_def
      UnsubscribeNodes_prog_def Unsubscribe_def UnsubscribeChat_def UnsubscribeNodes_def topic_unsub_def alone Let_def)

lemma alone_nodes [alone]:
  "run_alone (SnapshotNodes_prog now nk) h = run_alone (nk (SnapshotNodes now h)) h"
  "run_alone (SetLocalNodeNum_prog now num k) h = run_alone k (SetLocalNodeNum now num h)"
  "run_alone (UpdateNodeFromInfo_prog N now info k) h = run_alone k (UpdateNodeFromInfo N now info h)"
  "run_alone (touchNodeActivity_prog now num snr at k) h = run_alone k (touchNodeActivity now num snr at h)"
  by (simp_all add: SnapshotNodes_prog_def SetLocalNodeNum_prog_def SetLocalNodeNum_def UpdateNodeFromInfo_prog_def
      UpdateNodeFromInfo_def touchNodeActivity_prog_def touchNodeActivity_def alone Let_def split: option.split)

lemma alone_protos [alone]:
  "run_alone (cachePacketProto_prog W pkt k) h = run_alone k (cachePacketProto W pkt h)"
  "run_alone (protoJSONForPacket_prog W pkt sk) h = run_alone (sk (protoJSONForPacket W pkt h)) h"
  "run_alone (lookupPacketProto_prog i sk) h = run_alone (sk (lookupPacketProto i h)) h"
  by (auto simp add: cachePacketProto_prog_def cachePacketProto_def protoJSONForPacket_prog_def protoJSONForPacket_def
      lookupPacketProto_prog_def lookupPacketProto_def alone Let_def split: option.split)

lemma alone_notifyChat [alone]: "run_alone (notifyChat_prog msg k) h = run_alone k (notifyChat msg h)"
  by (simp add: notifyChat_prog_def notifyChat_def topic_publish_def alone)

lemma alone_RecordChat [alone]: "run_alone (RecordChat_prog now msg k) h = run_alone k (RecordChat now msg h)"
proof -
  have "run_alone (add_chat_prog m k) h =
      run_alone k (case mergeDuplicateChat m h of
        (Some updated, h1) \<Rightarrow> notifyChat updated h1
      | (None, h1) \<Rightarrow> if isDuplicateChat m h1 then h1 else notifyChat m (store_chat m h1))" for m
    by (simp add: add_chat_prog_def mergeDuplicateChat_prog_def isDuplicateChat_prog_def alone
        split: prod.split option.split)
  then show ?thesis
    by (simp add: RecordChat_prog_def RecordChat_def complete_chat_def alone Let_def)
qed

lemma alone_fill_chats [alone]:
  "run_alone (fill_chats ms k) h =
     run_alone (k (map (\<lambda>m. if cm_ProtoJSON m = '''' \<and> cm_PacketID m \<noteq> 0
              then (let s = lookupPacketProto (cm_PacketID m) h
                    in if s \<noteq> '''' then m\<lparr>cm_ProtoJSON := s\<rparr> else m)
              else m) ms)) h"
  by (induction ms arbitrary: k) (simp_all add: alone Let_def)

lemma alone_SnapshotChat [alone]: "run_alone (SnapshotChat_prog ck) h = run_alone (ck (SnapshotChat h)) h"
  by (simp add: SnapshotChat_prog_def SnapshotChat_def alone)

lemma alone_TryRecordChat [alone]:
  "run_alone (TryRecordChatFromPacket_prog W now pkt l k) h = run_alone k (TryRecordChatFromPacket W now pkt l h)"
  by (simp add: TryRecordChatFromPacket_prog_def TryRecordChatFromPacket_def alone Let_def split: option.split)

section \<open>Calls\<close>

text \<open>
  A call of a goroutine. \<open>OpChannelName\<close> is the read section of \<open>enrichPacketEvent\<close> and \<open>SendChat\<close>; the provider that
  \<open>radio\<close> reads and \<open>SetRadioProvider\<close> writes is not in the record, so of these only the locks are left.
\<close>

datatype hub_op =
    OpRecord int Event
  | OpUpdateChannel int i32 string string
  | OpSetStatus int Status
  | OpSnapshot
  | OpSubscribe int
  | OpUnsubscribe nat
  | OpSetLocalNodeNum int u32
  | OpUpdateNodeFromInfo int "NodeInfo option"
  | OpTouchNodeActivity int u32 f32 int
  | OpSnapshotNodes int
  | OpSubscribeNodes int
  | OpUnsubscribeNodes nat
  | OpChannelName i32
  | OpRadio
  | OpSetRadioProvider
  | OpCachePacketProto "MeshPacket option"
  | OpRecordChat int ChatMessage
  | OpTryRecordChat int "MeshPacket option" u32
  | OpSnapshotChat
  | OpSubscribeChat int
  | OpUnsubscribeChat nat

primrec op_prog :: "'a webenv_scheme \<Rightarrow> hub_op \<Rightarrow> prog" where
  "op_prog W (OpRecord now ev) = Record_prog now ev Stop"
| "op_prog W (OpUpdateChannel now i name role) = UpdateChannel_prog now i name role Stop"
| "op_prog W (OpSetStatus now st) = SetStatus_prog now st Stop"
| "op_prog W OpSnapshot = Snapshot_prog (\<lambda>_. Stop)"
| "op_prog W (OpSubscribe n) = Subscribe_prog n Stop"
| "op_prog W (OpUnsubscribe i) = Unsubscribe_prog i Stop"
| "op_prog W (OpSetLocalNodeNum now num) = SetLocalNodeNum_prog now num Stop"
| "op_prog W (OpUpdateNodeFromInfo now info) = UpdateNodeFromInfo_prog W now info Stop"
| "op_prog W (OpTouchNodeActivity now num snr at) = touchNodeActivity_prog now num snr at Stop"
| "op_prog W (OpSnapshotNodes now) = SnapshotNodes_prog now (\<lambda>_. Stop)"
| "op_prog W (OpSubscribeNodes n) = SubscribeNodes_prog n Stop"
| "op_prog W (OpUnsubscribeNodes i) = UnsubscribeNodes_prog i Stop"
| "op_prog W (OpChannelName i) = read_section (channel_name i) (\<lambda>_. Stop)"
| "op_prog W OpRadio = RLock (RUnlock Stop)"
| "op_prog W OpSetRadioProvider = Lock (Unlock Stop)"
| "op_prog W (OpCachePacketProto pkt) = cachePacketProto_prog W pkt Stop"
| "op_prog W (OpRecordChat now msg) = RecordChat_prog now msg Stop"
| "op_prog W (OpTryRecordChat now pkt l) = TryRecordChatFromPacket_prog W now pkt l Stop"
| "op_prog W OpSnapshotChat = SnapshotChat_prog (\<lambda>_. Stop)"
| "op_prog W (OpSubscribeChat n) = SubscribeChat_prog n Stop"
| "op_prog W (OpUnsubscribeChat i) = UnsubscribeChat_prog i Stop"

text \<open>The call as one step.\<close>

primrec op_effect :: "'a webenv_scheme \<Rightarrow> hub_op \<Rightarrow> hub \<Rightarrow> hub" where
  "op_effect W (OpRecord now ev) h = Record now ev h"
| "op_effect W (OpUpdateChannel now i name role) h = UpdateChannel now i name role h"
| "op_effect W (OpSetStatus now st) h = SetStatus now st h"
| "op_effect W OpSnapshot h = h"
| "op_effect W (OpSubscribe n) h = snd (Subscribe n h)"
| "op_effect W (OpUnsubscribe i) h = Unsubscribe i h"
| "op_effect W (OpSetLocalNodeNum now num) h = SetLocalNodeNum now num h"
| "op_effect W (OpUpdateNodeFromInfo now info) h = UpdateNodeFromInfo W now info h"
| "op_effect W (OpTouchNodeActivity now num snr at) h = touchNodeActivity now num snr at h"
| "op_effect W (OpSnapshotNodes now) h = h"
| "op_effect W (OpSubscribeNodes n) h = snd (SubscribeNodes n h)"
| "op_effect W (OpUnsubscribeNodes i) h = UnsubscribeNodes i h"
| "op_effect W (OpChannelName i) h = h"
| "op_effect W OpRadio h = h"
| "op_effect W OpSetRadioProvider h = h"
| "op_effect W (OpCachePacketProto pkt) h = cachePacketProto W pkt h"
| "op_effect W (OpRecordChat now msg) h = RecordChat now msg h"
| "op_effect W (OpTryRecordChat now pkt l) h = TryRecordChatFromPacket W now pkt l h"
| "op_effect W OpSnapshotChat h = h"
| "op_effect W (OpSubscribeChat n) h = snd (SubscribeChat n h)"
| "op_effect W (OpUnsubscribeChat i) h = UnsubscribeChat i h"

lemma op_alone: "run_alone (op_prog W c) h = op_effect W c h"
  by (cases c) (simp_all add: alone)

section \<open>Locks are taken and released in pairs\<close>

text \<open>What the mutex protects: everything but the buffers of the channels.\<close>

definition protected ::
  "hub \<Rightarrow> hub \<times> nat list \<times> nat list \<times> nat list" where
  "protected h =
     (h\<lparr>h_subscribers := new_topic, h_chatSubs := new_topic, h_nodeSubs := new_topic\<rparr>,
      tp_subs (h_subscribers h), tp_subs (h_chatSubs h), tp_subs (h_nodeSubs h))"

text \<open>
  \<open>ok d p n w\<close>: a goroutine that holds \<open>n\<close> read locks, and the write lock if \<open>w\<close>, may run \<open>p\<close>; reads and writes happen
  under the lock, channel operations outside it, and a read lock is taken twice only if \<open>d\<close>.
\<close>

primrec ok :: "bool \<Rightarrow> prog \<Rightarrow> nat \<Rightarrow> bool \<Rightarrow> bool" where
  "ok d Stop n w \<longleftrightarrow> n = 0 \<and> \<not> w"
| "ok d (RLock p) n w \<longleftrightarrow> \<not> w \<and> (n = 0 \<or> d) \<and> ok d p (Suc n) False"
| "ok d (RUnlock p) n w \<longleftrightarrow> \<not> w \<and> 0 < n \<and> ok d p (n - 1) False"
| "ok d (Lock p) n w \<longleftrightarrow> n = 0 \<and> \<not> w \<and> ok d p 0 True"
| "ok d (Unlock p) n w \<longleftrightarrow> n = 0 \<and> w \<and> ok d p 0 False"
| "ok d (Load f) n w \<longleftrightarrow> (0 < n \<or> w) \<and> (\<forall>h. ok d (f h) n w)"
| "ok d (Store f p) n w \<longleftrightarrow> n = 0 \<and> w \<and> ok d p 0 True"
| "ok d (Chan f p) n w \<longleftrightarrow> n = 0 \<and> \<not> w \<and> (\<forall>h. protected (f h) = protected h) \<and> ok d p 0 False"

lemma ok_sections [simp]:
  "ok d (read_section f k) n w \<longleftrightarrow> \<not> w \<and> (n = 0 \<or> d) \<and> (\<forall>h. ok d (k (f h)) n False)"
  "ok d (write_section g p) n w \<longleftrightarrow> n = 0 \<and> \<not> w \<and> ok d p 0 False"
  by (auto simp: read_section_def write_section_def)

lemma topic_offer_subs [simp]: "tp_subs (topic_offer x i t) = tp_subs t"
  by (auto simp: topic_offer_def split: prod.split send_result.split)

lemma topic_close_subs [simp]: "tp_subs (topic_close i t) = tp_subs t"
  by (simp add: topic_close_def)

lemma ok_offer_all:
  assumes "\<And>i h. protected (f i h) = protected h" and "ok d k 0 False"
  shows "ok d (offer_all f ns k) 0 False"
  using assms by (induction ns) simp_all

lemma ok_offers [simp]:
  "ok d k 0 False \<Longrightarrow> ok d (offer_all (offer_event ev) ns k) 0 False"
  "ok d k 0 False \<Longrightarrow> ok d (offer_all (offer_chat msg) ns k) 0 False"
  "ok d k 0 False \<Longrightarrow> ok d (offer_all (offer_nodes vs) ns k) 0 False"
  by (rule ok_offer_all, simp_all add: protected_def offer_event_def offer_chat_def offer_nodes_def)+

lemma ok_notify [simp]:
  "ok d k 0 False \<Longrightarrow> ok d (notifyNodes_prog now k) 0 False"
  "ok d k 0 False \<Longrightarrow> ok d (notifyChat_prog msg k) 0 False"
  by (simp_all add: notifyNodes_prog_def SnapshotNodes_prog_def notifyChat_prog_def)

lemma ok_RecordChat [simp]: "ok d k 0 False \<Longrightarrow> ok d (RecordChat_prog now msg k) 0 False"
  by (simp add: RecordChat_prog_def add_chat_prog_def mergeDuplicateChat_prog_def isDuplicateChat_prog_def Let_def
      split: option.split)

lemma ok_fill_chats: "\<forall>out. ok True (k out) (Suc n) False \<Longrightarrow> ok True (fill_chats ms k) (Suc n) False"
  by (induction ms arbitrary: k) (simp_all add: lookupPacketProto_prog_def)

lemma ok_op: "ok (c = OpSnapshotChat) (op_prog W c) 0 False"
  by (cases c) (simp_all add: Record_prog_def publish_prog_def UpdateChannel_prog_def SetStatus_prog_def
      Snapshot_prog_def Subscribe_prog_def SubscribeChat_prog_def SubscribeNodes_prog_def Unsubscribe_prog_def
      UnsubscribeChat_prog_def UnsubscribeNodes_prog_def SetLocalNodeNum_prog_def UpdateNodeFromInfo_prog_def
      touchNodeActivity_prog_def SnapshotNodes_prog_def cachePacketProto_prog_def protoJSONForPacket_prog_def
      TryRecordChatFromPacket_prog_def SnapshotChat_prog_def ok_fill_chats protected_def Let_def split: option.split)

end
