(* ===== verification/HubLocks.thy ===== *)
theory HubLocks
  imports HubCalls
begin

text \<open>
  Any number of goroutines that call the hub, at the grain of its \<open>sync.RWMutex\<close>. The mutex is the one of the
  standard library: a writer that waits for readers keeps new readers out; they wait in a queue and all get the lock when the
  writer releases it. So a goroutine that asks for the read lock a second time can wait for itself:
  \<open>SnapshotChat\<close> does, and it is the only way in which the hub can hang.
\<close>

section \<open>State and steps\<close>

record rwmutex =
  rw_readers :: "nat list"          \<comment> \<open>holders of the read lock, as often as they hold it\<close>
  rw_writer :: "nat option"         \<comment> \<open>the writer, from its call of \<open>Lock\<close> on\<close>
  rw_writing :: bool                \<comment> \<open>it has the lock\<close>
  rw_queue :: "nat list"            \<comment> \<open>readers that wait for the writer\<close>

definition rw_free :: rwmutex where
  "rw_free = \<lparr>rw_readers = [], rw_writer = None, rw_writing = False, rw_queue = []\<rparr>"

record hubs =
  hs_hub :: hub
  hs_mu :: rwmutex
  hs_op :: "nat \<Rightarrow> hub_op option"   \<comment> \<open>the call a goroutine is in, or its last\<close>
  hs_prog :: "nat \<Rightarrow> prog"           \<comment> \<open>what is left of it\<close>

definition hubs_init :: "hub \<Rightarrow> hubs" where
  "hubs_init h = \<lparr>hs_hub = h, hs_mu = rw_free, hs_op = (\<lambda>_. None), hs_prog = (\<lambda>_. Stop)\<rparr>"

definition set_prog :: "nat \<Rightarrow> prog \<Rightarrow> hubs \<Rightarrow> hubs" where
  "set_prog g p s = s\<lparr>hs_prog := (hs_prog s)(g := p)\<rparr>"

text \<open>A reader that waited has the lock.\<close>

fun granted :: "prog \<Rightarrow> prog" where
  "granted (RLock p) = p"
| "granted p = p"

definition release_writer :: "rwmutex \<Rightarrow> rwmutex" where
  "release_writer m = \<lparr>rw_readers = rw_readers m @ rw_queue m, rw_writer = None, rw_writing = False, rw_queue = []\<rparr>"

inductive lock_step :: "'a webenv_scheme \<Rightarrow> nat \<Rightarrow> hubs \<Rightarrow> hubs \<Rightarrow> bool" for W :: "'a webenv_scheme" where
  Call: "hs_prog s g = Stop \<Longrightarrow>
    lock_step W g s (set_prog g (op_prog W c) (s\<lparr>hs_op := (hs_op s)(g := Some c)\<rparr>))"
| ReadLock: "hs_prog s g = RLock p \<Longrightarrow> rw_writer (hs_mu s) = None \<Longrightarrow>
    lock_step W g s (set_prog g p (s\<lparr>hs_mu := (hs_mu s)\<lparr>rw_readers := g # rw_readers (hs_mu s)\<rparr>\<rparr>))"
| ReadWait: "hs_prog s g = RLock p \<Longrightarrow> rw_writer (hs_mu s) \<noteq> None \<Longrightarrow> g \<notin> set (rw_queue (hs_mu s)) \<Longrightarrow>
    lock_step W g s (s\<lparr>hs_mu := (hs_mu s)\<lparr>rw_queue := rw_queue (hs_mu s) @ [g]\<rparr>\<rparr>)"
| ReadUnlock: "hs_prog s g = RUnlock p \<Longrightarrow>
    lock_step W g s (set_prog g p (s\<lparr>hs_mu := (hs_mu s)\<lparr>rw_readers := remove1 g (rw_readers (hs_mu s))\<rparr>\<rparr>))"
| WriteWait: "hs_prog s g = Lock p \<Longrightarrow> rw_writer (hs_mu s) = None \<Longrightarrow>
    lock_step W g s (s\<lparr>hs_mu := (hs_mu s)\<lparr>rw_writer := Some g\<rparr>\<rparr>)"
| WriteLock: "hs_prog s g = Lock p \<Longrightarrow> rw_writer (hs_mu s) = Some g \<Longrightarrow> rw_readers (hs_mu s) = [] \<Longrightarrow>
    lock_step W g s (set_prog g p (s\<lparr>hs_mu := (hs_mu s)\<lparr>rw_writing := True\<rparr>\<rparr>))"
| WriteUnlock: "hs_prog s g = Unlock p \<Longrightarrow>
    lock_step W g s (s\<lparr>hs_mu := release_writer (hs_mu s),
      hs_prog := (\<lambda>k. if k = g then p else if k \<in> set (rw_queue (hs_mu s)) then granted (hs_prog s k) else hs_prog s k)\<rparr>)"
| Read: "hs_prog s g = Load f \<Longrightarrow> lock_step W g s (set_prog g (f (hs_hub s)) s)"
| Write: "hs_prog s g = Store f p \<Longrightarrow> lock_step W g s (set_prog g p (s\<lparr>hs_hub := f (hs_hub s)\<rparr>))"
| OnChannel: "hs_prog s g = Chan f p \<Longrightarrow> lock_step W g s (set_prog g p (s\<lparr>hs_hub := f (hs_hub s)\<rparr>))"

definition hubs_next :: "'a webenv_scheme \<Rightarrow> hubs \<Rightarrow> hubs \<Rightarrow> bool" where
  "hubs_next W s t \<longleftrightarrow> (\<exists>g. lock_step W g s t)"

lemma set_prog_simps [simp]:
  "hs_prog (set_prog g p s) k = (if k = g then p else hs_prog s k)" "hs_hub (set_prog g p s) = hs_hub s"
  "hs_mu (set_prog g p s) = hs_mu s" "hs_op (set_prog g p s) = hs_op s"
  by (simp_all add: set_prog_def)

section \<open>The invariant\<close>

abbreviation readers :: "hubs \<Rightarrow> nat list" where
  "readers s \<equiv> rw_readers (hs_mu s)"

abbreviation queue :: "hubs \<Rightarrow> nat list" where
  "queue s \<equiv> rw_queue (hs_mu s)"

text \<open>The goroutine is inside a write section.\<close>

definition writes :: "hubs \<Rightarrow> nat \<Rightarrow> bool" where
  "writes s g \<longleftrightarrow> rw_writer (hs_mu s) = Some g \<and> rw_writing (hs_mu s)"

definition locks_inv :: "hubs \<Rightarrow> bool" where
  "locks_inv s \<longleftrightarrow>
     (\<forall>g. ok (hs_op s g = Some OpSnapshotChat) (hs_prog s g) (count_list (readers s) g) (writes s g)) \<and>
     (rw_writing (hs_mu s) \<longrightarrow> readers s = [] \<and> rw_writer (hs_mu s) \<noteq> None) \<and>
     (rw_writer (hs_mu s) = None \<longrightarrow> queue s = []) \<and>
     (\<forall>g. rw_writer (hs_mu s) = Some g \<and> \<not> rw_writing (hs_mu s) \<longrightarrow> (\<exists>p. hs_prog s g = Lock p)) \<and>
     (\<forall>g \<in> set (queue s). \<exists>p. hs_prog s g = RLock p) \<and> distinct (queue s)"

lemma locks_inv_init: "locks_inv (hubs_init h)"
  by (simp add: locks_inv_def hubs_init_def rw_free_def writes_def)

lemma locks_inv_ok:
  "locks_inv s \<Longrightarrow> ok (hs_op s g = Some OpSnapshotChat) (hs_prog s g) (count_list (readers s) g) (writes s g)"
  by (simp add: locks_inv_def)

lemma count_list_remove1 [simp]:
  "count_list (remove1 x xs) y = (if x = y then count_list xs y - 1 else count_list xs y)"
proof (cases "x = y \<and> count_list xs y = 0")
  case True
  then show ?thesis by (simp add: count_list_0_iff remove1_idem)
next
  case False
  then show ?thesis by (induction xs) auto
qed

lemma count_list_distinct: "distinct xs \<Longrightarrow> count_list xs x = (if x \<in> set xs then 1 else 0)"
  by (induction xs) auto

text \<open>A step that leaves the mutex alone.\<close>

lemma locks_inv_local:
  assumes "locks_inv s" and "\<And>p. hs_prog s g \<noteq> Lock p \<and> hs_prog s g \<noteq> RLock p"
    and "ok (hs_op s g = Some OpSnapshotChat) p (count_list (readers s) g) (writes s g)"
  shows "locks_inv (set_prog g p (s\<lparr>hs_hub := h\<rparr>))"
proof -
  have "writes (set_prog g p (s\<lparr>hs_hub := h\<rparr>)) k = writes s k" for k by (simp add: writes_def)
  with assms show ?thesis unfolding locks_inv_def by fastforce
qed

lemma locks_inv_step:
  assumes "lock_step W g s t" and "locks_inv s"
  shows "locks_inv t"
  using assms
proof (induction rule: lock_step.induct)
  case (Call s g c)
  then have "count_list (readers s) g = 0" "\<not> writes s g" using locks_inv_ok [OF Call(2), of g] by simp_all
  with Call show ?case using ok_op [of c W] by (auto simp: locks_inv_def writes_def)
next
  case (ReadLock s g p)
  then show ?case using locks_inv_ok [OF ReadLock(3), of g] by (auto simp: locks_inv_def writes_def)
next
  case (ReadWait s g p)
  then show ?case by (auto simp: locks_inv_def writes_def)
next
  case (ReadUnlock s g p)
  then show ?case using locks_inv_ok [OF ReadUnlock(2), of g] by (auto simp: locks_inv_def writes_def)
next
  case (WriteWait s g p)
  then show ?case using locks_inv_ok [OF WriteWait(3), of g] by (auto simp: locks_inv_def writes_def)
next
  case (WriteLock s g p)
  then show ?case using locks_inv_ok [OF WriteLock(4), of g] by (auto simp: locks_inv_def writes_def)
next
  case (WriteUnlock s g p)
  then have w: "writes s g" using locks_inv_ok [OF WriteUnlock(2), of g] by simp
  with WriteUnlock have r: "readers s = []" "g \<notin> set (queue s)" "distinct (queue s)"
    by (auto simp: locks_inv_def writes_def)
  have "ok (hs_op s k = Some OpSnapshotChat)
      (if k = g then p else if k \<in> set (queue s) then granted (hs_prog s k) else hs_prog s k)
      (count_list (queue s) k) False" for k
  proof (cases "k = g")
    case True
    with locks_inv_ok [OF WriteUnlock(2), of g] WriteUnlock(1) r(2,3) show ?thesis by (simp add: count_list_distinct)
  next
    case False
    with w have "\<not> writes s k" by (simp add: writes_def)
    with locks_inv_ok [OF WriteUnlock(2), of k] r(1) have "ok (hs_op s k = Some OpSnapshotChat) (hs_prog s k) 0 False" by simp
    moreover have "k \<in> set (queue s) \<Longrightarrow> \<exists>p. hs_prog s k = RLock p" using WriteUnlock(2) by (simp add: locks_inv_def)
    ultimately show ?thesis using False r(3) by (auto simp: count_list_distinct)
  qed
  with WriteUnlock r show ?case by (simp add: locks_inv_def writes_def release_writer_def)
next
  case (Read s g f)
  then have "ok (hs_op s g = Some OpSnapshotChat) (f (hs_hub s)) (count_list (readers s) g) (writes s g)"
    using locks_inv_ok [OF Read(2), of g] by simp
  with Read show ?case using locks_inv_local [of s g "f (hs_hub s)" "hs_hub s"] by simp
next
  case (Write s g f p)
  then have "ok (hs_op s g = Some OpSnapshotChat) (p) (count_list (readers s) g) (writes s g)"
    using locks_inv_ok [OF Write(2), of g] by simp
  with Write show ?case using locks_inv_local [of s g "p" "f (hs_hub s)"] by simp
next
  case (OnChannel s g f p)
  then have "ok (hs_op s g = Some OpSnapshotChat) (p) (count_list (readers s) g) (writes s g)"
    using locks_inv_ok [OF OnChannel(2), of g] by simp
  with OnChannel show ?case using locks_inv_local [of s g "p" "f (hs_hub s)"] by simp
qed

interpretation hubs_sys: invariant_system "\<lambda>s. \<exists>h. s = hubs_init h" "hubs_next W" locks_inv for W :: "'a webenv_scheme"
  by unfold_locales (auto simp: locks_inv_init hubs_next_def intro: locks_inv_step)

lemma reach_locks_inv: "(hubs_next W)\<^sup>*\<^sup>* (hubs_init h) s \<Longrightarrow> locks_inv s"
  by (rule hubs_sys.inv_reachable) blast+

text \<open>Readers and a writer exclude each other, and only a writer changes what the mutex protects.\<close>

lemma reader_excludes_writer: "locks_inv s \<Longrightarrow> g \<in> set (readers s) \<Longrightarrow> \<not> writes s k"
  by (auto simp: locks_inv_def writes_def)

lemma only_writers_write:
  assumes "lock_step W g s t" and "locks_inv s" and "\<not> writes s g"
  shows "protected (hs_hub t) = protected (hs_hub s)"
  using assms locks_inv_ok [OF assms(2), of g] by cases simp_all

section \<open>When the hub hangs\<close>

text \<open>A goroutine that holds the read lock waits for it, behind a writer.\<close>

definition hung :: "hubs \<Rightarrow> bool" where
  "hung s \<longleftrightarrow> (\<exists>g. g \<in> set (readers s) \<and> g \<in> set (queue s))"

lemma not_blocked:
  assumes "case hs_prog s g of Stop \<Rightarrow> False | RLock p \<Rightarrow> rw_writer (hs_mu s) = None \<or> g \<notin> set (queue s)
    | Lock p \<Rightarrow> rw_writer (hs_mu s) = None \<or> rw_writer (hs_mu s) = Some g \<and> readers s = [] | _ \<Rightarrow> True"
  shows "\<exists>k t. hs_prog s k \<noteq> Stop \<and> lock_step W k s t"
proof -
  have "\<exists>t. lock_step W g s t" using assms
    by (cases "hs_prog s g"; simp) (blast intro: lock_step.intros)+
  moreover have "hs_prog s g \<noteq> Stop" using assms by auto
  ultimately show ?thesis by blast
qed

lemma can_step_or_hung:
  assumes i: "locks_inv s" and "hs_prog s g0 \<noteq> Stop"
  shows "(\<exists>g t. hs_prog s g \<noteq> Stop \<and> lock_step W g s t) \<or> hung s"
proof (cases "rw_writer (hs_mu s)")
  case None
  with None assms(2) show ?thesis by (intro disjI1 not_blocked [of s g0]) (simp split: prog.split)
next
  case (Some w)
  show ?thesis
  proof (cases "rw_writing (hs_mu s)")
    case True
    with i Some have "writes s w" "count_list (readers s) w = 0" by (auto simp: writes_def locks_inv_def)
    with locks_inv_ok [OF i, of w] show ?thesis
      by (intro disjI1 not_blocked [of s w]) (cases "hs_prog s w"; simp)
  next
    case False
    with i Some obtain p where p: "hs_prog s w = Lock p" by (auto simp: locks_inv_def)
    show ?thesis
    proof (cases "readers s")
      case Nil
      with p Some show ?thesis by (intro disjI1 not_blocked [of s w]) simp
    next
      case (Cons g gs)
      then have "0 < count_list (readers s) g" "\<not> writes s g" using False by (simp_all add: writes_def)
      with locks_inv_ok [OF i, of g] have
        "g \<notin> set (queue s) \<Longrightarrow> \<exists>k t. hs_prog s k \<noteq> Stop \<and> lock_step W k s t"
        by (intro not_blocked [of s g]) (cases "hs_prog s g"; simp)
      with Cons show ?thesis by (auto simp: hung_def)
    qed
  qed
qed

lemma hung_state:
  assumes "locks_inv s" and "g \<in> set (readers s)" and "g \<in> set (queue s)"
  shows "hs_op s g = Some OpSnapshotChat" and "\<not> rw_writing (hs_mu s)"
    and "\<exists>w p. rw_writer (hs_mu s) = Some w \<and> hs_prog s w = Lock p"
proof -
  have "0 < count_list (readers s) g" using assms(2) by (simp add: count_list_0_iff flip: neq0_conv)
  moreover obtain p where "hs_prog s g = RLock p" using assms by (auto simp: locks_inv_def)
  ultimately show "hs_op s g = Some OpSnapshotChat" using locks_inv_ok [OF assms(1), of g] by simp
  show w: "\<not> rw_writing (hs_mu s)" using assms by (auto simp: locks_inv_def)
  with assms show "\<exists>w p. rw_writer (hs_mu s) = Some w \<and> hs_prog s w = Lock p" by (auto simp: locks_inv_def)
qed

text \<open>The goroutine asks for the lock.\<close>

definition asks :: "hubs \<Rightarrow> nat \<Rightarrow> bool" where
  "asks s g \<longleftrightarrow> (\<exists>p. hs_prog s g = RLock p \<or> hs_prog s g = Lock p)"

lemma hung_step:
  assumes "lock_step W g s t" and "locks_inv s" and "hung s"
  shows "hung t \<and> protected (hs_hub t) = protected (hs_hub s) \<and> (\<forall>k. asks s k \<longrightarrow> hs_prog t k = hs_prog s k)"
proof -
  obtain v where v: "v \<in> set (readers s)" "v \<in> set (queue s)" using assms(3) by (auto simp: hung_def)
  from hung_state [OF assms(2) v] obtain w p where w: "\<not> rw_writing (hs_mu s)" "rw_writer (hs_mu s) = Some w" by blast
  have nw: "\<not> writes s k" for k using w by (simp add: writes_def)
  obtain p where r: "hs_prog s v = RLock p" using assms(2) v(2) by (auto simp: locks_inv_def)
  have "hung t \<and> (\<forall>k. asks s k \<longrightarrow> hs_prog t k = hs_prog s k)"
    using assms(1)
  proof cases
    case (WriteUnlock p)
    with locks_inv_ok [OF assms(2), of g] nw show ?thesis by simp
  next
    case (ReadUnlock p)
    with r v have "v \<noteq> g" by auto
    then have "v \<in> set (remove1 g (readers s))" using v(1) by simp
    with ReadUnlock v(2) show ?thesis by (auto simp: hung_def asks_def)
  qed (use v w in \<open>auto simp: hung_def asks_def\<close>)
  with only_writers_write [OF assms(1,2) nw] show ?thesis by blast
qed

lemma hung_steps:
  assumes "(hubs_next W)\<^sup>*\<^sup>* s t" and "locks_inv s" and "hung s"
  shows "hung t \<and> protected (hs_hub t) = protected (hs_hub s) \<and> (\<forall>k. asks s k \<longrightarrow> hs_prog t k = hs_prog s k)"
  using assms(1)
proof (induction rule: rtranclp_induct)
  case (step t u)
  then obtain g where "lock_step W g t u" by (auto simp: hubs_next_def)
  moreover have "locks_inv t" using hubs_sys.inv_steps [OF step(1) assms(2)] .
  ultimately show ?case using step(3) hung_step by (metis asks_def)
qed (use assms(3) in simp)

section \<open>One goroutine at a time\<close>

text \<open>The mutex as a goroutine on its own has it: with \<open>n\<close> read locks, or the write lock.\<close>

definition solo_mu :: "nat \<Rightarrow> nat \<Rightarrow> bool \<Rightarrow> rwmutex" where
  "solo_mu g n w = \<lparr>rw_readers = replicate n g, rw_writer = (if w then Some g else None), rw_writing = w, rw_queue = []\<rparr>"

lemma solo_free: "solo_mu g 0 False = rw_free"
  by (simp add: solo_mu_def rw_free_def)

lemma next_step: "lock_step W g s t \<Longrightarrow> hubs_next W s t"
  by (auto simp: hubs_next_def)

lemma one_more: "(hubs_next W)\<^sup>*\<^sup>* r s \<Longrightarrow> lock_step W g s t \<Longrightarrow> (hubs_next W)\<^sup>*\<^sup>* r t"
  by (meson next_step rtranclp.rtrancl_into_rtrancl)

text \<open>Such a goroutine runs its program to the end, and the hub is changed as by \<open>run_alone\<close>.\<close>

lemma solo_next:
  assumes "lock_step W g s (set_prog g p (s\<lparr>hs_hub := h, hs_mu := solo_mu g n w\<rparr>))" (is "lock_step W g s ?t")
    and "\<And>s. hs_prog s g = p \<Longrightarrow> hs_mu s = solo_mu g n w \<Longrightarrow>
      (hubs_next W)\<^sup>*\<^sup>* s (set_prog g Stop (s\<lparr>hs_hub := run_alone p (hs_hub s), hs_mu := rw_free\<rparr>))"
  shows "(hubs_next W)\<^sup>*\<^sup>* s (set_prog g Stop (s\<lparr>hs_hub := run_alone p h, hs_mu := rw_free\<rparr>))"
proof -
  have "(hubs_next W)\<^sup>*\<^sup>* ?t (set_prog g Stop (?t\<lparr>hs_hub := run_alone p (hs_hub ?t), hs_mu := rw_free\<rparr>))"
    by (rule assms(2)) simp_all
  moreover have "set_prog g Stop (?t\<lparr>hs_hub := run_alone p (hs_hub ?t), hs_mu := rw_free\<rparr>) =
      set_prog g Stop (s\<lparr>hs_hub := run_alone p h, hs_mu := rw_free\<rparr>)" by (simp add: set_prog_def)
  ultimately show ?thesis using next_step [OF assms(1)] by (metis converse_rtranclp_into_rtranclp)
qed

lemma solo_steps:
  assumes "hs_mu s = solo_mu g n w"
  shows "hs_prog s g = RLock p \<Longrightarrow> \<not> w \<Longrightarrow> lock_step W g s (set_prog g p (s\<lparr>hs_hub := hs_hub s, hs_mu := solo_mu g (Suc n) False\<rparr>))"
    and "hs_prog s g = RUnlock p \<Longrightarrow> \<not> w \<Longrightarrow> 0 < n \<Longrightarrow>
      lock_step W g s (set_prog g p (s\<lparr>hs_hub := hs_hub s, hs_mu := solo_mu g (n - 1) False\<rparr>))"
    and "hs_prog s g = Unlock p \<Longrightarrow> w \<Longrightarrow> n = 0 \<Longrightarrow>
      lock_step W g s (set_prog g p (s\<lparr>hs_hub := hs_hub s, hs_mu := solo_mu g 0 False\<rparr>))"
    and "hs_prog s g = Load f \<Longrightarrow> lock_step W g s (set_prog g (f (hs_hub s)) (s\<lparr>hs_hub := hs_hub s, hs_mu := solo_mu g n w\<rparr>))"
    and "hs_prog s g = Store e p \<Longrightarrow> lock_step W g s (set_prog g p (s\<lparr>hs_hub := e (hs_hub s), hs_mu := solo_mu g n w\<rparr>))"
    and "hs_prog s g = Chan e p \<Longrightarrow> lock_step W g s (set_prog g p (s\<lparr>hs_hub := e (hs_hub s), hs_mu := solo_mu g n w\<rparr>))"
proof -
  show "lock_step W g s (set_prog g p (s\<lparr>hs_hub := hs_hub s, hs_mu := solo_mu g (Suc n) False\<rparr>))"
    if "hs_prog s g = RLock p" "\<not> w" using ReadLock [OF that(1)] that(2) assms by (simp add: solo_mu_def)
  show "lock_step W g s (set_prog g p (s\<lparr>hs_hub := hs_hub s, hs_mu := solo_mu g (n - 1) False\<rparr>))"
    if "hs_prog s g = RUnlock p" "\<not> w" "0 < n"
    using ReadUnlock [OF that(1)] that(2,3) assms by (cases n) (simp_all add: solo_mu_def)
  show "lock_step W g s (set_prog g p (s\<lparr>hs_hub := hs_hub s, hs_mu := solo_mu g 0 False\<rparr>))"
    if "hs_prog s g = Unlock p" "w" "n = 0"
    using WriteUnlock [OF that(1)] that(2,3) assms
    by (simp add: solo_mu_def release_writer_def set_prog_def fun_upd_def cong: if_cong)
  have same: "s\<lparr>hs_hub := h, hs_mu := solo_mu g n w\<rparr> = s\<lparr>hs_hub := h\<rparr>" for h using assms by simp
  show "lock_step W g s (set_prog g (f (hs_hub s)) (s\<lparr>hs_hub := hs_hub s, hs_mu := solo_mu g n w\<rparr>))"
    if "hs_prog s g = Load f" using Read [OF that] by (subst same) simp
  show "lock_step W g s (set_prog g p (s\<lparr>hs_hub := e (hs_hub s), hs_mu := solo_mu g n w\<rparr>))"
    if "hs_prog s g = Store e p" using Write [OF that] by (simp only: same)
  show "lock_step W g s (set_prog g p (s\<lparr>hs_hub := e (hs_hub s), hs_mu := solo_mu g n w\<rparr>))"
    if "hs_prog s g = Chan e p" using OnChannel [OF that] by (simp only: same)
qed

lemma solo_lock:
  assumes "hs_mu s = rw_free" and "hs_prog s g = Lock p"
  shows "(hubs_next W)\<^sup>*\<^sup>* s (set_prog g p (s\<lparr>hs_hub := hs_hub s, hs_mu := solo_mu g 0 True\<rparr>))"
proof -
  let ?t = "s\<lparr>hs_mu := (hs_mu s)\<lparr>rw_writer := Some g\<rparr>\<rparr>"
  have "lock_step W g s ?t" using assms by (intro WriteWait) (simp_all add: rw_free_def)
  moreover have "lock_step W g ?t (set_prog g p (s\<lparr>hs_hub := hs_hub s, hs_mu := solo_mu g 0 True\<rparr>))"
    using WriteLock [of ?t g p W] assms by (simp add: rw_free_def solo_mu_def)
  ultimately show ?thesis by (meson next_step converse_rtranclp_into_rtranclp r_into_rtranclp)
qed

lemma solo_run:
  assumes "ok d p n w" and "hs_prog s g = p" and "hs_mu s = solo_mu g n w"
  shows "(hubs_next W)\<^sup>*\<^sup>* s (set_prog g Stop (s\<lparr>hs_hub := run_alone p (hs_hub s), hs_mu := rw_free\<rparr>))"
  using assms
proof (induction p arbitrary: s n w)
  case Stop
  then have "set_prog g Stop (s\<lparr>hs_hub := run_alone Stop (hs_hub s), hs_mu := rw_free\<rparr>) = s"
    by (simp add: set_prog_def solo_free fun_upd_idem)
  then show ?case by simp
next
  case (RLock p)
  then have "\<not> w" "ok d p (Suc n) False" by simp_all
  with solo_next [OF solo_steps(1) [OF RLock.prems(3,2)] RLock.IH] show ?case by simp
next
  case (RUnlock p)
  then have "\<not> w" "0 < n" "ok d p (n - 1) False" by simp_all
  with solo_next [OF solo_steps(2) [OF RUnlock.prems(3,2)] RUnlock.IH] show ?case by simp
next
  case (Lock p)
  let ?t = "set_prog g p (s\<lparr>hs_hub := hs_hub s, hs_mu := solo_mu g 0 True\<rparr>)"
  have "(hubs_next W)\<^sup>*\<^sup>* s ?t" using Lock.prems by (intro solo_lock) (simp_all add: solo_free)
  moreover have "(hubs_next W)\<^sup>*\<^sup>* ?t (set_prog g Stop (?t\<lparr>hs_hub := run_alone p (hs_hub s), hs_mu := rw_free\<rparr>))"
    using Lock.IH [of 0 True ?t] Lock.prems by simp
  ultimately show ?case by (simp add: set_prog_def)
next
  case (Unlock p)
  then have "w" "n = 0" "ok d p 0 False" by simp_all
  with solo_next [OF solo_steps(3) [OF Unlock.prems(3,2)] Unlock.IH] show ?case by simp
next
  case (Load f)
  then have "ok d (f (hs_hub s)) n w" by simp
  with solo_next [OF solo_steps(4) [OF Load.prems(3,2)] Load.IH] show ?case by simp
next
  case (Store e p)
  then have "w" "n = 0" "ok d p 0 True" by simp_all
  with solo_next [OF solo_steps(5) [OF Store.prems(3,2)] Store.IH] show ?case by simp
next
  case (Chan e p)
  then have "\<not> w" "n = 0" "ok d p 0 False" by simp_all
  with solo_next [OF solo_steps(6) [OF Chan.prems(3,2)] Chan.IH] show ?case by simp
qed

end
