(* ===== verification/HubRaces.thy ===== *)
theory HubRaces
  imports HubLocks
begin

text \<open>
  What the hub's locks promise and what they do not: a call that runs alone is the one step of \<open>Hub\<close> and \<open>Chat\<close>; the hub
  hangs only in \<open>SnapshotChat\<close>, and then for good; two goroutines can record one chat message twice.
\<close>

section \<open>Sections with the mutex free\<close>

lemma free_read:
  assumes "hs_mu s = rw_free" and "hs_prog s g = read_section f k"
  shows "(hubs_next W)\<^sup>*\<^sup>* s (set_prog g (k (f (hs_hub s))) s)"
proof -
  let ?a = "set_prog g (Load (\<lambda>h. RUnlock (k (f h)))) (s\<lparr>hs_hub := hs_hub s, hs_mu := solo_mu g (Suc 0) False\<rparr>)"
  let ?b = "set_prog g (RUnlock (k (f (hs_hub ?a)))) (?a\<lparr>hs_hub := hs_hub ?a, hs_mu := solo_mu g (Suc 0) False\<rparr>)"
  let ?c = "set_prog g (k (f (hs_hub ?a))) (?b\<lparr>hs_hub := hs_hub ?b, hs_mu := solo_mu g (Suc 0 - 1) False\<rparr>)"
  have a: "lock_step W g s ?a"
    using solo_steps(1) [of s g 0 False "Load (\<lambda>h. RUnlock (k (f h)))" W] assms by (simp add: solo_free read_section_def)
  have b: "lock_step W g ?a ?b" by (rule solo_steps(4)) simp_all
  have c: "lock_step W g ?b ?c" by (rule solo_steps(2) [where w = False]) simp_all
  have "(hubs_next W)\<^sup>*\<^sup>* s ?c" using a b c next_step by (meson r_into_rtranclp rtranclp.rtrancl_into_rtrancl)
  moreover have "?c = set_prog g (k (f (hs_hub s))) s" using assms(1) by (simp add: set_prog_def solo_free)
  ultimately show ?thesis by (simp only:)
qed

lemma free_write:
  assumes "hs_mu s = rw_free" and "hs_prog s g = write_section f k"
  shows "(hubs_next W)\<^sup>*\<^sup>* s (set_prog g k (s\<lparr>hs_hub := f (hs_hub s)\<rparr>))"
proof -
  let ?a = "set_prog g (Store f (Unlock k)) (s\<lparr>hs_hub := hs_hub s, hs_mu := solo_mu g 0 True\<rparr>)"
  let ?b = "set_prog g (Unlock k) (?a\<lparr>hs_hub := f (hs_hub ?a), hs_mu := solo_mu g 0 True\<rparr>)"
  let ?c = "set_prog g k (?b\<lparr>hs_hub := hs_hub ?b, hs_mu := solo_mu g 0 False\<rparr>)"
  have a: "(hubs_next W)\<^sup>*\<^sup>* s ?a" using assms by (intro solo_lock) (simp_all add: write_section_def)
  have b: "lock_step W g ?a ?b" by (rule solo_steps(5)) simp_all
  have c: "lock_step W g ?b ?c" by (rule solo_steps(3)) simp_all
  have "(hubs_next W)\<^sup>*\<^sup>* s ?c" using a b c next_step by (meson rtranclp.rtrancl_into_rtrancl)
  moreover have "?c = set_prog g k (s\<lparr>hs_hub := f (hs_hub s)\<rparr>)" using assms(1) by (simp add: set_prog_def solo_free)
  ultimately show ?thesis by (simp only:)
qed

lemma free_merge:
  assumes "hs_mu s = rw_free" and "hs_prog s g = mergeDuplicateChat_prog m k"
    and "mergeDuplicateChat m (hs_hub s) = (r, h)"
  shows "(hubs_next W)\<^sup>*\<^sup>* s (set_prog g (k r) (s\<lparr>hs_hub := h\<rparr>))"
proof -
  define p where "p = (\<lambda>h. Store (snd \<circ> mergeDuplicateChat m) (Unlock (k (fst (mergeDuplicateChat m h)))))"
  let ?a = "set_prog g (Load p) (s\<lparr>hs_hub := hs_hub s, hs_mu := solo_mu g 0 True\<rparr>)"
  let ?b = "set_prog g (p (hs_hub ?a)) (?a\<lparr>hs_hub := hs_hub ?a, hs_mu := solo_mu g 0 True\<rparr>)"
  let ?c = "set_prog g (Unlock (k r)) (?b\<lparr>hs_hub := (snd \<circ> mergeDuplicateChat m) (hs_hub ?b), hs_mu := solo_mu g 0 True\<rparr>)"
  let ?d = "set_prog g (k r) (?c\<lparr>hs_hub := hs_hub ?c, hs_mu := solo_mu g 0 False\<rparr>)"
  have a: "(hubs_next W)\<^sup>*\<^sup>* s ?a" using assms(1,2) by (intro solo_lock) (simp_all add: mergeDuplicateChat_prog_def p_def o_def)
  have b: "lock_step W g ?a ?b" by (rule solo_steps(4)) simp_all
  have c: "lock_step W g ?b ?c" by (rule solo_steps(5)) (simp_all add: assms(3) p_def o_def)
  have d: "lock_step W g ?c ?d" by (rule solo_steps(3)) simp_all
  have "(hubs_next W)\<^sup>*\<^sup>* s ?d" using a b c d next_step by (meson rtranclp.rtrancl_into_rtrancl)
  moreover have "?d = set_prog g (k r) (s\<lparr>hs_hub := h\<rparr>)" using assms(1,3) by (simp add: set_prog_def solo_free)
  ultimately show ?thesis by (simp only:)
qed

section \<open>A call alone\<close>

lemma call_alone:
  assumes "hs_prog s g = Stop" and "hs_mu s = rw_free"
  shows "(hubs_next W)\<^sup>*\<^sup>* s (s\<lparr>hs_hub := op_effect W c (hs_hub s), hs_op := (hs_op s)(g := Some c)\<rparr>)"
proof -
  let ?t = "set_prog g (op_prog W c) (s\<lparr>hs_op := (hs_op s)(g := Some c)\<rparr>)"
  have "(hubs_next W)\<^sup>*\<^sup>* ?t (set_prog g Stop (?t\<lparr>hs_hub := run_alone (op_prog W c) (hs_hub ?t), hs_mu := rw_free\<rparr>))"
    by (rule solo_run [OF ok_op]) (simp_all add: assms(2) solo_free)
  moreover have "set_prog g Stop (?t\<lparr>hs_hub := run_alone (op_prog W c) (hs_hub ?t), hs_mu := rw_free\<rparr>) =
      s\<lparr>hs_hub := op_effect W c (hs_hub s), hs_op := (hs_op s)(g := Some c)\<rparr>"
    using assms by (simp add: set_prog_def op_alone fun_upd_idem)
  ultimately show ?thesis using next_step [OF Call [OF assms(1)]] by (metis converse_rtranclp_into_rtranclp)
qed


definition sample_names :: webenv where
  "sample_names = \<lparr>nm_HwModel = (\<lambda>_. ''''), nm_Role = (\<lambda>_. ''''), nm_ChannelRole = (\<lambda>_. ''''), nm_PortNum = (\<lambda>_. ''''),
     w_json_FromRadio = (\<lambda>_. None), w_json_ToRadio = (\<lambda>_. None), w_json_MeshPacket = (\<lambda>_. None), w_evict_order = id\<rparr>"

definition sample_message :: ChatMessage where
  "sample_message = \<lparr>cm_Time = Some 1, cm_Text = ''hi'', cm_From = 1, cm_To = 2, cm_Channel = 0,
     cm_ChannelName = ''c'', cm_Outgoing = False, cm_PacketID = 5, cm_ProtoJSON = ''''\<rparr>"

lemma sample_chats: "h_chats (RecordChat 1 sample_message NewHub) = [sample_message]"
  by (simp add: RecordChat_def complete_chat_def mergeDuplicateChat_def find_duplicate_def isDuplicateChat_def
      store_chat_def notifyChat_def NewHub_def keep_last_def defaultMaxChat_def sample_message_def Let_def)


section \<open>The hang\<close>

text \<open>
  C27: the hub hangs in one way only. With any number of goroutines in any of its methods, as long as a call has
  not returned, one of the calls can go on; or else a goroutine in \<open>SnapshotChat\<close> holds the read lock
  and waits for it again, behind a writer that waits for the readers.
\<close>

theorem hub_hangs_only_in_SnapshotChat:
  assumes "(hubs_next W)\<^sup>*\<^sup>* (hubs_init h) s" and "hs_prog s g0 \<noteq> Stop"
  shows "(\<exists>g t. hs_prog s g \<noteq> Stop \<and> lock_step W g s t) \<or>
    (\<exists>g w p. hs_op s g = Some OpSnapshotChat \<and> g \<in> set (rw_readers (hs_mu s)) \<and> g \<in> set (rw_queue (hs_mu s)) \<and>
       rw_writer (hs_mu s) = Some w \<and> hs_prog s w = Lock p)"
proof -
  have i: "locks_inv s" using assms(1) by (rule reach_locks_inv)
  from can_step_or_hung [OF i assms(2), of W] show ?thesis
    unfolding hung_def using hung_state [OF i] by blast
qed

text \<open>
  C28: such a hang is final. From then on no call of the hub gets the lock, whichever goroutines call it: whoever asks
  for it stays where it is, the hung goroutine included, and nothing that the mutex protects changes any more.
\<close>

theorem hub_hang_is_final:
  assumes "(hubs_next W)\<^sup>*\<^sup>* (hubs_init h) s" and "g \<in> set (rw_readers (hs_mu s))" and "g \<in> set (rw_queue (hs_mu s))"
    and "(hubs_next W)\<^sup>*\<^sup>* s t"
  shows "protected (hs_hub t) = protected (hs_hub s) \<and> (\<forall>k. \<not> writes t k) \<and>
    (\<forall>k p. hs_prog s k = RLock p \<or> hs_prog s k = Lock p \<longrightarrow> hs_prog t k = hs_prog s k)"
proof -
  have i: "locks_inv s" "locks_inv t"
    using assms(1,4) by (auto intro: reach_locks_inv rtranclp_trans)
  from hung_steps [OF assms(4) i(1)] assms(2,3) have r: "hung t" "protected (hs_hub t) = protected (hs_hub s)"
    "\<forall>k. asks s k \<longrightarrow> hs_prog t k = hs_prog s k" unfolding hung_def by blast+
  moreover have "\<forall>k. \<not> writes t k" using r(1) reader_excludes_writer [OF i(2)] by (auto simp: hung_def)
  ultimately show ?thesis by (auto simp: asks_def)
qed

text \<open>A browser asks for the page while a channel definition comes in.\<close>

lemma sample_hang:
  "\<exists>s p r. (hubs_next sample_names)\<^sup>*\<^sup>* (hubs_init NewHub) s \<and> rw_readers (hs_mu s) = [0] \<and>
     rw_queue (hs_mu s) = [0] \<and> rw_writer (hs_mu s) = Some 1 \<and> hs_prog s 1 = Lock p \<and> hs_prog s 0 = RLock r \<and>
     hs_op s 1 = Some (OpUpdateChannel 7 0 ''c'' ''r'') \<and> (\<forall>g. g \<noteq> 0 \<and> g \<noteq> 1 \<longrightarrow> hs_prog s g = Stop)"
proof -
  let ?W = sample_names
  let ?p = "fill_chats [sample_message] (\<lambda>out. RUnlock Stop)"
  let ?a = "(hubs_init NewHub)\<lparr>hs_hub := op_effect ?W (OpRecordChat 1 sample_message) (hs_hub (hubs_init NewHub)),
     hs_op := (hs_op (hubs_init NewHub))(0 := Some (OpRecordChat 1 sample_message))\<rparr>"
  have a: "(hubs_next ?W)\<^sup>*\<^sup>* (hubs_init NewHub) ?a" by (rule call_alone) (simp_all add: hubs_init_def)
  have ha: "h_chats (hs_hub ?a) = [sample_message]" "hs_mu ?a = rw_free" "hs_prog ?a = (\<lambda>_. Stop)"
    using sample_chats by (simp_all add: hubs_init_def)
  let ?b = "set_prog 0 (op_prog ?W OpSnapshotChat) (?a\<lparr>hs_op := (hs_op ?a)(0 := Some OpSnapshotChat)\<rparr>)"
  have b: "lock_step ?W 0 ?a ?b" by (rule Call) (simp add: hubs_init_def)
  obtain c where c: "lock_step ?W 0 ?b c" "rw_readers (hs_mu c) = [0]" "rw_writer (hs_mu c) = None" "rw_queue (hs_mu c) = []"
    "hs_hub c = hs_hub ?a" "hs_prog c 0 = Load (\<lambda>h. fill_chats (h_chats h) (\<lambda>out. RUnlock Stop))" "hs_prog c 1 = Stop"
    "hs_op c = hs_op ?b" "\<forall>g. g \<noteq> 0 \<longrightarrow> hs_prog c g = Stop"
    using ReadLock [of ?b 0 "Load (\<lambda>h. fill_chats (h_chats h) (\<lambda>out. RUnlock Stop))" ?W] ha
    by (auto simp: SnapshotChat_prog_def rw_free_def)
  let ?d = "set_prog 0 ?p c"
  have d: "lock_step ?W 0 c ?d" using Read [OF c(6), of ?W] c(5) ha(1) by simp
  let ?e = "set_prog 1 (op_prog ?W (OpUpdateChannel 7 0 ''c'' ''r'')) (?d\<lparr>hs_op := (hs_op ?d)(1 := Some (OpUpdateChannel 7 0 ''c'' ''r''))\<rparr>)"
  have e: "lock_step ?W 1 ?d ?e" by (rule Call) (use c(7) in simp)
  let ?f = "?e\<lparr>hs_mu := (hs_mu ?e)\<lparr>rw_writer := Some 1\<rparr>\<rparr>"
  obtain q where q: "hs_prog ?e 1 = Lock q" by (simp add: UpdateChannel_prog_def write_section_def)
  have f: "lock_step ?W 1 ?e ?f" using q by (rule WriteWait) (simp add: c(3))
  obtain r where r: "hs_prog ?f 0 = RLock r"
    by (simp add: sample_message_def lookupPacketProto_prog_def read_section_def)
  let ?g = "?f\<lparr>hs_mu := (hs_mu ?f)\<lparr>rw_queue := rw_queue (hs_mu ?f) @ [0]\<rparr>\<rparr>"
  have g: "lock_step ?W 0 ?f ?g" using r by (rule ReadWait) (simp_all add: c(4))
  have "(hubs_next ?W)\<^sup>*\<^sup>* (hubs_init NewHub) ?g"
    by (rule one_more [OF one_more [OF one_more [OF one_more [OF one_more [OF one_more [OF a b] c(1)] d] e] f] g])
  moreover have "rw_readers (hs_mu ?g) = [0]" "rw_queue (hs_mu ?g) = [0]" "rw_writer (hs_mu ?g) = Some 1"
    "hs_prog ?g 1 = Lock q" "hs_prog ?g 0 = RLock r" "hs_op ?g 1 = Some (OpUpdateChannel 7 0 ''c'' ''r'')"
    "\<forall>g. g \<noteq> 0 \<and> g \<noteq> 1 \<longrightarrow> hs_prog ?g g = Stop"
    using c(2,4,8,9) q r by simp_all
  ultimately show ?thesis by blast
qed

theorem hub_hangs_witness:
  "\<exists>s. (hubs_next sample_names)\<^sup>*\<^sup>* (hubs_init NewHub) s \<and> (\<forall>g t. hs_prog s g \<noteq> Stop \<longrightarrow> \<not> lock_step sample_names g s t) \<and>
     (\<exists>g w p. hs_op s g = Some OpSnapshotChat \<and> g \<in> set (rw_readers (hs_mu s)) \<and> g \<in> set (rw_queue (hs_mu s)) \<and>
        rw_writer (hs_mu s) = Some w \<and> hs_prog s w = Lock p)"
proof -
  obtain s p r where s: "(hubs_next sample_names)\<^sup>*\<^sup>* (hubs_init NewHub) s" "rw_readers (hs_mu s) = [0]"
    "rw_queue (hs_mu s) = [0]" "rw_writer (hs_mu s) = Some 1" "hs_prog s 1 = Lock p" "hs_prog s 0 = RLock r"
    "\<forall>g. g \<noteq> 0 \<and> g \<noteq> 1 \<longrightarrow> hs_prog s g = Stop"
    using sample_hang by blast
  have n: "\<not> lock_step sample_names g s t" if "hs_prog s g \<noteq> Stop" for g t
  proof
    assume "lock_step sample_names g s t"
    moreover have "g = 0 \<or> g = 1" using s(7) that by blast
    ultimately show False using s(2-6) by cases auto
  qed
  have "hs_prog s 1 \<noteq> Stop" using s(5) by simp
  from hub_hangs_only_in_SnapshotChat [OF s(1) this] n s(1) show ?thesis by blast
qed

theorem hub_hang_witness:
  "\<exists>s p. (hubs_next sample_names)\<^sup>*\<^sup>* (hubs_init NewHub) s \<and> hs_op s 1 = Some (OpUpdateChannel 7 0 ''c'' ''r'') \<and>
     (\<forall>t. (hubs_next sample_names)\<^sup>*\<^sup>* s t \<longrightarrow> hs_prog t 1 = Lock p \<and> h_channels (hs_hub t) = h_channels (hs_hub s))"
proof -
  obtain s p where s: "(hubs_next sample_names)\<^sup>*\<^sup>* (hubs_init NewHub) s" "rw_readers (hs_mu s) = [0]"
    "rw_queue (hs_mu s) = [0]" "hs_prog s 1 = Lock p" "hs_op s 1 = Some (OpUpdateChannel 7 0 ''c'' ''r'')"
    using sample_hang by blast
  have m: "0 \<in> set (rw_readers (hs_mu s))" "0 \<in> set (rw_queue (hs_mu s))" using s(2,3) by simp_all
  have "hs_prog t 1 = Lock p \<and> h_channels (hs_hub t) = h_channels (hs_hub s)"
    if "(hubs_next sample_names)\<^sup>*\<^sup>* s t" for t
    using hub_hang_is_final [OF s(1) m that] s(4) by (auto simp: protected_def dest: arg_cong [where f = h_channels])
  with s(1,5) show ?thesis by blast
qed

section \<open>One message recorded twice\<close>

text \<open>
  \<open>RecordChat\<close> looks for a duplicate in one section and appends in another. Two goroutines that record one new message at
  the same time, a browser's call and the radio's echo of the same packet, both find none and both append it.
\<close>

lemma chat_recorded_twice:
  assumes "hs_mu s = rw_free" and "hs_prog s g = Stop" and "hs_prog s k = Stop" and "g \<noteq> k"
    and "cm_Time m \<noteq> None" and "cm_ChannelName m \<noteq> ''''" and "find_duplicate m (hs_hub s) = None"
  shows "\<exists>t. (hubs_next W)\<^sup>*\<^sup>* s t \<and>
    h_chats (hs_hub t) = keep_last (h_maxChat (hs_hub s)) (keep_last (h_maxChat (hs_hub s)) (h_chats (hs_hub s) @ [m]) @ [m])"
proof -
  have mrg: "mergeDuplicateChat m (hs_hub s) = (None, hs_hub s)" using assms(7) by (simp add: mergeDuplicateChat_def)
  define P where "P = (\<lambda>updated. case updated of Some u \<Rightarrow> notifyChat_prog u Stop
       | None \<Rightarrow> isDuplicateChat_prog m (\<lambda>dup. if dup then Stop else write_section (store_chat m) (notifyChat_prog m Stop)))"
  have op: "RecordChat_prog now m Stop = mergeDuplicateChat_prog m P" for now
    using assms(5,6) by (simp add: RecordChat_prog_def add_chat_prog_def P_def Let_def del: not_None_eq)
  have N: "P None = read_section (isDuplicateChat m) (\<lambda>dup. if dup then Stop else write_section (store_chat m) (notifyChat_prog m Stop))"
    by (simp add: P_def isDuplicateChat_prog_def)
  let ?c = "write_section (store_chat m) (notifyChat_prog m Stop)"
  let ?a = "set_prog g (op_prog W (OpRecordChat 1 m)) (s\<lparr>hs_op := (hs_op s)(g := Some (OpRecordChat 1 m))\<rparr>)"
  let ?b = "set_prog k (op_prog W (OpRecordChat 1 m)) (?a\<lparr>hs_op := (hs_op ?a)(k := Some (OpRecordChat 1 m))\<rparr>)"
  let ?d = "set_prog g (P None) (?b\<lparr>hs_hub := hs_hub s\<rparr>)" and ?e = "\<lambda>t. set_prog k (P None) (t\<lparr>hs_hub := hs_hub s\<rparr>)"
  have "hubs_next W s ?a" by (rule next_step, rule Call) (rule assms(2))
  moreover have "hubs_next W ?a ?b" by (rule next_step, rule Call) (use assms(3,4) in simp)
  moreover have "(hubs_next W)\<^sup>*\<^sup>* ?b ?d" by (rule free_merge [where m = m]) (simp_all add: assms(1,4) op mrg)
  moreover have "(hubs_next W)\<^sup>*\<^sup>* ?d (?e ?d)"
    by (rule free_merge [where m = m]) (use assms(4) in \<open>simp_all add: assms(1) op mrg\<close>)
  moreover have "(hubs_next W)\<^sup>*\<^sup>* (?e ?d) (set_prog g ?c (?e ?d))"
    using free_read [of "?e ?d" g "isDuplicateChat m" "\<lambda>dup. if dup then Stop else ?c" W] assms
    by (simp add: N isDuplicateChat_def)
  moreover have "(hubs_next W)\<^sup>*\<^sup>* (set_prog g ?c (?e ?d)) (set_prog k ?c (set_prog g ?c (?e ?d)))"
    using free_read [of "set_prog g ?c (?e ?d)" k "isDuplicateChat m" "\<lambda>dup. if dup then Stop else ?c" W] assms
    by (simp add: N isDuplicateChat_def)
  moreover
  let ?f = "set_prog k ?c (set_prog g ?c (?e ?d))"
  let ?h = "set_prog g (notifyChat_prog m Stop) (?f\<lparr>hs_hub := store_chat m (hs_hub ?f)\<rparr>)"
  let ?i = "set_prog k (notifyChat_prog m Stop) (?h\<lparr>hs_hub := store_chat m (hs_hub ?h)\<rparr>)"
  have "(hubs_next W)\<^sup>*\<^sup>* ?f ?h" by (rule free_write) (simp_all add: assms(1,4))
  moreover have "(hubs_next W)\<^sup>*\<^sup>* ?h ?i" by (rule free_write) (use assms(4) in \<open>simp_all add: assms(1)\<close>)
  ultimately have "(hubs_next W)\<^sup>*\<^sup>* s ?i" by (meson r_into_rtranclp rtranclp_trans)
  then show ?thesis by (intro exI [of _ ?i]) (simp add: store_chat_def)
qed

lemma chat_recorded_twice_sample:
  "\<exists>t. (hubs_next sample_names)\<^sup>*\<^sup>* (hubs_init NewHub) t \<and> h_chats (hs_hub t) = [sample_message, sample_message]"
proof -
  have "\<exists>t. (hubs_next sample_names)\<^sup>*\<^sup>* (hubs_init NewHub) t \<and> h_chats (hs_hub t) =
      keep_last (h_maxChat NewHub) (keep_last (h_maxChat NewHub) (h_chats NewHub @ [sample_message]) @ [sample_message])"
    using chat_recorded_twice [of "hubs_init NewHub" 0 1 sample_message sample_names]
    by (simp add: hubs_init_def sample_message_def find_duplicate_def NewHub_def)
  then show ?thesis by (simp add: NewHub_def keep_last_def defaultMaxChat_def)
qed

end
